(* ===== verification/Ftp_Prelude.thy ===== *)
theory Ftp_Prelude
  imports Main "HOL-Library.Word"
begin

text \<open>
  What every other theory of the development shares: the result type of a C function that may
  end the process or never return, its sequencing, the C loop, and the weakest-precondition
  calculus with which the component theories state and prove their contracts.
  Nothing in this theory models a particular source line.
\<close>

unbundle bit_operations_syntax

section \<open>Results of C functions\<close>

text \<open>
  A C function either returns or leaves its caller for good. \<open>Bug\<close> is the call \<open>bug(text)\<close> of
  utils.c, which ends the whole process; \<open>Null_Deref\<close>, \<open>Out_Of_Bounds\<close>, \<open>Bad_Format\<close>,
  \<open>Uninitialised\<close> and \<open>Div_By_Zero\<close> are undefined behaviour of the program (a null pointer handed
  to a routine that reads it, memory outside an object, a printf conversion without its
  argument, a variable read before it is set, a division by zero); \<open>Thread_Exit\<close> is
  \<open>apr_thread_exit\<close>, \<open>Process_Exit\<close> the C library's \<open>exit\<close>; \<open>Diverge\<close> stands for a loop or
  a recursion that never ends.
\<close>

datatype fault =
    Bug string
  | Null_Deref
  | Out_Of_Bounds
  | Bad_Format
  | Uninitialised
  | Div_By_Zero
  | Thread_Exit
  | Process_Exit int
  | Diverge

type_synonym 'a res = "fault + 'a"

definition bnd :: "'a res \<Rightarrow> ('a \<Rightarrow> 'b res) \<Rightarrow> 'b res" where
  "bnd m k = (case m of Inl e \<Rightarrow> Inl e | Inr a \<Rightarrow> k a)"

named_theorems fault_free \<open>facts that an operation returns and does not fault\<close>
named_theorems wp_spec \<open>contracts of the operations, in weakest-precondition form\<close>
named_theorems frame \<open>which fields an operation leaves alone\<close>

lemma bnd_Inl [simp]: "bnd (Inl e) k = Inl e"
  by (simp add: bnd_def)

lemma bnd_Inr [simp]: "bnd (Inr a) k = k a"
  by (simp add: bnd_def)

lemma bnd_assoc: "bnd (bnd m k) h = bnd m (\<lambda>a. bnd (k a) h)"
  by (cases m) simp_all

lemma bnd_if: "bnd (if b then m else n) k = (if b then bnd m k else bnd n k)"
  by simp

lemma bnd_eq_Inr: "bnd m k = Inr b \<longleftrightarrow> (\<exists>a. m = Inr a \<and> k a = Inr b)"
  by (cases m) auto

lemma bnd_eq_Inl: "bnd m k = Inl e \<longleftrightarrow> m = Inl e \<or> (\<exists>a. m = Inr a \<and> k a = Inl e)"
  by (cases m) auto

lemma bnd_cong [fundef_cong]:
  "m = m' \<Longrightarrow> (\<And>a. m' = Inr a \<Longrightarrow> k a = k' a) \<Longrightarrow> bnd m k = bnd m' k'"
  by (cases m') auto

section \<open>Weakest preconditions\<close>

text \<open>
  \<open>wp E Q m\<close>: a fault of \<open>m\<close> satisfies \<open>E\<close>, a returned value satisfies \<open>Q\<close>. With
  \<open>E = (\<lambda>_. True)\<close> this is partial correctness, with \<open>E = (\<lambda>_. False)\<close> total correctness.
\<close>

definition wp :: "(fault \<Rightarrow> bool) \<Rightarrow> ('a \<Rightarrow> bool) \<Rightarrow> 'a res \<Rightarrow> bool" where
  "wp E Q m = (case m of Inl e \<Rightarrow> E e | Inr a \<Rightarrow> Q a)"

lemma wp_Inl [simp]: "wp E Q (Inl e) = E e"
  by (simp add: wp_def)

lemma wp_Inr [simp]: "wp E Q (Inr a) = Q a"
  by (simp add: wp_def)

lemma wp_bnd [simp]: "wp E Q (bnd m k) = wp E (\<lambda>a. wp E Q (k a)) m"
  by (cases m) simp_all

lemma wp_if [simp]: "wp E Q (if b then m else n) = (if b then wp E Q m else wp E Q n)"
  by simp

lemma wp_let [simp]: "wp E Q (let x = a in f x) = (let x = a in wp E Q (f x))"
  by (simp add: Let_def)

lemma wp_mono:
  assumes "wp E P m" and "\<And>e. E e \<Longrightarrow> E' e" and "\<And>a. P a \<Longrightarrow> Q a"
  shows "wp E' Q m"
  using assms by (cases m) auto

lemma wp_conj: "wp E P m \<Longrightarrow> wp E Q m \<Longrightarrow> wp E (\<lambda>a. P a \<and> Q a) m"
  by (cases m) auto

lemma wp_InrD: "wp E Q m \<Longrightarrow> m = Inr a \<Longrightarrow> Q a"
  by simp

lemma wp_InlD: "wp E Q m \<Longrightarrow> m = Inl e \<Longrightarrow> E e"
  by simp

lemma wp_returns: "wp (\<lambda>_. False) Q m \<Longrightarrow> \<exists>a. m = Inr a \<and> Q a"
  by (cases m) auto

lemma wp_triv [simp]: "wp (\<lambda>_. True) (\<lambda>_. True) m"
  by (cases m) auto

lemma wp_any: "(\<And>a. Q a) \<Longrightarrow> wp (\<lambda>_. True) Q m"
  by (cases m) auto

section \<open>Loops\<close>

text \<open>
  A C loop with its \<open>break\<close>, \<open>continue\<close> and \<open>return\<close>: one iteration yields \<open>Again\<close> with the
  next values of the loop's variables, or \<open>Done\<close> with what the loop leaves behind. The loop may
  run forever, so it is a \<open>partial_function\<close>; \<open>run_loop\<close> makes not returning the fault
  \<open>Diverge\<close>.
\<close>

datatype ('s, 'a) ctl = Again 's | Done 'a

partial_function (option) loop :: "('s \<Rightarrow> ('s, 'a) ctl res) \<Rightarrow> 's \<Rightarrow> 'a res option" where
  "loop body s =
     (case body s of
        Inl e \<Rightarrow> Some (Inl e)
      | Inr c \<Rightarrow> (case c of Again s' \<Rightarrow> loop body s' | Done a \<Rightarrow> Some (Inr a)))"

definition run_loop :: "('s \<Rightarrow> ('s, 'a) ctl res) \<Rightarrow> 's \<Rightarrow> 'a res" where
  "run_loop body s = (case loop body s of None \<Rightarrow> Inl Diverge | Some r \<Rightarrow> r)"

lemma run_loop_unfold:
  "run_loop body s =
     bnd (body s) (\<lambda>c. case c of Again s' \<Rightarrow> run_loop body s' | Done a \<Rightarrow> Inr a)"
  by (subst run_loop_def, subst loop.simps)
     (auto simp: run_loop_def bnd_def split: sum.splits ctl.splits option.splits)

lemma run_loop_Inl: "body s = Inl e \<Longrightarrow> run_loop body s = Inl e"
  by (subst run_loop_unfold) simp

lemma run_loop_Done: "body s = Inr (Done a) \<Longrightarrow> run_loop body s = Inr a"
  by (subst run_loop_unfold) simp

lemma run_loop_Again: "body s = Inr (Again s') \<Longrightarrow> run_loop body s = run_loop body s'"
  by (subst run_loop_unfold) simp

lemmas run_loop_step = run_loop_Inl run_loop_Done run_loop_Again

text \<open>Partial correctness of a loop: an invariant that one iteration keeps.\<close>

lemma loop_inv:
  assumes ret: "loop body s = Some r" and init: "I s"
    and step: "\<And>t. I t \<Longrightarrow>
      wp E (\<lambda>c. case c of Again t' \<Rightarrow> I t' | Done a \<Rightarrow> Q a) (body t)"
  shows "wp E Q r"
proof -
  have "body = body \<longrightarrow> I s \<longrightarrow> wp E Q r"
  proof (rule loop.raw_induct [where P = "\<lambda>b s r. b = body \<longrightarrow> I s \<longrightarrow> wp E Q r", OF _ ret])
    fix lp b t q
    assume IH: "\<And>t b q. lp t b = Some q \<Longrightarrow> t = body \<longrightarrow> I b \<longrightarrow> wp E Q q"
      and eq: "(case b t of Inl e \<Rightarrow> Some (Inl e)
         | Inr (Again s') \<Rightarrow> lp b s' | Inr (Done a) \<Rightarrow> Some (Inr a)) = Some q"
    show "b = body \<longrightarrow> I t \<longrightarrow> wp E Q q"
      using eq step [of t] by (auto split: sum.splits ctl.splits dest!: IH)
  qed
  with init show ?thesis by simp
qed

lemma wp_run_loop:
  assumes "I s" and "E Diverge"
    and "\<And>t. I t \<Longrightarrow>
      wp E (\<lambda>c. case c of Again t' \<Rightarrow> I t' | Done a \<Rightarrow> Q a) (body t)"
  shows "wp E Q (run_loop body s)"
  using loop_inv [where I = I and E = E and Q = Q and body = body and s = s] assms
  by (auto simp: run_loop_def split: option.splits)

text \<open>Total correctness: besides the invariant, a number that every iteration decreases.\<close>

lemma wp_run_loop_total:
  fixes \<mu> :: "'s \<Rightarrow> nat"
  assumes "I s"
    and "\<And>t. I t \<Longrightarrow>
      wp E (\<lambda>c. case c of Again t' \<Rightarrow> I t' \<and> \<mu> t' < \<mu> t | Done a \<Rightarrow> Q a) (body t)"
  shows "wp E Q (run_loop body s)"
  using assms(1)
proof (induction "\<mu> s" arbitrary: s rule: less_induct)
  case less
  have IH: "I t \<Longrightarrow> \<mu> t < \<mu> s \<Longrightarrow> wp E Q (run_loop body t)" for t
    using less.hyps by blast
  show ?case
  proof (cases "body s")
    case (Inl e)
    with assms(2) [OF less.prems] show ?thesis by (simp add: run_loop_Inl)
  next
    case (Inr c)
    with assms(2) [OF less.prems] show ?thesis
      by (cases c) (auto simp: run_loop_Done run_loop_Again intro: IH)
  qed
qed

text \<open>
  The retry idiom \<open>do rc = call(); while (rc == -EINTR);\<close>: the call is repeated in the world
  that the interrupted call left behind. \<open>prj\<close> picks that world out of the call's result.
\<close>

definition EINTR :: int where "EINTR = 4"

definition eintr_loop :: "('w \<Rightarrow> int \<times> 'a) \<Rightarrow> ('a \<Rightarrow> 'w) \<Rightarrow> 'w \<Rightarrow> (int \<times> 'a) res" where
  "eintr_loop call prj w =
     run_loop (\<lambda>w. let r = call w in
       Inr (if fst r = - EINTR then Again (prj (snd r)) else Done r)) w"

lemma eintr_loop_stop: "fst (call w) \<noteq> - EINTR \<Longrightarrow> eintr_loop call prj w = Inr (call w)"
  by (simp add: eintr_loop_def Let_def run_loop_Done)

lemma eintr_loop_again:
  "fst (call w) = - EINTR \<Longrightarrow> eintr_loop call prj w = eintr_loop call prj (prj (snd (call w)))"
  by (simp add: eintr_loop_def Let_def run_loop_Again)

text \<open>What the loop returns is never the interruption, and comes from one of the calls.\<close>

lemma wp_eintr_loop:
  assumes "J w" and "E Diverge"
    and again: "\<And>w r. J w \<Longrightarrow> call w = (- EINTR, r) \<Longrightarrow> J (prj r)"
    and stop: "\<And>w rc r. J w \<Longrightarrow> call w = (rc, r) \<Longrightarrow> rc \<noteq> - EINTR \<Longrightarrow> Q (rc, r)"
  shows "wp E Q (eintr_loop call prj w)"
  unfolding eintr_loop_def
proof (rule wp_run_loop [where I = J and E = E])
  fix t
  assume "J t"
  then show "wp E (\<lambda>c. case c of Again t' \<Rightarrow> J t' | Done a \<Rightarrow> Q a)
      (let r = call t in Inr (if fst r = - EINTR then Again (prj (snd r)) else Done r))"
    using again [of t] stop [of t] by (cases "call t") auto
qed (use assms in auto)

text \<open>
  A kernel that interrupts only finitely often: a number that every interruption decreases.
  Then the retry loop returns.
\<close>

lemma wp_eintr_loop_total:
  fixes \<mu> :: "'w \<Rightarrow> nat"
  assumes "J w"
    and again: "\<And>w r. J w \<Longrightarrow> call w = (- EINTR, r) \<Longrightarrow> J (prj r) \<and> \<mu> (prj r) < \<mu> w"
    and stop: "\<And>w rc r. J w \<Longrightarrow> call w = (rc, r) \<Longrightarrow> rc \<noteq> - EINTR \<Longrightarrow> Q (rc, r)"
  shows "wp E Q (eintr_loop call prj w)"
  unfolding eintr_loop_def
proof (rule wp_run_loop_total [where I = J and \<mu> = \<mu>])
  fix t
  assume "J t"
  then show "wp E (\<lambda>c. case c of Again t' \<Rightarrow> J t' \<and> \<mu> t' < \<mu> t | Done a \<Rightarrow> Q a)
      (let r = call t in Inr (if fst r = - EINTR then Again (prj (snd r)) else Done r))"
    using again [of t] stop [of t] by (cases "call t") auto
qed (rule assms)

section \<open>Memory cells\<close>

text \<open>
  An array is the list of its cells; reading or writing outside it is undefined behaviour.
  \<open>slice\<close> is the range of \<open>n\<close> cells from \<open>i\<close> that a routine such as \<open>write\<close> or \<open>memcpy\<close> reads.
\<close>

definition load :: "'a list \<Rightarrow> nat \<Rightarrow> 'a res" where
  "load b i = (if i < length b then Inr (b ! i) else Inl Out_Of_Bounds)"

definition store :: "'a list \<Rightarrow> nat \<Rightarrow> 'a \<Rightarrow> 'a list res" where
  "store b i x = (if i < length b then Inr (b[i := x]) else Inl Out_Of_Bounds)"

definition slice :: "'a list \<Rightarrow> nat \<Rightarrow> nat \<Rightarrow> 'a list res" where
  "slice b i n = (if i + n \<le> length b then Inr (take n (drop i b)) else Inl Out_Of_Bounds)"

lemma load_in [simp]: "i < length b \<Longrightarrow> load b i = Inr (b ! i)"
  by (simp add: load_def)

lemma store_in [simp]: "i < length b \<Longrightarrow> store b i x = Inr (b[i := x])"
  by (simp add: store_def)

lemma slice_in [simp]: "i + n \<le> length b \<Longrightarrow> slice b i n = Inr (take n (drop i b))"
  by (simp add: slice_def)

lemma slice_out: "length b < i + n \<Longrightarrow> slice b i n = Inl Out_Of_Bounds"
  by (simp add: slice_def)

lemma drop_nth_Cons: "i < length xs \<Longrightarrow> drop i xs = xs ! i # drop (Suc i) xs"
  by (simp add: Cons_nth_drop_Suc)

lemma take_Suc_update: "i < length xs \<Longrightarrow> take (Suc i) (xs[i := x]) = take i xs @ [x]"
  by (simp add: take_Suc_conv_app_nth)

section \<open>Null-terminated strings\<close>

text \<open>
  A \<open>char\<close> buffer holds the string up to its first null character. A buffer without one is no
  C string: the routine that scans it runs past its end.
\<close>

definition NUL :: char where "NUL = CHR 0x00"
definition CR :: char where "CR = CHR 0x0D"
definition LF :: char where "LF = CHR 0x0A"

definition c_string :: "string \<Rightarrow> string res" where
  "c_string buf =
     (if NUL \<in> set buf then Inr (takeWhile (\<lambda>c. c \<noteq> NUL) buf) else Inl Out_Of_Bounds)"

lemma c_string_append:
  "NUL \<notin> set s \<Longrightarrow> c_string (s @ NUL # rest) = Inr s"
  by (simp add: c_string_def takeWhile_append)

lemma c_string_None: "NUL \<notin> set buf \<Longrightarrow> c_string buf = Inl Out_Of_Bounds"
  by (simp add: c_string_def)

lemma c_string_no_NUL: "c_string buf = Inr s \<Longrightarrow> NUL \<notin> set s"
  by (auto simp: c_string_def dest: set_takeWhileD split: if_splits)

lemma CR_neq_LF [simp]: "CR \<noteq> LF" "LF \<noteq> CR" "CR \<noteq> NUL" "LF \<noteq> NUL" "NUL \<noteq> CR" "NUL \<noteq> LF"
  by (simp_all add: CR_def LF_def NUL_def)

text \<open>A literal for the end of an FTP line, and the test for \<open>strchr(s, c)\<close>.\<close>

abbreviation CRLF :: string where "CRLF \<equiv> [CR, LF]"

definition strchr :: "string \<Rightarrow> char \<Rightarrow> bool" where
  "strchr s c \<longleftrightarrow> c \<in> set s"

section \<open>Fixed-width integers\<close>

text \<open>
  The program is compiled for LP64: \<open>int\<close> has 32 bits, \<open>long\<close>, \<open>apr_size_t\<close> and \<open>apr_off_t\<close> 64.
  Signed values are modelled as \<open>int\<close>, with \<open>to_int32\<close> where the source narrows one.
\<close>

definition to_int32 :: "int \<Rightarrow> int" where
  "to_int32 x = (x + 2 ^ 31) mod 2 ^ 32 - 2 ^ 31"

lemma to_int32_id: "- (2 ^ 31) \<le> x \<Longrightarrow> x < 2 ^ 31 \<Longrightarrow> to_int32 x = x"
  by (simp add: to_int32_def)

lemma to_int32_range: "- (2 ^ 31) \<le> to_int32 x \<and> to_int32 x < 2 ^ 31"
  by (simp add: to_int32_def)

section \<open>Decimal output\<close>

text \<open>The digits that printf's \<open>%d\<close> and \<open>%u\<close> write.\<close>

definition digit :: "nat \<Rightarrow> char" where
  "digit n = char_of (48 + n)"

fun dec_nat :: "nat \<Rightarrow> string" where
  "dec_nat n = (if n < 10 then [digit n] else dec_nat (n div 10) @ [digit (n mod 10)])"

declare dec_nat.simps [simp del]

definition dec_int :: "int \<Rightarrow> string" where
  "dec_int i = (if i < 0 then CHR ''-'' # dec_nat (nat (- i)) else dec_nat (nat i))"

lemma dec_nat_neq_Nil [simp]: "dec_nat n \<noteq> []"
  by (subst dec_nat.simps) simp

lemma digit_code: "n < 10 \<Longrightarrow> of_char (digit n) = (48 + n :: nat)"
  by (simp add: digit_def)

definition is_digit :: "char \<Rightarrow> bool" where
  "is_digit c \<longleftrightarrow> 48 \<le> (of_char c :: nat) \<and> (of_char c :: nat) \<le> 57"

lemma dec_nat_digits: "c \<in> set (dec_nat n) \<Longrightarrow> is_digit c"
proof (induction n rule: dec_nat.induct)
  case (1 n)
  then show ?case
    by (subst (asm) (2) dec_nat.simps) (auto simp: is_digit_def digit_code split: if_splits)
qed

definition dec_value :: "string \<Rightarrow> nat" where
  "dec_value s = foldl (\<lambda>a c. 10 * a + (of_char c - 48)) 0 s"

lemma dec_value_snoc: "dec_value (s @ [c]) = 10 * dec_value s + (of_char c - 48)"
  by (simp add: dec_value_def)

lemma dec_value_dec_nat: "dec_value (dec_nat n) = n"
proof (induction n rule: dec_nat.induct)
  case (1 n)
  then show ?case
    by (subst dec_nat.simps) (auto simp: dec_value_snoc digit_code dec_value_def [of "[_]"])
qed

text \<open>Pieces of a text with a separator between them.\<close>

fun join :: "char \<Rightarrow> string list \<Rightarrow> string" where
  "join sep [] = []"
| "join sep [s] = s"
| "join sep (s # t # ss) = s @ sep # join sep (t # ss)"

section \<open>Encodings\<close>

text \<open>
  The contract of a pair of translations of which the second undoes the first on a domain. The
  program has several: the text conversion of utils.c, the permission bits of filestat.c and
  the port number of connection.c each provide it.
\<close>

locale codec =
  fixes enc :: "'a \<Rightarrow> 'b" and dec :: "'b \<Rightarrow> 'a" and dom :: "'a \<Rightarrow> bool"
  assumes dec_enc: "dom x \<Longrightarrow> dec (enc x) = x"
begin

lemma enc_inj: "dom x \<Longrightarrow> dom y \<Longrightarrow> enc x = enc y \<longleftrightarrow> x = y"
  by (metis dec_enc)

lemma enc_dec_enc: "dom x \<Longrightarrow> enc (dec (enc x)) = enc x"
  by (simp add: dec_enc)

lemma in_range: "dom x \<Longrightarrow> y = enc x \<Longrightarrow> enc (dec y) = y"
  by (simp add: dec_enc)

end

end
