(* ===== verification/Ftp_Env.thy ===== *)
theory Ftp_Env
  imports Ftp_Prelude
begin

text \<open>
  The code the program calls and the repository does not contain: the LKL system calls and the
  Apache Portable Runtime. Each call is a parameter of the model, a field of one of the two
  records below. A call takes and returns the world \<open>'w\<close> it acts on, which stays abstract: the
  program sees of it only what the calls return. A theorem that relies on the documented
  behaviour of a call has that behaviour as a named hypothesis.
\<close>

section \<open>Status codes and flags of APR and Linux\<close>

abbreviation APR_SUCCESS :: int where "APR_SUCCESS \<equiv> 0"

definition APR_EOF :: int where "APR_EOF = 70014"
definition APR_INCOMPLETE :: int where "APR_INCOMPLETE = 70008"
definition APR_TIMEUP :: int where "APR_TIMEUP = 70007"
definition APR_ENOSOCKET :: int where "APR_ENOSOCKET = 20011"
definition APR_EINVAL :: int where "APR_EINVAL = 22"
definition APR_EACCES :: int where "APR_EACCES = 13"
definition APR_ENOENT :: int where "APR_ENOENT = 2"
definition EAGAIN :: int where "EAGAIN = 11"
definition EINVAL :: int where "EINVAL = 22"

lemmas errno_defs = APR_EOF_def APR_INCOMPLETE_def APR_TIMEUP_def APR_ENOSOCKET_def APR_EINVAL_def
  APR_EACCES_def APR_ENOENT_def EAGAIN_def EINVAL_def EINTR_def

lemma status_neq_success [simp]:
  "APR_EOF \<noteq> 0" "APR_INCOMPLETE \<noteq> 0" "APR_TIMEUP \<noteq> 0" "APR_ENOSOCKET \<noteq> 0" "APR_EINVAL \<noteq> 0"
  "APR_EACCES \<noteq> 0" "APR_ENOENT \<noteq> 0"
  by (simp_all add: errno_defs)

type_synonym flags = "32 word"

definition APR_READ :: flags where "APR_READ = 0x1"
definition APR_WRITE :: flags where "APR_WRITE = 0x2"
definition APR_CREATE :: flags where "APR_CREATE = 0x4"
definition APR_APPEND :: flags where "APR_APPEND = 0x8"
definition APR_TRUNCATE :: flags where "APR_TRUNCATE = 0x10"
definition APR_BINARY :: flags where "APR_BINARY = 0x20"
definition APR_EXCL :: flags where "APR_EXCL = 0x40"
definition APR_BUFFERED :: flags where "APR_BUFFERED = 0x80"
definition APR_DELONCLOSE :: flags where "APR_DELONCLOSE = 0x100"
definition APR_XTHREAD :: flags where "APR_XTHREAD = 0x200"
definition APR_FILE_NOCLEANUP :: flags where "APR_FILE_NOCLEANUP = 0x800"
definition APR_SENDFILE_ENABLED :: flags where "APR_SENDFILE_ENABLED = 0x1000"
definition APR_LARGEFILE :: flags where "APR_LARGEFILE = 0x4000"
definition APR_OS_DEFAULT :: flags where "APR_OS_DEFAULT = 0x0FFF"

lemmas apr_open_defs = APR_READ_def APR_WRITE_def APR_CREATE_def APR_APPEND_def APR_TRUNCATE_def
  APR_BINARY_def APR_EXCL_def APR_BUFFERED_def APR_DELONCLOSE_def APR_XTHREAD_def
  APR_FILE_NOCLEANUP_def APR_SENDFILE_ENABLED_def APR_LARGEFILE_def APR_OS_DEFAULT_def

definition O_RDONLY :: flags where "O_RDONLY = 0"
definition O_WRONLY :: flags where "O_WRONLY = 0x1"
definition O_RDWR :: flags where "O_RDWR = 0x2"
definition O_CREAT :: flags where "O_CREAT = 0x40"
definition O_EXCL :: flags where "O_EXCL = 0x80"
definition O_TRUNC :: flags where "O_TRUNC = 0x200"
definition O_APPEND :: flags where "O_APPEND = 0x400"
definition O_LARGEFILE :: flags where "O_LARGEFILE = 0x8000"
definition O_DIRECTORY :: flags where "O_DIRECTORY = 0x10000"

lemmas linux_open_defs = O_RDONLY_def O_WRONLY_def O_RDWR_def O_CREAT_def O_EXCL_def O_TRUNC_def
  O_APPEND_def O_LARGEFILE_def O_DIRECTORY_def

definition APR_FINFO_LINK :: flags where "APR_FINFO_LINK = 0x1"
definition APR_FINFO_ATIME :: flags where "APR_FINFO_ATIME = 0x40"
definition APR_FINFO_SIZE :: flags where "APR_FINFO_SIZE = 0x100"
definition APR_FINFO_INODE :: flags where "APR_FINFO_INODE = 0x2000"
definition APR_FINFO_NLINK :: flags where "APR_FINFO_NLINK = 0x4000"
definition APR_FINFO_TYPE :: flags where "APR_FINFO_TYPE = 0x8000"
definition APR_FINFO_NAME :: flags where "APR_FINFO_NAME = 0x2000000"
definition APR_FINFO_MIN :: flags where "APR_FINFO_MIN = 0x8170"
definition APR_FINFO_IDENT :: flags where "APR_FINFO_IDENT = 0x3000"
definition APR_FINFO_OWNER :: flags where "APR_FINFO_OWNER = 0x30000"
definition APR_FINFO_PROT :: flags where "APR_FINFO_PROT = 0x700000"

lemmas finfo_defs = APR_FINFO_LINK_def APR_FINFO_ATIME_def APR_FINFO_SIZE_def APR_FINFO_INODE_def
  APR_FINFO_NLINK_def APR_FINFO_TYPE_def APR_FINFO_NAME_def APR_FINFO_MIN_def APR_FINFO_IDENT_def
  APR_FINFO_OWNER_def APR_FINFO_PROT_def

section \<open>The LKL system calls\<close>

text \<open>
  A \<open>char *\<close> that may be null is a \<open>string option\<close>. A system call returns a negative error number
  or its result; \<open>lkl_sys_read\<close> also returns the bytes it put into the caller's buffer and
  \<open>lkl_sys_getdents\<close> the directory records. The pool calls of APR that the file layer uses are
  here too: the cleanup that closes a file, named by its descriptor when it is registered.
\<close>

type_synonym cstr = "string option"

record kernel_stat =
  st_mode :: "32 word"
  st_size :: int
  st_ino :: int
  st_dev :: int
  st_nlink :: int
  st_atime :: int
  st_mtime :: int
  st_ctime :: int

record kernel_dirent =
  d_ino :: int
  d_reclen :: nat
  d_name :: string

record 'w lkl =
  lkl_sys_open :: "cstr \<Rightarrow> flags \<Rightarrow> 32 word \<Rightarrow> 'w \<Rightarrow> int \<times> 'w"
  lkl_sys_close :: "int \<Rightarrow> 'w \<Rightarrow> int \<times> 'w"
  lkl_sys_read :: "int \<Rightarrow> nat \<Rightarrow> 'w \<Rightarrow> int \<times> string \<times> 'w"
  lkl_sys_write :: "int \<Rightarrow> string \<Rightarrow> 'w \<Rightarrow> int \<times> 'w"
  lkl_sys_lseek :: "int \<Rightarrow> int \<Rightarrow> int \<Rightarrow> 'w \<Rightarrow> int \<times> 'w"
  lkl_sys_poll :: "int \<Rightarrow> bool \<Rightarrow> int \<Rightarrow> 'w \<Rightarrow> int \<times> 'w"
  lkl_sys_flock :: "int \<Rightarrow> flags \<Rightarrow> 'w \<Rightarrow> int \<times> 'w"
  lkl_sys_unlink :: "cstr \<Rightarrow> 'w \<Rightarrow> int \<times> 'w"
  lkl_sys_rename :: "cstr \<Rightarrow> cstr \<Rightarrow> 'w \<Rightarrow> int \<times> 'w"
  lkl_sys_mkdir :: "cstr \<Rightarrow> 32 word \<Rightarrow> 'w \<Rightarrow> int \<times> 'w"
  lkl_sys_rmdir :: "cstr \<Rightarrow> 'w \<Rightarrow> int \<times> 'w"
  lkl_sys_chmod :: "cstr \<Rightarrow> 32 word \<Rightarrow> 'w \<Rightarrow> int \<times> 'w"
  lkl_sys_utimes :: "cstr \<Rightarrow> int \<times> int \<Rightarrow> int \<times> int \<Rightarrow> 'w \<Rightarrow> int \<times> 'w"
  lkl_sys_newstat :: "cstr \<Rightarrow> 'w \<Rightarrow> int \<times> kernel_stat \<times> 'w"
  lkl_sys_newlstat :: "cstr \<Rightarrow> 'w \<Rightarrow> int \<times> kernel_stat \<times> 'w"
  lkl_sys_newfstat :: "int \<Rightarrow> 'w \<Rightarrow> int \<times> kernel_stat \<times> 'w"
  lkl_sys_getdents :: "int \<Rightarrow> nat \<Rightarrow> 'w \<Rightarrow> int \<times> kernel_dirent list \<times> 'w"
  apr_thread_mutex_create :: "'w \<Rightarrow> int \<times> 'w"
  apr_thread_mutex_destroy :: "'w \<Rightarrow> int \<times> 'w"
  apr_thread_mutex_lock :: "'w \<Rightarrow> int \<times> 'w"
  apr_thread_mutex_unlock :: "'w \<Rightarrow> int \<times> 'w"
  apr_pool_cleanup_register :: "int \<Rightarrow> 'w \<Rightarrow> 'w"
  apr_pool_cleanup_run :: "('w \<Rightarrow> (int \<times> 'w) res) \<Rightarrow> 'w \<Rightarrow> (int \<times> 'w) res"

section \<open>APR: sockets, strings, time, threads\<close>

text \<open>
  A socket, a thread and a memory pool are opaque handles. \<open>apr_strtok seps s\<close> is the separators
  it skipped, the token and the text after the separator that ended it, or nothing when no
  token is left; \<open>apr_pvsprintf\<close> is \<open>None\<close> where a conversion has no argument of its type, which
  the C standard leaves undefined.
\<close>

type_synonym sock = nat

record apr_sockaddr =
  family :: int
  sa_id :: nat

datatype farg = Str string | Dec int | Uns nat | Chr char

record apr_time_exp =
  tm_year :: int
  tm_rest :: nat

record 'w apr = "'w lkl" +
  apr_socket_send :: "sock \<Rightarrow> string \<Rightarrow> 'w \<Rightarrow> int \<times> nat \<times> 'w"
  apr_socket_recv :: "sock \<Rightarrow> nat \<Rightarrow> 'w \<Rightarrow> int \<times> string \<times> 'w"
  apr_socket_close :: "sock \<Rightarrow> 'w \<Rightarrow> int \<times> 'w"
  apr_socket_opt_set :: "sock \<Rightarrow> string \<Rightarrow> int \<Rightarrow> 'w \<Rightarrow> int \<times> 'w"
  apr_socket_create :: "int \<Rightarrow> 'w \<Rightarrow> int \<times> sock \<times> 'w"
  apr_socket_bind :: "sock \<Rightarrow> apr_sockaddr \<Rightarrow> 'w \<Rightarrow> int \<times> 'w"
  apr_socket_connect :: "sock \<Rightarrow> apr_sockaddr \<Rightarrow> 'w \<Rightarrow> int \<times> 'w"
  apr_socket_listen :: "sock \<Rightarrow> int \<Rightarrow> 'w \<Rightarrow> int \<times> 'w"
  apr_socket_accept :: "sock \<Rightarrow> 'w \<Rightarrow> int \<times> sock option \<times> 'w"
  apr_sockaddr_info_get :: "cstr \<Rightarrow> 16 word \<Rightarrow> 'w \<Rightarrow> int \<times> apr_sockaddr list \<times> 'w"
  apr_sockaddr_ip_get :: "apr_sockaddr \<Rightarrow> int \<times> string"
  apr_generate_random_bytes :: "nat \<Rightarrow> 'w \<Rightarrow> int \<times> 8 word list \<times> 'w"
  apr_pool_create :: "'w \<Rightarrow> int \<times> 'w"
  apr_pool_clear :: "'w \<Rightarrow> 'w"
  apr_pool_destroy :: "'w \<Rightarrow> 'w"
  apr_thread_join :: "nat option \<Rightarrow> 'w \<Rightarrow> int \<times> 'w"
  apr_strtok :: "string \<Rightarrow> string \<Rightarrow> (string \<times> string \<times> string) option"
  apr_strtoff :: "string \<Rightarrow> int \<times> int"
  apr_strnatcasecmp :: "string \<Rightarrow> string \<Rightarrow> int"
  apr_pvsprintf :: "string \<Rightarrow> farg list \<Rightarrow> string option"
  apr_time_now :: "'w \<Rightarrow> int \<times> 'w"
  apr_time_exp_lt :: "int \<Rightarrow> apr_time_exp"
  apr_strftime :: "nat \<Rightarrow> string \<Rightarrow> apr_time_exp \<Rightarrow> string"

section \<open>Documented behaviour\<close>

text \<open>
  printf: characters other than \<open>%\<close> are copied, a conversion consumes one argument of its type,
  a conversion without one is undefined, and arguments left over are ignored.
\<close>

definition printf_doc :: "(string \<Rightarrow> farg list \<Rightarrow> string option) \<Rightarrow> bool" where
  "printf_doc p \<longleftrightarrow>
     (\<forall>args. p [] args = Some [])
   \<and> (\<forall>c f args. c \<noteq> CHR ''%'' \<longrightarrow> p (c # f) args = map_option (Cons c) (p f args))
   \<and> (\<forall>f s args. p (CHR ''%'' # CHR ''s'' # f) (Str s # args) = map_option (append s) (p f args))
   \<and> (\<forall>f i args. p (CHR ''%'' # CHR ''d'' # f) (Dec i # args)
                   = map_option (append (dec_int i)) (p f args))
   \<and> (\<forall>f n args. p (CHR ''%'' # CHR ''u'' # f) (Uns n # args)
                   = map_option (append (dec_nat n)) (p f args))
   \<and> (\<forall>f x args. p (CHR ''%'' # CHR ''c'' # f) (Chr x # args) = map_option (Cons x) (p f args))
   \<and> (\<forall>f c. c \<noteq> CHR ''%'' \<longrightarrow> p (CHR ''%'' # c # f) [] = None)"

text \<open>An instance, which shows that the documented behaviour is consistent.\<close>

fun c_printf :: "string \<Rightarrow> farg list \<Rightarrow> string option" where
  "c_printf [] args = Some []"
| "c_printf [c] args = (if c = CHR ''%'' then None else Some [c])"
| "c_printf (c # k # f) args =
     (if c \<noteq> CHR ''%'' then map_option (Cons c) (c_printf (k # f) args)
      else if k = CHR ''%'' then map_option (Cons c) (c_printf f args)
      else case args of
        [] \<Rightarrow> None
      | a # as \<Rightarrow>
          (case a of
             Str s \<Rightarrow> if k = CHR ''s'' then map_option (append s) (c_printf f as) else None
           | Dec i \<Rightarrow> if k = CHR ''d'' then map_option (append (dec_int i)) (c_printf f as) else None
           | Uns n \<Rightarrow> if k = CHR ''u'' then map_option (append (dec_nat n)) (c_printf f as) else None
           | Chr x \<Rightarrow> if k = CHR ''c'' then map_option (Cons x) (c_printf f as) else None))"

lemma c_printf_doc: "printf_doc c_printf"
proof -
  have "c_printf (c # f) args = map_option (Cons c) (c_printf f args)"
    if "c \<noteq> CHR ''%''" for c f args
    using that by (cases f) auto
  then show ?thesis by (simp add: printf_doc_def)
qed

lemma printf_docD:
  assumes "printf_doc p"
  shows "p [] args = Some []"
    and "c \<noteq> CHR ''%'' \<Longrightarrow> p (c # f) args = map_option (Cons c) (p f args)"
    and "p (CHR ''%'' # CHR ''s'' # f) (Str s # args) = map_option (append s) (p f args)"
    and "p (CHR ''%'' # CHR ''d'' # f) (Dec i # args) = map_option (append (dec_int i)) (p f args)"
    and "p (CHR ''%'' # CHR ''u'' # f) (Uns n # args) = map_option (append (dec_nat n)) (p f args)"
    and "c \<noteq> CHR ''%'' \<Longrightarrow> p (CHR ''%'' # c # f) [] = None"
    and "p (CHR ''%'' # CHR ''c'' # f) (Chr x # args) = map_option (Cons x) (p f args)"
  using assms by (auto simp only: printf_doc_def)

lemma printf_append_plain:
  assumes "printf_doc p" and "CHR ''%'' \<notin> set f"
  shows "p (f @ g) args = map_option (append f) (p g args)"
  using assms(2)
proof (induction f)
  case Nil
  show ?case by (cases "p g args") simp_all
next
  case (Cons c f)
  then have "p ((c # f) @ g) args = map_option (Cons c) (p (f @ g) args)"
    using printf_docD(2) [OF assms(1), of c "f @ g" args] by auto
  with Cons show ?case by (cases "p g args") simp_all
qed

lemma printf_plain:
  assumes "printf_doc p" and "CHR ''%'' \<notin> set f"
  shows "p f args = Some f"
  using printf_append_plain [OF assms, of "[]"] printf_docD(1) [OF assms(1)] by simp

lemma printf_missing_arg:
  assumes "printf_doc p" and "CHR ''%'' \<notin> set f" and "c \<noteq> CHR ''%''"
  shows "p (f @ CHR ''%'' # c # g) [] = None"
  by (simp add: printf_append_plain [OF assms(1,2)] printf_docD(6) [OF assms(1,3)])

text \<open>
  strtok: leading separators are skipped; the token is the longest run without a separator,
  and the rest is what follows the one separator after it. There is no token when only
  separators are left.
\<close>

definition strtok_doc :: "(string \<Rightarrow> string \<Rightarrow> (string \<times> string \<times> string) option) \<Rightarrow> bool" where
  "strtok_doc tok \<longleftrightarrow>
     (\<forall>seps s. set s \<subseteq> set seps \<longrightarrow> tok seps s = None)
   \<and> (\<forall>seps sk t. set sk \<subseteq> set seps \<and> t \<noteq> [] \<and> set t \<inter> set seps = {} \<longrightarrow>
        tok seps (sk @ t) = Some (sk, t, [])
      \<and> (\<forall>c rest. c \<in> set seps \<longrightarrow> tok seps (sk @ t @ c # rest) = Some (sk, t, rest)))"

definition c_strtok :: "string \<Rightarrow> string \<Rightarrow> (string \<times> string \<times> string) option" where
  "c_strtok seps s =
     (let sk = takeWhile (\<lambda>c. c \<in> set seps) s; s1 = dropWhile (\<lambda>c. c \<in> set seps) s;
          t = takeWhile (\<lambda>c. c \<notin> set seps) s1; s2 = dropWhile (\<lambda>c. c \<notin> set seps) s1
      in if s1 = [] then None else Some (sk, t, tl s2))"

lemma takeWhile_sep:
  assumes "set sk \<subseteq> set seps" and "t \<noteq> []" and "set t \<inter> set seps = {}"
  shows "takeWhile (\<lambda>c. c \<in> set seps) (sk @ t @ r) = sk"
    and "dropWhile (\<lambda>c. c \<in> set seps) (sk @ t @ r) = t @ r"
proof -
  obtain a t' where t: "t = a # t'" using assms(2) by (cases t) auto
  with assms(3) have "a \<notin> set seps" by auto
  moreover have "\<And>x. x \<in> set sk \<Longrightarrow> x \<in> set seps" using assms(1) by auto
  ultimately show "takeWhile (\<lambda>c. c \<in> set seps) (sk @ t @ r) = sk"
    and "dropWhile (\<lambda>c. c \<in> set seps) (sk @ t @ r) = t @ r"
    by (simp_all add: t takeWhile_append2 dropWhile_append2)
qed

lemma c_strtok_doc: "strtok_doc c_strtok"
  unfolding strtok_doc_def
proof (intro conjI allI impI)
  fix seps s :: string
  assume "set s \<subseteq> set seps"
  then show "c_strtok seps s = None" by (auto simp: c_strtok_def Let_def)
next
  fix seps sk t :: string
  assume a: "set sk \<subseteq> set seps \<and> t \<noteq> [] \<and> set t \<inter> set seps = {}"
  then have t: "\<And>x. x \<in> set t \<Longrightarrow> x \<notin> set seps" by auto
  have d: "dropWhile (\<lambda>c. c \<notin> set seps) t = []" "takeWhile (\<lambda>c. c \<notin> set seps) t = t"
    using t by (simp_all add: dropWhile_eq_Nil_conv takeWhile_eq_all_conv)
  show "c_strtok seps (sk @ t) = Some (sk, t, [])"
    using a takeWhile_sep [of sk seps t "[]"] by (simp add: c_strtok_def Let_def d)
  show "c_strtok seps (sk @ t @ c # rest) = Some (sk, t, rest)" if "c \<in> set seps" for c rest
    using a takeWhile_sep [of sk seps t "c # rest"] t that
    by (simp add: c_strtok_def Let_def takeWhile_append2 dropWhile_append2)
qed

lemma strtok_docD:
  assumes "strtok_doc tok" and "set sk \<subseteq> set seps" and "t \<noteq> []" and "set t \<inter> set seps = {}"
    and "c \<in> set seps"
  shows "tok seps (sk @ t @ c # rest) = Some (sk, t, rest)"
  using assms unfolding strtok_doc_def by blast

lemma strtok_docD_last:
  assumes "strtok_doc tok" and "set sk \<subseteq> set seps" and "t \<noteq> []" and "set t \<inter> set seps = {}"
  shows "tok seps (sk @ t) = Some (sk, t, [])"
  using assms unfolding strtok_doc_def by blast

lemma strtok_docD_none: "strtok_doc tok \<Longrightarrow> set s \<subseteq> set seps \<Longrightarrow> tok seps s = None"
  unfolding strtok_doc_def by blast

text \<open>Every string is one of the three cases, so the documented behaviour determines the call.\<close>

lemma strtok_doc_cases:
  assumes "strtok_doc tok"
  obtains "set s \<subseteq> set seps" "tok seps s = None"
  | sk t rest where "set sk \<subseteq> set seps" "t \<noteq> []" "set t \<inter> set seps = {}"
      "set t \<subseteq> set s" "set rest \<subseteq> set s" "tok seps s = Some (sk, t, rest)"
proof (cases "set s \<subseteq> set seps")
  case True
  show thesis by (rule that(1) [OF True strtok_docD_none [OF assms True]])
next
  case False
  let ?sk = "takeWhile (\<lambda>c. c \<in> set seps) s" and ?s1 = "dropWhile (\<lambda>c. c \<in> set seps) s"
  let ?t = "takeWhile (\<lambda>c. c \<notin> set seps) ?s1" and ?s2 = "dropWhile (\<lambda>c. c \<notin> set seps) ?s1"
  have s: "s = ?sk @ ?t @ ?s2" by simp
  have sk: "set ?sk \<subseteq> set seps" by (auto dest: set_takeWhileD)
  have "?s1 \<noteq> []" using False by auto
  then obtain a r where a: "?s1 = a # r" "a \<notin> set seps"
    by (metis (lifting) hd_dropWhile list.exhaust list.sel(1))
  then have t: "?t \<noteq> []" "set ?t \<inter> set seps = {}" by (auto dest: set_takeWhileD)
  have s2: "hd ?s2 \<in> set seps" if "?s2 \<noteq> []" using hd_dropWhile [OF that] by simp
  obtain sk t s2 where eq: "s = sk @ t @ s2" and k: "set sk \<subseteq> set seps" "t \<noteq> []"
      "set t \<inter> set seps = {}" and c: "s2 \<noteq> [] \<Longrightarrow> hd s2 \<in> set seps"
    using s sk t s2 by blast
  show thesis
  proof (cases s2)
    case Nil
    have "tok seps s = Some (sk, t, [])"
      using strtok_docD_last [OF assms k] unfolding eq Nil by simp
    then show thesis using that(2) [OF k, of "[]"] eq by auto
  next
    case (Cons x rest)
    have "tok seps s = Some (sk, t, rest)"
      using strtok_docD [OF assms k, of x rest] c unfolding eq Cons by simp
    then show thesis using that(2) [OF k, of rest] eq Cons by auto
  qed
qed

text \<open>strtoll: the decimal digits of a number are read back as the number.\<close>

definition strtoff_doc :: "(string \<Rightarrow> int \<times> int) \<Rightarrow> bool" where
  "strtoff_doc f \<longleftrightarrow> (\<forall>n < 2 ^ 63. f (dec_nat n) = (APR_SUCCESS, int n))"

definition c_strtoff :: "string \<Rightarrow> int \<times> int" where
  "c_strtoff s = (APR_SUCCESS, int (dec_value (takeWhile is_digit s)))"

lemma c_strtoff_doc: "strtoff_doc c_strtoff"
proof -
  have tw: "takeWhile is_digit (dec_nat n) = dec_nat n" for n
    by (auto simp: takeWhile_eq_all_conv dec_nat_digits)
  show ?thesis unfolding strtoff_doc_def c_strtoff_def tw dec_value_dec_nat by simp
qed

end
