(* ===== verification/FileStat.thy ===== *)
theory FileStat
  imports Ftp_Env "HOL-Library.Signed_Division"
begin

text \<open>
  filestat.c without the two operations on an open file, which theory FileOps holds: the
  translation of permission bits between APR and Linux, the file type, \<open>fill_out_finfo\<close>,
  \<open>lkl_stat\<close> and the operations that set permissions, attributes and times of a named file.
\<close>

section \<open>Permission bits\<close>

definition S_ISUID :: "32 word" where "S_ISUID = 0x800"
definition S_ISGID :: "32 word" where "S_ISGID = 0x400"
definition S_ISVTX :: "32 word" where "S_ISVTX = 0x200"
definition S_IRUSR :: "32 word" where "S_IRUSR = 0x100"
definition S_IWUSR :: "32 word" where "S_IWUSR = 0x80"
definition S_IXUSR :: "32 word" where "S_IXUSR = 0x40"
definition S_IRGRP :: "32 word" where "S_IRGRP = 0x20"
definition S_IWGRP :: "32 word" where "S_IWGRP = 0x10"
definition S_IXGRP :: "32 word" where "S_IXGRP = 0x8"
definition S_IROTH :: "32 word" where "S_IROTH = 0x4"
definition S_IWOTH :: "32 word" where "S_IWOTH = 0x2"
definition S_IXOTH :: "32 word" where "S_IXOTH = 0x1"

definition APR_USETID :: "32 word" where "APR_USETID = 0x8000"
definition APR_GSETID :: "32 word" where "APR_GSETID = 0x4000"
definition APR_WSTICKY :: "32 word" where "APR_WSTICKY = 0x2000"
definition APR_UREAD :: "32 word" where "APR_UREAD = 0x400"
definition APR_UWRITE :: "32 word" where "APR_UWRITE = 0x200"
definition APR_UEXECUTE :: "32 word" where "APR_UEXECUTE = 0x100"
definition APR_GREAD :: "32 word" where "APR_GREAD = 0x40"
definition APR_GWRITE :: "32 word" where "APR_GWRITE = 0x20"
definition APR_GEXECUTE :: "32 word" where "APR_GEXECUTE = 0x10"
definition APR_WREAD :: "32 word" where "APR_WREAD = 0x4"
definition APR_WWRITE :: "32 word" where "APR_WWRITE = 0x2"
definition APR_WEXECUTE :: "32 word" where "APR_WEXECUTE = 0x1"

lemmas mode_defs = S_ISUID_def S_ISGID_def S_ISVTX_def S_IRUSR_def S_IWUSR_def S_IXUSR_def
  S_IRGRP_def S_IWGRP_def S_IXGRP_def S_IROTH_def S_IWOTH_def S_IXOTH_def

lemmas perm_defs = APR_USETID_def APR_GSETID_def APR_WSTICKY_def APR_UREAD_def APR_UWRITE_def
  APR_UEXECUTE_def APR_GREAD_def APR_GWRITE_def APR_GEXECUTE_def APR_WREAD_def APR_WWRITE_def
  APR_WEXECUTE_def

text \<open>\<open>if (w & m) acc |= b;\<close>\<close>

definition or_if :: "32 word \<Rightarrow> 32 word \<Rightarrow> 32 word \<Rightarrow> 32 word \<Rightarrow> 32 word" where
  "or_if w m b acc = (if w AND m \<noteq> 0 then acc OR b else acc)"

definition lkl_unix_mode2perms :: "32 word \<Rightarrow> 32 word" where
  "lkl_unix_mode2perms mode =
     (let perms = 0;
          perms = or_if mode S_ISUID APR_USETID perms;
          perms = or_if mode S_IRUSR APR_UREAD perms;
          perms = or_if mode S_IWUSR APR_UWRITE perms;
          perms = or_if mode S_IXUSR APR_UEXECUTE perms;
          perms = or_if mode S_ISGID APR_GSETID perms;
          perms = or_if mode S_IRGRP APR_GREAD perms;
          perms = or_if mode S_IWGRP APR_GWRITE perms;
          perms = or_if mode S_IXGRP APR_GEXECUTE perms;
          perms = or_if mode S_ISVTX APR_WSTICKY perms;
          perms = or_if mode S_IROTH APR_WREAD perms;
          perms = or_if mode S_IWOTH APR_WWRITE perms;
          perms = or_if mode S_IXOTH APR_WEXECUTE perms
      in perms)"

definition lkl_unix_perms2mode :: "32 word \<Rightarrow> 32 word" where
  "lkl_unix_perms2mode perms =
     (let mode = 0;
          mode = or_if perms APR_USETID S_ISUID mode;
          mode = or_if perms APR_UREAD S_IRUSR mode;
          mode = or_if perms APR_UWRITE S_IWUSR mode;
          mode = or_if perms APR_UEXECUTE S_IXUSR mode;
          mode = or_if perms APR_GSETID S_ISGID mode;
          mode = or_if perms APR_GREAD S_IRGRP mode;
          mode = or_if perms APR_GWRITE S_IWGRP mode;
          mode = or_if perms APR_GEXECUTE S_IXGRP mode;
          mode = or_if perms APR_WSTICKY S_ISVTX mode;
          mode = or_if perms APR_WREAD S_IROTH mode;
          mode = or_if perms APR_WWRITE S_IWOTH mode;
          mode = or_if perms APR_WEXECUTE S_IXOTH mode
      in mode)"

text \<open>
  Both translations are a list of bit moves. \<open>move_bits\<close> reads bit \<open>i\<close> of the result off such a
  list, and the round trip is then a check of the twelve positions.
\<close>

lemma bit_or_if:
  fixes w :: "32 word"
  shows "bit (or_if w (2 ^ i) (2 ^ j) acc) n
      \<longleftrightarrow> bit acc n \<or> (i < 32 \<and> n = j \<and> j < 32 \<and> bit w i)"
  by (auto simp: or_if_def and_exp_eq_0_iff_not_bit bit_or_iff bit_exp_iff dest: bit_imp_le_length)

lemma masks_as_bits:
  "S_ISUID = 2 ^ 11" "S_ISGID = 2 ^ 10" "S_ISVTX = 2 ^ 9"
  "S_IRUSR = 2 ^ 8" "S_IWUSR = 2 ^ 7" "S_IXUSR = 2 ^ 6"
  "S_IRGRP = 2 ^ 5" "S_IWGRP = 2 ^ 4" "S_IXGRP = 2 ^ 3"
  "S_IROTH = 2 ^ 2" "S_IWOTH = 2 ^ 1" "S_IXOTH = 2 ^ 0"
  "APR_USETID = 2 ^ 15" "APR_GSETID = 2 ^ 14" "APR_WSTICKY = 2 ^ 13"
  "APR_UREAD = 2 ^ 10" "APR_UWRITE = 2 ^ 9" "APR_UEXECUTE = 2 ^ 8"
  "APR_GREAD = 2 ^ 6" "APR_GWRITE = 2 ^ 5" "APR_GEXECUTE = 2 ^ 4"
  "APR_WREAD = 2 ^ 2" "APR_WWRITE = 2 ^ 1" "APR_WEXECUTE = 2 ^ 0"
  by (simp_all add: mode_defs perm_defs)

lemma bit_mode2perms:
  "bit (lkl_unix_mode2perms m) n \<longleftrightarrow>
     (n, True) \<in> {(15, bit m 11), (14, bit m 10), (13, bit m 9), (10, bit m 8), (9, bit m 7),
       (8, bit m 6), (6, bit m 5), (5, bit m 4), (4, bit m 3), (2, bit m 2), (1, bit m 1),
       (0, bit m 0)}"
  unfolding lkl_unix_mode2perms_def Let_def masks_as_bits bit_or_if by auto

lemma bit_perms2mode:
  "bit (lkl_unix_perms2mode p) n \<longleftrightarrow>
     (n, True) \<in> {(11, bit p 15), (10, bit p 14), (9, bit p 13), (8, bit p 10), (7, bit p 9),
       (6, bit p 8), (5, bit p 6), (4, bit p 5), (3, bit p 4), (2, bit p 2), (1, bit p 1),
       (0, bit p 0)}"
  unfolding lkl_unix_perms2mode_def Let_def masks_as_bits bit_or_if by auto

lemma bit_mask_07777: "bit (0xFFF :: 32 word) n \<longleftrightarrow> n < 12"
proof -
  have "(0xFFF :: 32 word) = mask 12" by (simp add: mask_eq_exp_minus_1)
  then show ?thesis by (simp only: bit_mask_iff) auto
qed

lemma perms2mode_mode2perms: "lkl_unix_perms2mode (lkl_unix_mode2perms mode) = mode AND 0xFFF"
proof (rule bit_eqI)
  fix n :: nat
  have "n < 12 \<longleftrightarrow> n \<in> {0, 1, 2, 3, 4, 5, 6, 7, 8, 9, 10, 11}"
    by (auto simp: less_Suc_eq numeral_eq_Suc)
  then show "bit (lkl_unix_perms2mode (lkl_unix_mode2perms mode)) n \<longleftrightarrow> bit (mode AND 0xFFF) n"
    unfolding bit_perms2mode bit_mode2perms bit_and_iff bit_mask_07777 by auto
qed

interpretation perm_codec: codec lkl_unix_mode2perms lkl_unix_perms2mode "\<lambda>m. m AND 0xFFF = m"
  by unfold_locales (simp add: perms2mode_mode2perms)

text \<open>
  C29. Translating a Linux mode into APR permissions and back gives exactly the mode's permission
  bits (the low twelve), whatever the file-type bits are.
\<close>
theorem mode_perms_roundtrip: "lkl_unix_perms2mode (lkl_unix_mode2perms mode) = mode AND 0xFFF"
  by (rule perms2mode_mode2perms)

section \<open>File information\<close>

datatype apr_filetype_e =
  APR_NOFILE | APR_REG | APR_DIR | APR_CHR | APR_BLK | APR_PIPE | APR_LNK | APR_SOCK | APR_UNKFILE

definition S_IFMT :: "32 word" where "S_IFMT = 0xF000"
definition S_IFREG :: "32 word" where "S_IFREG = 0x8000"
definition S_IFDIR :: "32 word" where "S_IFDIR = 0x4000"
definition S_IFLNK :: "32 word" where "S_IFLNK = 0xA000"
definition S_IFCHR :: "32 word" where "S_IFCHR = 0x2000"
definition S_IFBLK :: "32 word" where "S_IFBLK = 0x6000"
definition S_IFSOCK :: "32 word" where "S_IFSOCK = 0xC000"
definition S_IFIFO :: "32 word" where "S_IFIFO = 0x1000"

lemmas ifmt_defs = S_IFMT_def S_IFREG_def S_IFDIR_def S_IFLNK_def S_IFCHR_def S_IFBLK_def
  S_IFSOCK_def S_IFIFO_def

definition filetype_from_mode :: "32 word \<Rightarrow> apr_filetype_e" where
  "filetype_from_mode mode =
     (let t = mode AND S_IFMT in
      if t = S_IFREG then APR_REG
      else if t = S_IFDIR then APR_DIR
      else if t = S_IFLNK then APR_LNK
      else if t = S_IFCHR then APR_CHR
      else if t = S_IFBLK then APR_BLK
      else if t = S_IFSOCK then APR_SOCK
      else if t = S_IFIFO then APR_PIPE
      else if t = S_IFSOCK then APR_SOCK
      else APR_UNKFILE)"

text \<open>\<open>apr_finfo_t\<close>, with the fields the program sets or reads.\<close>

text \<open>
  \<open>fi_set\<close> is no field of the program: it says whether \<open>fill_out_finfo\<close> has set the others, so that a reader of
  a variable that starts uninitialised can tell.
\<close>

record apr_finfo =
  fi_valid :: flags
  fi_protection :: "32 word"
  fi_filetype :: apr_filetype_e
  fi_size :: int
  fi_inode :: int
  fi_device :: int
  fi_nlink :: int
  fi_atime :: int
  fi_mtime :: int
  fi_ctime :: int
  fi_fname :: cstr
  fi_name :: cstr
  fi_set :: bool

definition APR_USEC_PER_SEC :: int where "APR_USEC_PER_SEC = 1000000"

definition fill_out_finfo :: "apr_finfo \<Rightarrow> kernel_stat \<Rightarrow> flags \<Rightarrow> apr_finfo" where
  "fill_out_finfo finfo info wanted = finfo\<lparr>
     fi_valid := APR_FINFO_MIN OR APR_FINFO_IDENT OR APR_FINFO_NLINK OR APR_FINFO_OWNER
       OR APR_FINFO_PROT,
     fi_protection := lkl_unix_mode2perms (st_mode info),
     fi_filetype := filetype_from_mode (st_mode info),
     fi_size := st_size info,
     fi_inode := st_ino info,
     fi_device := st_dev info,
     fi_nlink := st_nlink info,
     fi_atime := st_atime info * APR_USEC_PER_SEC,
     fi_mtime := st_mtime info * APR_USEC_PER_SEC,
     fi_ctime := st_ctime info * APR_USEC_PER_SEC,
     fi_set := True\<rparr>"

definition lkl_stat ::
    "('w, 'z) lkl_scheme \<Rightarrow> apr_finfo \<Rightarrow> cstr \<Rightarrow> flags \<Rightarrow> 'w \<Rightarrow> int \<times> apr_finfo \<times> 'w" where
  "lkl_stat os finfo fname wanted w =
     (case (if wanted AND APR_FINFO_LINK \<noteq> 0 then lkl_sys_newlstat os fname w
            else lkl_sys_newstat os fname w) of
        (srv, info, w) \<Rightarrow>
          if srv = 0 then
            let finfo = fill_out_finfo (finfo\<lparr>fi_fname := fname\<rparr>) info wanted;
                wanted = (if wanted AND APR_FINFO_LINK \<noteq> 0
                          then wanted AND NOT APR_FINFO_LINK else wanted)
            in (if wanted AND NOT (fi_valid finfo) \<noteq> 0 then APR_INCOMPLETE else APR_SUCCESS,
                finfo, w)
          else (- srv, finfo, w))"

section \<open>Permissions, attributes and times of a named file\<close>

definition lkl_file_perms_set ::
    "('w, 'z) lkl_scheme \<Rightarrow> cstr \<Rightarrow> 32 word \<Rightarrow> 'w \<Rightarrow> int \<times> 'w" where
  "lkl_file_perms_set os fname perms w =
     (let mode = lkl_unix_perms2mode perms in
      case lkl_sys_chmod os fname mode w of
        (rc, w) \<Rightarrow> if rc \<noteq> 0 then (- rc, w) else (APR_SUCCESS, w))"

definition APR_FILE_ATTR_READONLY :: flags where "APR_FILE_ATTR_READONLY = 1"
definition APR_FILE_ATTR_EXECUTABLE :: flags where "APR_FILE_ATTR_EXECUTABLE = 2"

definition lkl_file_attrs_set ::
    "('w, 'z) lkl_scheme \<Rightarrow> apr_finfo \<Rightarrow> cstr \<Rightarrow> flags \<Rightarrow> flags \<Rightarrow> 'w \<Rightarrow> int \<times> 'w" where
  "lkl_file_attrs_set os finfo fname attributes attr_mask w =
     (if attr_mask AND (APR_FILE_ATTR_READONLY OR APR_FILE_ATTR_EXECUTABLE) = 0
      then (APR_SUCCESS, w)
      else case lkl_stat os finfo fname APR_FINFO_PROT w of
        (status, finfo, w) \<Rightarrow>
          if status \<noteq> 0 then (status, w)
          else
            let p = fi_protection finfo;
                p = (if attr_mask AND APR_FILE_ATTR_READONLY \<noteq> 0 then
                       if attributes AND APR_FILE_ATTR_READONLY \<noteq> 0
                       then p AND NOT APR_UWRITE AND NOT APR_GWRITE AND NOT APR_WWRITE
                       else p OR APR_UWRITE OR APR_GWRITE OR APR_WWRITE
                     else p);
                p = (if attr_mask AND APR_FILE_ATTR_EXECUTABLE \<noteq> 0 then
                       if attributes AND APR_FILE_ATTR_EXECUTABLE \<noteq> 0
                       then p OR APR_UEXECUTE OR APR_GEXECUTE OR APR_WEXECUTE
                       else p AND NOT APR_UEXECUTE AND NOT APR_GEXECUTE AND NOT APR_WEXECUTE
                     else p)
            in lkl_file_perms_set os fname p w)"

text \<open>\<open>apr_time_sec\<close> and \<open>apr_time_usec\<close> are C's division and remainder, which truncate.\<close>

definition apr_time_sec :: "int \<Rightarrow> int" where "apr_time_sec t = t sdiv APR_USEC_PER_SEC"
definition apr_time_usec :: "int \<Rightarrow> int" where "apr_time_usec t = t smod APR_USEC_PER_SEC"

definition lkl_file_mtime_set ::
    "('w, 'z) lkl_scheme \<Rightarrow> apr_finfo \<Rightarrow> cstr \<Rightarrow> int \<Rightarrow> 'w \<Rightarrow> int \<times> 'w" where
  "lkl_file_mtime_set os finfo fname mtime w =
     (case lkl_stat os finfo fname APR_FINFO_ATIME w of
        (status, finfo, w) \<Rightarrow>
          if status \<noteq> 0 then (status, w)
          else
            case lkl_sys_utimes os fname
                (apr_time_sec (fi_atime finfo), apr_time_usec (fi_atime finfo))
                (apr_time_sec mtime, apr_time_usec mtime) w of
              (status, w) \<Rightarrow> if status \<noteq> 0 then (status, w) else (APR_SUCCESS, w))"

lemma lkl_stat_ok:
  assumes "wanted AND APR_FINFO_LINK = 0" and "lkl_sys_newstat os fname w = (0, info, w')"
    and "wanted AND NOT (APR_FINFO_MIN OR APR_FINFO_IDENT OR APR_FINFO_NLINK OR APR_FINFO_OWNER
       OR APR_FINFO_PROT) = 0"
  shows "lkl_stat os finfo fname wanted w
    = (0, fill_out_finfo (finfo\<lparr>fi_fname := fname\<rparr>) info wanted, w')"
  using assms by (simp add: lkl_stat_def fill_out_finfo_def Let_def)

lemma lkl_stat_err:
  assumes "wanted AND APR_FINFO_LINK = 0" and "lkl_sys_newstat os fname w = (srv, info, w')"
    and "srv \<noteq> 0"
  shows "lkl_stat os finfo fname wanted w = (- srv, finfo, w')"
  using assms by (simp add: lkl_stat_def)

text \<open>The two sets of information that the command handlers ask for.\<close>

lemma lkl_stat_type:
  assumes "lkl_sys_newstat os fname w = (rc, info, w')"
    and "wanted = APR_FINFO_TYPE \<or> wanted = APR_FINFO_TYPE OR APR_FINFO_SIZE"
  shows "lkl_stat os finfo fname wanted w
    = (if rc = 0 then (0, fill_out_finfo (finfo\<lparr>fi_fname := fname\<rparr>) info wanted, w')
       else (- rc, finfo, w'))"
proof -
  have flags: "wanted AND APR_FINFO_LINK = 0"
    "wanted AND NOT (APR_FINFO_MIN OR APR_FINFO_IDENT OR APR_FINFO_NLINK OR APR_FINFO_OWNER
       OR APR_FINFO_PROT) = 0"
    using assms(2) by (auto simp: finfo_defs)
  show ?thesis
    using lkl_stat_ok [OF flags(1) _ flags(2), where os = os] lkl_stat_err [OF flags(1) assms(1)] assms(1)
    by simp
qed

text \<open>
  \<open>lkl_file_attrs_set\<close> with the read-only attribute asks the kernel for the file's own
  permission bits without the three write bits, and reports the kernel's verdict as a positive
  status.
\<close>
theorem attrs_set_readonly:
  assumes "lkl_sys_newstat os fname w = (0, info, w1)"
    and "lkl_sys_chmod os fname (st_mode info AND 0xFFF AND NOT 0x92) w1 = (rc, w2)"
  shows "lkl_file_attrs_set os finfo fname APR_FILE_ATTR_READONLY APR_FILE_ATTR_READONLY w
    = (- rc, w2)"
proof -
  let ?p = "lkl_unix_mode2perms (st_mode info) AND NOT APR_UWRITE AND NOT APR_GWRITE
      AND NOT APR_WWRITE"
  have mode: "lkl_unix_perms2mode ?p = st_mode info AND 0xFFF AND NOT 0x92"
  proof (rule bit_eqI)
    fix n :: nat
    assume "possible_bit TYPE(32 word) n"
    then have n: "n < 32" by simp
    have "(0x92 :: 32 word) = 2 ^ 7 OR 2 ^ 4 OR 2 ^ 1" by simp
    then have w: "bit (0x92 :: 32 word) k \<longleftrightarrow> k = 7 \<or> k = 4 \<or> k = 1" for k
      by (simp only: bit_or_iff bit_exp_iff) auto
    have "n < 12 \<longleftrightarrow> n \<in> {0, 1, 2, 3, 4, 5, 6, 7, 8, 9, 10, 11}"
      by (auto simp: less_Suc_eq numeral_eq_Suc)
    with n show "bit (lkl_unix_perms2mode ?p) n
        \<longleftrightarrow> bit (st_mode info AND 0xFFF AND NOT 0x92) n"
      unfolding bit_perms2mode bit_mode2perms bit_and_iff bit_not_iff bit_mask_07777 w
        masks_as_bits bit_exp_iff by auto
  qed
  have "lkl_stat os finfo fname APR_FINFO_PROT w
      = (0, fill_out_finfo (finfo\<lparr>fi_fname := fname\<rparr>) info APR_FINFO_PROT, w1)"
    using assms(1) by (intro lkl_stat_ok) (simp_all add: finfo_defs)
  with assms(2) mode show ?thesis
    by (simp add: lkl_file_attrs_set_def lkl_file_perms_set_def fill_out_finfo_def Let_def
        APR_FILE_ATTR_READONLY_def APR_FILE_ATTR_EXECUTABLE_def)
qed

text \<open>
  \<open>lkl_file_mtime_set\<close> keeps the access time the file has and sets the modification time to
  the seconds and microseconds of \<open>mtime\<close>, which add up to it again.
\<close>
theorem mtime_set_keeps_atime:
  assumes "lkl_sys_newstat os fname w = (0, info, w1)"
    and "lkl_sys_utimes os fname (st_atime info, 0) (apr_time_sec mtime, apr_time_usec mtime) w1
      = (rc, w2)"
  shows "lkl_file_mtime_set os finfo fname mtime w = (rc, w2)
    \<and> apr_time_sec mtime * APR_USEC_PER_SEC + apr_time_usec mtime = mtime"
proof -
  have "lkl_stat os finfo fname APR_FINFO_ATIME w
      = (0, fill_out_finfo (finfo\<lparr>fi_fname := fname\<rparr>) info APR_FINFO_ATIME, w1)"
    using assms(1) by (intro lkl_stat_ok) (simp_all add: finfo_defs)
  moreover have "apr_time_sec (st_atime info * APR_USEC_PER_SEC) = st_atime info"
    "apr_time_usec (st_atime info * APR_USEC_PER_SEC) = 0"
    by (simp_all add: apr_time_sec_def apr_time_usec_def APR_USEC_PER_SEC_def
        signed_divide_int_def signed_modulo_int_def sgn_mult abs_mult sgn_mult_abs)
  moreover have "apr_time_sec mtime * APR_USEC_PER_SEC + apr_time_usec mtime = mtime"
    by (simp add: apr_time_sec_def apr_time_usec_def sdiv_mult_smod_eq)
  ultimately show ?thesis
    using assms(2) by (simp add: lkl_file_mtime_set_def fill_out_finfo_def)
qed

end
