(* ===== verification/DirOps.thy ===== *)
theory DirOps
  imports FileStat
begin

text \<open>
  dirops.c: directory handles over \<open>lkl_sys_getdents\<close>. The buffer that getdents fills is the list of
  its records, which the code walks by byte offset, each record \<open>d_reclen\<close> bytes long.
\<close>

section \<open>The handle\<close>

definition BUF_SIZE :: nat where "BUF_SIZE = 4096"
definition APR_PATH_MAX :: nat where "APR_PATH_MAX = 4096"

record lkl_dir =
  dirname :: cstr
  dir_fd :: int
  dir_data :: "kernel_dirent list"
  dir_offset :: nat
  dir_size :: nat
  dir_entry :: "kernel_dirent option"

definition dir_cleanup :: "('w, 'z) lkl_scheme \<Rightarrow> lkl_dir \<Rightarrow> 'w \<Rightarrow> (int \<times> 'w) res" where
  "dir_cleanup os dir w = Inr (lkl_sys_close os (dir_fd dir) w)"

definition lkl_dir_open ::
    "('w, 'z) lkl_scheme \<Rightarrow> cstr \<Rightarrow> 'w \<Rightarrow> int \<times> lkl_dir option \<times> 'w" where
  "lkl_dir_open os name w =
     (case lkl_sys_open os name (O_RDONLY OR O_DIRECTORY OR O_LARGEFILE) 0 w of
        (dir, w) \<Rightarrow>
          if dir < 0 then (APR_EINVAL, None, w)
          else (APR_SUCCESS,
            Some \<lparr>dirname = name, dir_fd = dir, dir_data = [], dir_offset = 0, dir_size = 0,
              dir_entry = None\<rparr>,
            apr_pool_cleanup_register os dir w))"

definition lkl_dir_close :: "('w, 'z) lkl_scheme \<Rightarrow> lkl_dir \<Rightarrow> 'w \<Rightarrow> (int \<times> 'w) res" where
  "lkl_dir_close os thedir w = apr_pool_cleanup_run os (dir_cleanup os thedir) w"

definition lkl_dir_make :: "('w, 'z) lkl_scheme \<Rightarrow> cstr \<Rightarrow> 32 word \<Rightarrow> 'w \<Rightarrow> int \<times> 'w" where
  "lkl_dir_make os path perm w =
     (case lkl_sys_mkdir os path (lkl_unix_perms2mode perm) w of (rc, w) \<Rightarrow> (- rc, w))"

definition lkl_dir_remove :: "('w, 'z) lkl_scheme \<Rightarrow> cstr \<Rightarrow> 'w \<Rightarrow> int \<times> 'w" where
  "lkl_dir_remove os path w = (case lkl_sys_rmdir os path w of (rc, w) \<Rightarrow> (- rc, w))"

section \<open>Reading entries\<close>

text \<open>The record at a byte offset; an offset inside a record or past the last is not one.\<close>

fun dirent_at :: "kernel_dirent list \<Rightarrow> nat \<Rightarrow> kernel_dirent res" where
  "dirent_at [] off = Inl Out_Of_Bounds"
| "dirent_at (d # ds) off =
     (if off = 0 then Inr d
      else if d_reclen d \<le> off then dirent_at ds (off - d_reclen d)
      else Inl Out_Of_Bounds)"

definition lkl_readdir ::
    "('w, 'z) lkl_scheme \<Rightarrow> lkl_dir \<Rightarrow> 'w \<Rightarrow> (kernel_dirent option \<times> lkl_dir \<times> 'w) res" where
  "lkl_readdir os thedir w =
     (let next_record = (\<lambda>thedir w.
            bnd (dirent_at (dir_data thedir) (dir_offset thedir)) (\<lambda>de.
              Inr (Some de, thedir\<lparr>dir_offset := dir_offset thedir + d_reclen de\<rparr>, w)))
      in if dir_offset thedir \<ge> dir_size thedir then
           case lkl_sys_getdents os (dir_fd thedir) BUF_SIZE w of
             (bytes, records, w) \<Rightarrow>
               if bytes \<le> 0 then Inr (None, thedir, w)
               else next_record
                 (thedir\<lparr>dir_data := records, dir_size := nat bytes, dir_offset := 0\<rparr>) w
         else next_record thedir w)"

text \<open>
  The path that \<open>lkl_dir_read\<close> stats: the directory, a slash unless it ends in one, and the
  entry's name, cut to the buffer of \<open>APR_PATH_MAX\<close> bytes. The code looks at the last character
  of the directory's name without asking whether there is one.
\<close>

definition entry_fspec :: "cstr \<Rightarrow> string \<Rightarrow> string res" where
  "entry_fspec dname name =
     (let fspec = take (APR_PATH_MAX - 1) (case dname of None \<Rightarrow> [] | Some s \<Rightarrow> s)
      in if fspec = [] then Inl Out_Of_Bounds
         else
           let fspec = (if last fspec \<noteq> CHR ''/'' \<and> length fspec + 1 < APR_PATH_MAX
                        then fspec @ ''/'' else fspec)
           in Inr (fspec @ take (APR_PATH_MAX - length fspec - 1) name))"

definition has_ino :: "kernel_dirent \<Rightarrow> bool" where
  "has_ino e \<longleftrightarrow> d_ino e \<noteq> 0 \<and> d_ino e \<noteq> 2 ^ 64 - 1"

definition lkl_dir_read ::
    "('w, 'z) lkl_scheme \<Rightarrow> apr_finfo \<Rightarrow> flags \<Rightarrow> lkl_dir \<Rightarrow> 'w
      \<Rightarrow> (int \<times> apr_finfo \<times> lkl_dir \<times> 'w) res" where
  "lkl_dir_read os finfo wanted thedir w =
     bnd (lkl_readdir os thedir w) (\<lambda>(entry, thedir, w).
       let thedir = thedir\<lparr>dir_entry := entry\<rparr>; finfo = finfo\<lparr>fi_fname := None\<rparr>
       in case entry of
            None \<Rightarrow> Inr (APR_ENOENT, finfo\<lparr>fi_valid := 0\<rparr>, thedir, w)
          | Some e \<Rightarrow>
              let wanted = (if has_ino e then wanted AND NOT APR_FINFO_INODE else wanted);
                  wanted = wanted AND NOT APR_FINFO_NAME
              in bnd (if wanted \<noteq> 0 then
                        bnd (entry_fspec (dirname thedir) (d_name e)) (\<lambda>fspec.
                          case lkl_stat os finfo (Some fspec) (APR_FINFO_LINK OR wanted) w of
                            (rc, finfo, w) \<Rightarrow> Inr (rc, finfo\<lparr>fi_fname := None\<rparr>, w))
                      else Inr (APR_SUCCESS, finfo, w)) (\<lambda>(rc, finfo, w).
                   let (wanted, finfo) =
                         (if wanted \<noteq> 0 \<and> (rc = APR_SUCCESS \<or> rc = APR_INCOMPLETE)
                          then (wanted AND NOT (fi_valid finfo), finfo)
                          else (wanted,
                            if has_ino e
                            then finfo\<lparr>fi_valid := APR_FINFO_INODE, fi_inode := d_ino e\<rparr>
                            else finfo\<lparr>fi_valid := 0\<rparr>));
                       finfo = finfo\<lparr>fi_name := Some (d_name e),
                                    fi_valid := fi_valid finfo OR APR_FINFO_NAME\<rparr>
                   in Inr (if wanted \<noteq> 0 then APR_INCOMPLETE else APR_SUCCESS, finfo, thedir, w)))"

section \<open>The enumeration contract\<close>

text \<open>
  What a directory scan needs of the operation that yields the next entry: \<open>left\<close> is the sequence
  of entries still to come, and each call takes the first of them or says that there is none.
\<close>

locale entry_source =
  fixes nxt :: "'s \<Rightarrow> ('e option \<times> 's) res" and left :: "'s \<Rightarrow> 'e list" and inv :: "'s \<Rightarrow> bool"
  assumes nxt_spec: "inv s \<Longrightarrow> wp (\<lambda>_. False) (\<lambda>(e, s'). inv s' \<and>
      (case e of None \<Rightarrow> left s = [] \<and> left s' = [] | Some d \<Rightarrow> left s = d # left s')) (nxt s)"
begin

text \<open>A scan that feeds every entry to \<open>f\<close>, as a loop over the operation.\<close>

definition scan_step :: "('e \<Rightarrow> 'b \<Rightarrow> 'b) \<Rightarrow> 'b \<times> 's \<Rightarrow> ('b \<times> 's, 'b \<times> 's) ctl res" where
  "scan_step f = (\<lambda>(b, s). bnd (nxt s) (\<lambda>(e, s). Inr (case e of
     None \<Rightarrow> Done (b, s) | Some d \<Rightarrow> Again (f d b, s))))"

lemma scan_all:
  assumes "inv s"
  shows "\<exists>s'. run_loop (scan_step f) (b, s) = Inr (fold f (left s) b, s') \<and> inv s' \<and> left s' = []"
proof -
  have "wp (\<lambda>_. False) (\<lambda>(c, s'). c = fold f (left s) b \<and> inv s' \<and> left s' = [])
    (run_loop (scan_step f) (b, s))"
  proof (rule wp_run_loop_total [where \<mu> = "\<lambda>(c, t). length (left t)" and
      I = "\<lambda>(c, t). inv t \<and> fold f (left t) c = fold f (left s) b"], goal_cases)
    case (2 x)
    obtain c t where x: "x = (c, t)" by (cases x)
    with 2 have t: "inv t" "fold f (left t) c = fold f (left s) b" by auto
    show ?case
      unfolding x scan_step_def prod.case wp_bnd
      by (rule wp_mono [OF nxt_spec [OF t(1)]]) (use t(2) in \<open>auto split: option.splits\<close>)
  qed (use assms in auto)
  from wp_returns [OF this] show ?thesis by auto
qed

end

text \<open>
  The kernel's side: a call returns whole records from the front of what is left in the
  directory, their total length as its result, and zero only at the end.
\<close>

definition kernel_lists ::
    "('w, 'z) lkl_scheme \<Rightarrow> int \<Rightarrow> ('w \<Rightarrow> kernel_dirent list) \<Rightarrow> bool" where
  "kernel_lists os fd todo \<longleftrightarrow>
     (\<forall>n w r ds w'. lkl_sys_getdents os fd n w = (r, ds, w') \<longrightarrow>
        r = int (sum_list (map d_reclen ds)) \<and> todo w = ds @ todo w'
        \<and> (\<forall>d\<in>set ds. 0 < d_reclen d) \<and> (ds = [] \<longrightarrow> todo w = []))"

text \<open>The records of a buffer from a byte offset on, and the offsets at which a record begins.\<close>

fun entries_from :: "kernel_dirent list \<Rightarrow> nat \<Rightarrow> kernel_dirent list" where
  "entries_from [] off = []"
| "entries_from (d # ds) off =
     (if off = 0 then d # ds
      else if d_reclen d \<le> off then entries_from ds (off - d_reclen d) else [])"

definition dir_ok :: "lkl_dir \<Rightarrow> bool" where
  "dir_ok d \<longleftrightarrow> dir_size d = sum_list (map d_reclen (dir_data d))
     \<and> (\<forall>e\<in>set (dir_data d). 0 < d_reclen e)
     \<and> (\<exists>pre suf. dir_data d = pre @ suf \<and> dir_offset d = sum_list (map d_reclen pre))"

definition dir_left :: "('w \<Rightarrow> kernel_dirent list) \<Rightarrow> lkl_dir \<Rightarrow> 'w \<Rightarrow> kernel_dirent list" where
  "dir_left todo d w = entries_from (dir_data d) (dir_offset d) @ todo w"

lemma entries_from_append:
  "\<forall>e\<in>set (pre @ suf). 0 < d_reclen e \<Longrightarrow>
     entries_from (pre @ suf) (sum_list (map d_reclen pre)) = suf"
proof (induction pre)
  case Nil
  then show ?case by (cases suf) auto
qed auto

lemma dirent_at_append:
  "\<forall>e\<in>set (pre @ e # ds). 0 < d_reclen e \<Longrightarrow>
     dirent_at (pre @ e # ds) (sum_list (map d_reclen pre)) = Inr e"
  by (induction pre) auto

lemma advance_ok:
  assumes "dir_data d = pre @ e # ds" and "dir_offset d = sum_list (map d_reclen pre)"
    and "dir_size d = sum_list (map d_reclen (dir_data d))" and "\<forall>e\<in>set (dir_data d). 0 < d_reclen e"
  shows "dirent_at (dir_data d) (dir_offset d) = Inr e"
    and "dir_ok (d\<lparr>dir_offset := dir_offset d + d_reclen e\<rparr>)"
    and "dir_left todo d w = e # dir_left todo (d\<lparr>dir_offset := dir_offset d + d_reclen e\<rparr>) w"
proof -
  have split: "dir_data d = (pre @ [e]) @ ds"
    "dir_offset d + d_reclen e = sum_list (map d_reclen (pre @ [e]))" using assms by simp_all
  have pos: "\<forall>x\<in>set ((pre @ [e]) @ ds). 0 < d_reclen x" using assms by simp
  show "dirent_at (dir_data d) (dir_offset d) = Inr e"
    using dirent_at_append [of pre e ds] assms by simp
  show "dir_ok (d\<lparr>dir_offset := dir_offset d + d_reclen e\<rparr>)"
    unfolding dir_ok_def using assms(3,4) split
    by (intro conjI exI [where x = "pre @ [e]"] exI [where x = ds]) auto
  have "entries_from (dir_data d) (dir_offset d + d_reclen e) = ds"
    unfolding split by (rule entries_from_append [OF pos])
  moreover have "entries_from (dir_data d) (dir_offset d) = e # ds"
    unfolding assms(2) using entries_from_append [of pre "e # ds"] assms by simp
  ultimately show "dir_left todo d w
      = e # dir_left todo (d\<lparr>dir_offset := dir_offset d + d_reclen e\<rparr>) w"
    by (simp add: dir_left_def)
qed

lemma readdir_spec:
  assumes "dir_ok d" and "kernel_lists os (dir_fd d) todo"
  shows "wp (\<lambda>_. False) (\<lambda>(e, d', w'). dir_ok d' \<and> dir_fd d' = dir_fd d \<and> dirname d' = dirname d
      \<and> (case e of None \<Rightarrow> dir_left todo d w = [] \<and> dir_left todo d' w' = []
         | Some x \<Rightarrow> dir_left todo d w = x # dir_left todo d' w')) (lkl_readdir os d w)"
proof -
  obtain pre suf where d: "dir_data d = pre @ suf" "dir_offset d = sum_list (map d_reclen pre)"
    "dir_size d = sum_list (map d_reclen (dir_data d))" "\<forall>e\<in>set (dir_data d). 0 < d_reclen e"
    using assms(1) by (auto simp: dir_ok_def)
  show ?thesis
  proof (cases suf)
    case (Cons e ds)
    then have "dir_offset d < dir_size d" using d by simp
    moreover note adv = advance_ok(1,2) [of d pre e ds] advance_ok(3) [of d pre e ds, where w = w and todo = todo]
    ultimately show ?thesis using d Cons by (simp add: lkl_readdir_def)
  next
    case Nil
    then have buf: "entries_from (dir_data d) (dir_offset d) = []" "dir_offset d \<ge> dir_size d"
      using entries_from_append [of pre "[]"] d by simp_all
    obtain r ds w' where get: "lkl_sys_getdents os (dir_fd d) BUF_SIZE w = (r, ds, w')"
      by (cases "lkl_sys_getdents os (dir_fd d) BUF_SIZE w") auto
    with assms(2) have k: "r = int (sum_list (map d_reclen ds))" "todo w = ds @ todo w'"
      "\<forall>e\<in>set ds. 0 < d_reclen e" "ds = [] \<longrightarrow> todo w = []"
      unfolding kernel_lists_def by blast+
    show ?thesis
    proof (cases ds)
      case Nil
      with get k buf assms(1) show ?thesis
        by (simp add: lkl_readdir_def dir_left_def)
    next
      case (Cons e es)
      let ?d = "d\<lparr>dir_data := ds, dir_size := nat r, dir_offset := 0\<rparr>"
      have "\<not> r \<le> 0" using k(1,3) Cons by simp
      moreover have adv: "dir_data ?d = [] @ e # es" "dir_offset ?d = sum_list (map d_reclen [])"
        "dir_size ?d = sum_list (map d_reclen (dir_data ?d))"
        "\<forall>e\<in>set (dir_data ?d). 0 < d_reclen e" using Cons k(1,3) by simp_all
      note a = advance_ok(1,2) [OF adv] advance_ok(3) [OF adv, where w = w' and todo = todo]
      have "dir_left todo d w = dir_left todo ?d w'"
        using buf(1) k(2) Cons by (simp add: dir_left_def)
      ultimately show ?thesis
        using get buf(2) a by (simp add: lkl_readdir_def)
    qed
  qed
qed

interpretation readdir: entry_source "\<lambda>(d, w). lkl_readdir os d w"
  "\<lambda>(d, w). dir_left todo d w" "\<lambda>(d, w). dir_ok d \<and> kernel_lists os (dir_fd d) todo" for os todo
proof (unfold_locales, goal_cases)
  case (1 s)
  then show ?case
    by (cases s, hypsubst, unfold prod.case,
        intro wp_mono [OF readdir_spec [where todo = todo]]) (auto split: option.splits)
qed

section \<open>Reading entries with their information\<close>

lemma dir_entry_update [simp]:
  "dir_ok (d\<lparr>dir_entry := e\<rparr>) = dir_ok d"
  "dir_left todo (d\<lparr>dir_entry := e\<rparr>) w = dir_left todo d w"
  by (simp_all add: dir_ok_def dir_left_def)

text \<open>The set of information that \<open>list_dir\<close>, the only caller, asks for.\<close>

definition LIST_WANTED :: flags where
  "LIST_WANTED = APR_FINFO_TYPE OR APR_FINFO_NAME OR APR_FINFO_SIZE"

text \<open>What \<open>lkl_dir_read\<close> makes of an entry, apart from the scan.\<close>

definition entry_info ::
    "('w, 'z) lkl_scheme \<Rightarrow> string \<Rightarrow> kernel_dirent \<Rightarrow> apr_finfo \<Rightarrow> 'w \<Rightarrow> int \<times> apr_finfo \<times> 'w" where
  "entry_info os fspec e fi w =
     (let (srv, info, w) = lkl_sys_newlstat os (Some fspec) w; fi = fi\<lparr>fi_fname := None\<rparr>
      in if srv = 0 then
           let fi = fill_out_finfo fi info 0
           in (APR_SUCCESS,
               fi\<lparr>fi_name := Some (d_name e), fi_valid := fi_valid fi OR APR_FINFO_NAME\<rparr>, w)
         else (APR_INCOMPLETE,
               (if has_ino e then fi\<lparr>fi_inode := d_ino e\<rparr> else fi)\<lparr>fi_name := Some (d_name e),
                 fi_valid := (if has_ino e then APR_FINFO_INODE OR APR_FINFO_NAME
                              else APR_FINFO_NAME)\<rparr>, w))"

lemma dir_read_eq:
  assumes "lkl_readdir os d w = Inr (Some e, d', w1)"
    and "entry_fspec (dirname d') (d_name e) = Inr fspec"
    and "\<And>info w2. lkl_sys_newlstat os (Some fspec) w1 \<noteq> (- APR_INCOMPLETE, info, w2)"
  shows "lkl_dir_read os fi LIST_WANTED d w =
    (case entry_info os fspec e fi w1 of
       (rc, fi, w2) \<Rightarrow> Inr (rc, fi, d'\<lparr>dir_entry := Some e\<rparr>, w2))"
proof -
  obtain srv info w2 where st: "lkl_sys_newlstat os (Some fspec) w1 = (srv, info, w2)"
    by (cases "lkl_sys_newlstat os (Some fspec) w1") auto
  define wt where "wt = (if has_ino e then LIST_WANTED AND NOT APR_FINFO_INODE else LIST_WANTED)
    AND NOT APR_FINFO_NAME"
  have wt: "wt = APR_FINFO_TYPE OR APR_FINFO_SIZE"
    by (simp add: wt_def LIST_WANTED_def finfo_defs)
  have f: "wt \<noteq> 0" "(APR_FINFO_LINK OR wt) AND APR_FINFO_LINK \<noteq> 0"
      "(APR_FINFO_LINK OR wt) AND NOT APR_FINFO_LINK = wt"
      "wt AND NOT (APR_FINFO_MIN OR APR_FINFO_IDENT OR APR_FINFO_NLINK OR APR_FINFO_OWNER
         OR APR_FINFO_PROT) = 0"
    unfolding wt by (simp_all add: finfo_defs)
  have "srv \<noteq> - APR_INCOMPLETE" using assms(3) st by auto
  then show ?thesis
    using f st assms(1,2) wt_def
    by (simp add: lkl_dir_read_def entry_info_def lkl_stat_def fill_out_finfo_def Let_def)
qed

end
