(* ===== verification/FileOps.thy ===== *)
theory FileOps
  imports FileStat
begin

text \<open>
  fileops.c and fileops.h, with the two operations of filestat.c on an open file: the file handle
  \<open>lkl_file_t\<close> over the LKL system calls, with and without its 4096-byte buffer. Every operation
  takes the handle and the world and returns both. Of the mutex of a handle the model keeps whether
  there is one; taking it and giving it back are calls that act on the world.
\<close>

section \<open>The handle\<close>

definition APR_FILE_BUFSIZE :: nat where "APR_FILE_BUFSIZE = 4096"

datatype blocking_mode = BLK_UNKNOWN | BLK_OFF | BLK_ON

record lkl_file =
  filedes :: int
  fname :: cstr
  fflags :: flags
  eof_hit :: int
  is_pipe :: int
  timeout :: int
  buffered :: bool
  blocking :: blocking_mode
  ungetchar :: int
  fbuffer :: string
  bufpos :: int
  dataRead :: int
  direction :: int
  filePtr :: int
  thlock :: bool

section \<open>The mutex of a handle\<close>

definition file_lock :: "('w, 'z) lkl_scheme \<Rightarrow> lkl_file \<Rightarrow> 'w \<Rightarrow> 'w" where
  "file_lock os f w = (if thlock f then snd (apr_thread_mutex_lock os w) else w)"

definition file_unlock :: "('w, 'z) lkl_scheme \<Rightarrow> lkl_file \<Rightarrow> 'w \<Rightarrow> 'w" where
  "file_unlock os f w = (if thlock f then snd (apr_thread_mutex_unlock os w) else w)"

section \<open>Flushing, closing, opening\<close>

definition lkl_file_flush_locked ::
    "('w, 'z) lkl_scheme \<Rightarrow> lkl_file \<Rightarrow> 'w \<Rightarrow> (int \<times> lkl_file \<times> 'w) res" where
  "lkl_file_flush_locked os thefile w =
     (if direction thefile = 1 \<and> bufpos thefile \<noteq> 0 then
        bnd (slice (fbuffer thefile) 0 (nat (bufpos thefile))) (\<lambda>bytes.
        bnd (eintr_loop (lkl_sys_write os (filedes thefile) bytes) id w) (\<lambda>(written, w).
          if written < 0 then Inr (APR_EINVAL, thefile, w)
          else Inr (APR_SUCCESS,
            thefile\<lparr>filePtr := filePtr thefile + written, bufpos := 0\<rparr>, w)))
      else Inr (APR_SUCCESS, thefile, w))"

definition lkl_file_flush ::
    "('w, 'z) lkl_scheme \<Rightarrow> lkl_file \<Rightarrow> 'w \<Rightarrow> (int \<times> lkl_file \<times> 'w) res" where
  "lkl_file_flush os thefile w =
     (if buffered thefile then
        bnd (lkl_file_flush_locked os thefile (file_lock os thefile w)) (\<lambda>(rv, thefile, w).
          Inr (rv, thefile, file_unlock os thefile w))
      else Inr (APR_SUCCESS, thefile, w))"

definition file_cleanup ::
    "('w, 'z) lkl_scheme \<Rightarrow> lkl_file \<Rightarrow> 'w \<Rightarrow> int \<times> lkl_file \<times> 'w" where
  "file_cleanup os file w =
     (case lkl_sys_close os (filedes file) w of
        (rc, w) \<Rightarrow>
          if rc = 0 then
            let file = file\<lparr>filedes := - 1\<rparr>;
                w = (if fflags file AND APR_DELONCLOSE \<noteq> 0
                     then snd (lkl_sys_unlink os (fname file) w) else w)
            in if thlock file then
                 case apr_thread_mutex_destroy os w of (rv, w) \<Rightarrow> (rv, file, w)
               else (APR_SUCCESS, file, w)
          else (- rc, file, w))"

definition lkl_unix_file_cleanup ::
    "('w, 'z) lkl_scheme \<Rightarrow> lkl_file \<Rightarrow> 'w \<Rightarrow> (int \<times> lkl_file \<times> 'w) res" where
  "lkl_unix_file_cleanup os file w =
     bnd (if buffered file then lkl_file_flush os file w else Inr (APR_SUCCESS, file, w))
       (\<lambda>(flush_rv, file, w).
         case file_cleanup os file w of
           (rv, file, w) \<Rightarrow> Inr (if rv \<noteq> APR_SUCCESS then rv else flush_rv, file, w))"

definition lkl_unix_child_file_cleanup ::
    "('w, 'z) lkl_scheme \<Rightarrow> lkl_file \<Rightarrow> 'w \<Rightarrow> int \<times> lkl_file \<times> 'w" where
  "lkl_unix_child_file_cleanup os thefile w = file_cleanup os thefile w"

text \<open>The handle is dead after \<open>lkl_file_close\<close>: only the status and the world are left.\<close>

definition lkl_file_close :: "('w, 'z) lkl_scheme \<Rightarrow> lkl_file \<Rightarrow> 'w \<Rightarrow> (int \<times> 'w) res" where
  "lkl_file_close os file w =
     apr_pool_cleanup_run os
       (\<lambda>w. bnd (lkl_unix_file_cleanup os file w) (\<lambda>(rv, file, w). Inr (rv, w))) w"

text \<open>
  The translation of the open flags: \<open>None\<close> is the early return of \<open>APR_EACCES\<close>. The program is
  built with \<open>_LARGEFILE64_SOURCE\<close>, as APR's own compiler flags for Linux have it, and Linux has
  no \<open>O_BINARY\<close>.
\<close>

definition open_oflags :: "flags \<Rightarrow> flags option" where
  "open_oflags flag =
     (let oflags =
        (if flag AND APR_READ \<noteq> 0 \<and> flag AND APR_WRITE \<noteq> 0 then Some O_RDWR
         else if flag AND APR_READ \<noteq> 0 then Some O_RDONLY
         else if flag AND APR_WRITE \<noteq> 0 then Some O_WRONLY
         else None)
      in case oflags of
        None \<Rightarrow> None
      | Some oflags \<Rightarrow>
          let oflags = (if flag AND APR_CREATE \<noteq> 0 then
                          let oflags = oflags OR O_CREAT
                          in if flag AND APR_EXCL \<noteq> 0 then oflags OR O_EXCL else oflags
                        else oflags)
          in if flag AND APR_EXCL \<noteq> 0 \<and> flag AND APR_CREATE = 0 then None
             else
               let oflags = (if flag AND APR_APPEND \<noteq> 0 then oflags OR O_APPEND else oflags);
                   oflags = (if flag AND APR_TRUNCATE \<noteq> 0 then oflags OR O_TRUNC else oflags)
               in Some (oflags OR O_LARGEFILE))"

definition lkl_file_open ::
    "('w, 'z) lkl_scheme \<Rightarrow> cstr \<Rightarrow> flags \<Rightarrow> 32 word \<Rightarrow> 'w \<Rightarrow> int \<times> lkl_file option \<times> 'w" where
  "lkl_file_open os path flag perm w =
     (case open_oflags flag of
        None \<Rightarrow> (APR_EACCES, None, w)
      | Some oflags \<Rightarrow>
          (case (if flag AND APR_BUFFERED \<noteq> 0 \<and> flag AND APR_XTHREAD \<noteq> 0
                 then apr_thread_mutex_create os w else (APR_SUCCESS, w)) of
             (rv, w) \<Rightarrow>
               if rv \<noteq> APR_SUCCESS then (rv, None, w)
               else
                 case (if perm = APR_OS_DEFAULT then lkl_sys_open os path oflags 0x1B6 w
                       else lkl_sys_open os path oflags (lkl_unix_perms2mode perm) w) of
                   (fd, w) \<Rightarrow>
                     if fd < 0 then (APR_EINVAL, None, w)
                     else
                       let bf = (flag AND APR_BUFFERED \<noteq> 0);
                           new = \<lparr>filedes = fd, fname = path, fflags = flag, eof_hit = 0,
                             is_pipe = 0, timeout = - 1, buffered = bf, blocking = BLK_ON,
                             ungetchar = - 1,
                             fbuffer = (if bf then replicate APR_FILE_BUFSIZE NUL else []),
                             bufpos = 0, dataRead = 0, direction = 0, filePtr = 0,
                             thlock = (bf \<and> flag AND APR_XTHREAD \<noteq> 0)\<rparr>;
                           w = (if flag AND APR_FILE_NOCLEANUP = 0
                                then apr_pool_cleanup_register os fd w else w)
                       in (APR_SUCCESS, Some new, w)))"

section \<open>Waiting and reading\<close>

definition lkl_wait_for_io_or_timeout ::
    "('w, 'z) lkl_scheme \<Rightarrow> lkl_file \<Rightarrow> bool \<Rightarrow> 'w \<Rightarrow> (int \<times> 'w) res" where
  "lkl_wait_for_io_or_timeout os f for_read w =
     (let tmo = timeout f sdiv 1000 in
      bnd (eintr_loop (lkl_sys_poll os (filedes f) for_read tmo) id w) (\<lambda>(rc, w).
        if rc = 0 then Inr (APR_TIMEUP, w)
        else if rc > 0 then Inr (APR_SUCCESS, w)
        else Inr (- rc, w)))"

text \<open>
  One turn of the loop of \<open>file_read_buffered\<close>: refill the empty buffer, then copy from it. The
  bytes copied so far stand for the destination up to \<open>pos\<close>.
\<close>

definition read_buffered_step ::
    "('w, 'z) lkl_scheme \<Rightarrow> string \<times> int \<times> lkl_file \<times> 'w
      \<Rightarrow> (string \<times> int \<times> lkl_file \<times> 'w, int \<times> string \<times> lkl_file \<times> 'w) ctl res" where
  "read_buffered_step os = (\<lambda>(out, size, thefile, w).
     if \<not> size > 0 then Inr (Done (APR_SUCCESS, out, thefile, w))
     else
       let copy = (\<lambda>thefile w.
             let avail = dataRead thefile - bufpos thefile;
                 blocksize = (if size > avail then avail else size)
             in bnd (slice (fbuffer thefile) (nat (bufpos thefile)) (nat blocksize)) (\<lambda>bytes.
                  Inr (Again (out @ bytes, size - blocksize,
                    thefile\<lparr>bufpos := bufpos thefile + blocksize\<rparr>, w))))
       in if bufpos thefile \<ge> dataRead thefile then
            (case lkl_sys_read os (filedes thefile) APR_FILE_BUFSIZE w of
               (bytesread, bytes, w) \<Rightarrow>
                 if bytesread = 0 then
                   Inr (Done (APR_EOF, out, thefile\<lparr>eof_hit := 1\<rparr>, w))
                 else if bytesread < 0 then
                   Inr (Done (- bytesread, out, thefile, w))
                 else
                   copy (thefile\<lparr>
                     fbuffer := bytes @ drop (length bytes) (fbuffer thefile),
                     dataRead := bytesread, filePtr := filePtr thefile + bytesread,
                     bufpos := 0\<rparr>) w)
          else copy thefile w)"

definition unget_char :: "lkl_file \<Rightarrow> string" where
  "unget_char f = (if ungetchar f \<noteq> - 1 then [char_of (nat (ungetchar f mod 256))] else [])"

definition file_read_buffered ::
    "('w, 'z) lkl_scheme \<Rightarrow> lkl_file \<Rightarrow> nat \<Rightarrow> 'w
      \<Rightarrow> (int \<times> nat \<times> string \<times> lkl_file \<times> 'w) res" where
  "file_read_buffered os thefile nbytes w =
     bnd (if direction thefile = 1 then
            bnd (lkl_file_flush_locked os thefile w) (\<lambda>(rv, thefile, w).
              if rv \<noteq> APR_SUCCESS then Inr (rv, thefile, w)
              else Inr (rv, thefile\<lparr>bufpos := 0, direction := 0, dataRead := 0\<rparr>, w))
          else Inr (APR_SUCCESS, thefile, w)) (\<lambda>(rv, thefile, w).
       if rv \<noteq> APR_SUCCESS then Inr (rv, nbytes, [], thefile, w)
       else
         bnd (run_loop (read_buffered_step os)
                (unget_char thefile, int nbytes - int (length (unget_char thefile)),
                 thefile\<lparr>ungetchar := - 1\<rparr>, w)) (\<lambda>(rv, out, thefile, w).
           Inr (if out \<noteq> [] then APR_SUCCESS else rv, length out, out, thefile, w)))"

text \<open>
  \<open>lkl_file_read\<close> returns the status, the new \<open>*nbytes\<close>, the bytes it stored, the handle and the
  world. The two differ only when the flush of a written buffer fails, which leaves \<open>*nbytes\<close>
  as the caller set it.
\<close>

definition read_or_wait ::
    "('w, 'z) lkl_scheme \<Rightarrow> lkl_file \<Rightarrow> nat \<Rightarrow> 'w \<Rightarrow> ((int + int \<times> string) \<times> 'w) res" where
  "read_or_wait os thefile nbytes w =
     (let read = eintr_loop (lkl_sys_read os (filedes thefile) nbytes) snd in
      bnd (read w) (\<lambda>(rv, bytes, w).
        if rv = - EAGAIN \<and> timeout thefile \<noteq> 0 then
          bnd (lkl_wait_for_io_or_timeout os thefile True w) (\<lambda>(arv, w).
            if arv \<noteq> APR_SUCCESS then Inr (Inl arv, w)
            else bnd (read w) (\<lambda>(rv, bytes, w). Inr (Inr (rv, bytes), w)))
        else Inr (Inr (rv, bytes), w)))"

definition lkl_file_read ::
    "('w, 'z) lkl_scheme \<Rightarrow> lkl_file \<Rightarrow> nat \<Rightarrow> 'w
      \<Rightarrow> (int \<times> nat \<times> string \<times> lkl_file \<times> 'w) res" where
  "lkl_file_read os thefile nbytes w =
     (if nbytes \<le> 0 then Inr (APR_SUCCESS, 0, [], thefile, w)
      else if buffered thefile then
        bnd (file_read_buffered os thefile nbytes (file_lock os thefile w))
          (\<lambda>(rv, n, bytes, thefile, w). Inr (rv, n, bytes, thefile, file_unlock os thefile w))
      else
        let pre = unget_char thefile; bytes_read = length pre;
            thefile = thefile\<lparr>ungetchar := - 1\<rparr>; nbytes = nbytes - bytes_read
        in if pre \<noteq> [] \<and> nbytes = 0 then Inr (APR_SUCCESS, bytes_read, pre, thefile, w)
           else
             bnd (read_or_wait os thefile nbytes w) (\<lambda>(r, w).
               case r of
                 Inl arv \<Rightarrow> Inr (arv, bytes_read, pre, thefile, w)
               | Inr (rv, bytes) \<Rightarrow>
                   if rv = 0 then Inr (APR_EOF, bytes_read, pre, thefile\<lparr>eof_hit := 1\<rparr>, w)
                   else if rv > 0 then
                     Inr (APR_SUCCESS, bytes_read + nat rv, pre @ bytes, thefile, w)
                   else Inr (rv, bytes_read, pre, thefile, w)))"

section \<open>Writing\<close>

text \<open>
  \<open>buf\<close> is the memory the caller's pointer points into and \<open>off\<close> the pointer's offset in it; a
  range outside \<open>buf\<close> is undefined behaviour. Offsets and sizes are \<open>apr_size_t\<close>, 64-bit words
  that wrap. The result of \<open>lkl_sys_write\<close> is stored in an \<open>apr_size_t\<close> too, so the test
  \<open>rv < 0\<close> of the source, here \<open>rv < (0 :: 64 word)\<close>, never holds.
\<close>

type_synonym apr_size_t = "64 word"

definition sys_write ::
    "('w, 'z) lkl_scheme \<Rightarrow> lkl_file \<Rightarrow> string \<Rightarrow> apr_size_t \<Rightarrow> apr_size_t \<Rightarrow> 'w
      \<Rightarrow> (apr_size_t \<times> 'w) res" where
  "sys_write os thefile buf off nbytes w =
     bnd (slice buf (unat off) (unat nbytes)) (\<lambda>bytes.
     bnd (eintr_loop (lkl_sys_write os (filedes thefile) bytes) id w) (\<lambda>(rv, w).
       Inr (word_of_int rv, w)))"

definition halving_step ::
    "('w, 'z) lkl_scheme \<Rightarrow> lkl_file \<Rightarrow> string \<Rightarrow> apr_size_t \<Rightarrow> apr_size_t \<times> 'w
      \<Rightarrow> (apr_size_t \<times> 'w, apr_size_t \<times> 'w) ctl res" where
  "halving_step os thefile buf off = (\<lambda>(nbytes, w).
     bnd (sys_write os thefile buf off nbytes w) (\<lambda>(rv, w).
       Inr (if rv = word_of_int (- EAGAIN) then Again (nbytes div 2, w) else Done (rv, w))))"

text \<open>One turn of the loop that fills the buffer of a buffered handle.\<close>

definition write_buffered_step ::
    "('w, 'z) lkl_scheme \<Rightarrow> string \<Rightarrow> nat \<times> int \<times> lkl_file \<times> 'w
      \<Rightarrow> (nat \<times> int \<times> lkl_file \<times> 'w, int \<times> lkl_file \<times> 'w) ctl res" where
  "write_buffered_step os buf = (\<lambda>(pos, size, thefile, w).
     if \<not> size > 0 then Inr (Done (APR_SUCCESS, thefile, w))
     else
       bnd (if bufpos thefile = int APR_FILE_BUFSIZE then lkl_file_flush_locked os thefile w
            else Inr (APR_SUCCESS, thefile, w)) (\<lambda>(rv, thefile, w).
         let room = int APR_FILE_BUFSIZE - bufpos thefile;
             blocksize = (if size > room then room else size)
         in bnd (slice buf pos (nat blocksize)) (\<lambda>bytes.
            let p = nat (bufpos thefile);
                thefile = thefile\<lparr>
                  fbuffer := take p (fbuffer thefile) @ bytes
                    @ drop (p + length bytes) (fbuffer thefile),
                  bufpos := bufpos thefile + blocksize\<rparr>
            in Inr (if rv = APR_SUCCESS then Again (pos + nat blocksize, size - blocksize, thefile, w)
                    else Done (rv, thefile, w)))))"

definition lkl_file_write ::
    "('w, 'z) lkl_scheme \<Rightarrow> string \<Rightarrow> apr_size_t \<Rightarrow> apr_size_t \<Rightarrow> lkl_file \<times> 'w
      \<Rightarrow> (int \<times> apr_size_t \<times> lkl_file \<times> 'w) res" where
  "lkl_file_write os buf off nbytes = (\<lambda>(thefile, w).
     if buffered thefile then
       let w = file_lock os thefile w in
       case (if direction thefile = 0 then
               let offset = filePtr thefile - dataRead thefile + bufpos thefile;
                   w = (if offset \<noteq> filePtr thefile
                        then snd (lkl_sys_lseek os (filedes thefile) offset 0 w) else w)
               in (thefile\<lparr>bufpos := 0, dataRead := 0, direction := 1\<rparr>, w)
             else (thefile, w)) of
         (thefile, w) \<Rightarrow>
           bnd (run_loop (write_buffered_step os buf)
                  (unat off, to_int32 (uint nbytes), thefile, w)) (\<lambda>(rv, thefile, w).
             Inr (rv, nbytes, thefile, file_unlock os thefile w))
     else
       bnd (sys_write os thefile buf off nbytes w) (\<lambda>(rv, w).
       bnd (if rv = word_of_int (- EAGAIN) \<and> timeout thefile \<noteq> 0 then
              bnd (lkl_wait_for_io_or_timeout os thefile False w) (\<lambda>(arv, w).
                if arv \<noteq> APR_SUCCESS then Inr (Inl arv, w)
                else bnd (run_loop (halving_step os thefile buf off) (nbytes, w))
                       (\<lambda>(rv, w). Inr (Inr rv, w)))
            else Inr (Inr rv, w)) (\<lambda>(r, w).
         case r of
           Inl arv \<Rightarrow> Inr (arv, 0, thefile, w)
         | Inr rv \<Rightarrow>
             if rv < 0 then Inr (- uint rv, 0, thefile, w)
             else Inr (APR_SUCCESS, rv, thefile, w))))"

section \<open>Transferring all of a buffer\<close>

text \<open>
  \<open>lkl_file_read_full\<close> and \<open>lkl_file_write_full\<close> repeat the call until it fails or nothing is
  left. The loops are stated for any reading call \<open>rd\<close> and writing call \<open>wr\<close>, so that what they
  need of the call is a contract.
\<close>

definition write_full_step ::
    "(string \<Rightarrow> apr_size_t \<Rightarrow> apr_size_t \<Rightarrow> 's \<Rightarrow> (int \<times> apr_size_t \<times> 's) res) \<Rightarrow> string
      \<Rightarrow> apr_size_t \<times> apr_size_t \<times> apr_size_t \<times> 's
      \<Rightarrow> (apr_size_t \<times> apr_size_t \<times> apr_size_t \<times> 's, int \<times> apr_size_t \<times> 's) ctl res" where
  "write_full_step wr mem = (\<lambda>(buf, nbytes, total_written, s).
     bnd (wr mem buf nbytes s) (\<lambda>(status, amt, s).
       let buf = buf + amt; nbytes = nbytes - amt; total_written = total_written + amt
       in Inr (if status = APR_SUCCESS \<and> nbytes > 0
               then Again (buf, nbytes, total_written, s)
               else Done (status, total_written, s))))"

definition lkl_file_write_full ::
    "('w, 'z) lkl_scheme \<Rightarrow> string \<Rightarrow> apr_size_t \<Rightarrow> apr_size_t \<Rightarrow> lkl_file \<times> 'w
      \<Rightarrow> (int \<times> apr_size_t \<times> lkl_file \<times> 'w) res" where
  "lkl_file_write_full os mem buf nbytes s =
     run_loop (write_full_step (lkl_file_write os) mem) (buf, nbytes, 0, s)"

definition read_full_step ::
    "(nat \<Rightarrow> 's \<Rightarrow> (int \<times> nat \<times> string \<times> 's) res) \<Rightarrow> string \<times> apr_size_t \<times> apr_size_t \<times> 's
      \<Rightarrow> (string \<times> apr_size_t \<times> apr_size_t \<times> 's, int \<times> apr_size_t \<times> string \<times> 's) ctl res" where
  "read_full_step rd = (\<lambda>(buf, nbytes, total_read, s).
     bnd (rd (unat nbytes) s) (\<lambda>(status, amt, bytes, s).
       let buf = buf @ bytes; nbytes = nbytes - word_of_nat amt;
           total_read = total_read + word_of_nat amt
       in Inr (if status = APR_SUCCESS \<and> nbytes > 0
               then Again (buf, nbytes, total_read, s)
               else Done (status, total_read, buf, s))))"

definition lkl_file_read_full ::
    "('w, 'z) lkl_scheme \<Rightarrow> lkl_file \<Rightarrow> apr_size_t \<Rightarrow> 'w
      \<Rightarrow> (int \<times> apr_size_t \<times> string \<times> lkl_file \<times> 'w) res" where
  "lkl_file_read_full os thefile nbytes w =
     run_loop (read_full_step (\<lambda>n (thefile, w). lkl_file_read os thefile n w))
       ([], nbytes, 0, thefile, w)"

section \<open>Information on an open file, and seeking\<close>

definition file_info ::
    "('w, 'z) lkl_scheme \<Rightarrow> apr_finfo \<Rightarrow> flags \<Rightarrow> lkl_file \<Rightarrow> 'w \<Rightarrow> int \<times> int \<times> apr_finfo \<times> 'w" where
  "file_info os finfo wanted thefile w =
     (case lkl_sys_newfstat os (filedes thefile) w of
        (rc, info, w) \<Rightarrow>
          if rc = 0 then
            let finfo = fill_out_finfo (finfo\<lparr>fi_fname := fname thefile\<rparr>) info wanted
            in (0, if wanted AND NOT (fi_valid finfo) \<noteq> 0 then APR_INCOMPLETE else APR_SUCCESS,
                finfo, w)
          else (rc, APR_SUCCESS, finfo, w))"

definition lkl_file_info_get_locked ::
    "('w, 'z) lkl_scheme \<Rightarrow> apr_finfo \<Rightarrow> flags \<Rightarrow> lkl_file \<Rightarrow> 'w
      \<Rightarrow> (int \<times> apr_finfo \<times> lkl_file \<times> 'w) res" where
  "lkl_file_info_get_locked os finfo wanted thefile w =
     bnd (if buffered thefile then lkl_file_flush_locked os thefile w
          else Inr (APR_SUCCESS, thefile, w)) (\<lambda>(rv, thefile, w).
       if rv \<noteq> APR_SUCCESS then Inr (rv, finfo, thefile, w)
       else case file_info os finfo wanted thefile w of
         (rc, st, finfo, w) \<Rightarrow> Inr (if rc = 0 then st else rc, finfo, thefile, w))"

definition lkl_file_info_get ::
    "('w, 'z) lkl_scheme \<Rightarrow> apr_finfo \<Rightarrow> flags \<Rightarrow> lkl_file \<Rightarrow> 'w
      \<Rightarrow> (int \<times> apr_finfo \<times> lkl_file \<times> 'w) res" where
  "lkl_file_info_get os finfo wanted thefile w =
     bnd (if buffered thefile then lkl_file_flush os thefile w
          else Inr (APR_SUCCESS, thefile, w)) (\<lambda>(rv, thefile, w).
       if rv \<noteq> APR_SUCCESS then Inr (rv, finfo, thefile, w)
       else case file_info os finfo wanted thefile w of
         (rc, st, finfo, w) \<Rightarrow> Inr (if rc = 0 then st else - rc, finfo, thefile, w))"

text \<open>
  \<open>setptr\<close> keeps the result of \<open>lkl_sys_lseek\<close>, a 64-bit offset, in an \<open>apr_status_t\<close> of 32 bits.
\<close>

definition SEEK_SET :: int where "SEEK_SET = 0"

definition setptr ::
    "('w, 'z) lkl_scheme \<Rightarrow> lkl_file \<Rightarrow> int \<Rightarrow> 'w \<Rightarrow> (int \<times> lkl_file \<times> 'w) res" where
  "setptr os thefile pos w =
     bnd (if direction thefile = 1 then
            bnd (lkl_file_flush_locked os thefile w) (\<lambda>(rv, thefile, w).
              if rv \<noteq> APR_SUCCESS then Inr (rv, thefile, w)
              else Inr (rv, thefile\<lparr>bufpos := 0, direction := 0, dataRead := 0\<rparr>, w))
          else Inr (APR_SUCCESS, thefile, w)) (\<lambda>(rv, thefile, w).
       if rv \<noteq> APR_SUCCESS then Inr (rv, thefile, w)
       else
         let newbufpos = pos - (filePtr thefile - dataRead thefile)
         in if newbufpos \<ge> 0 \<and> newbufpos \<le> dataRead thefile then
              Inr (APR_SUCCESS, thefile\<lparr>bufpos := newbufpos\<rparr>, w)
            else
              case lkl_sys_lseek os (filedes thefile) pos SEEK_SET w of
                (r, w) \<Rightarrow>
                  let rv = to_int32 r
                  in if rv \<ge> 0 then
                       Inr (APR_SUCCESS,
                         thefile\<lparr>bufpos := 0, dataRead := 0, filePtr := pos\<rparr>, w)
                     else Inr (- rv, thefile, w))"

datatype apr_seek_where_t = APR_SET | APR_CUR | APR_END

fun seek_whence :: "apr_seek_where_t \<Rightarrow> int" where
  "seek_whence APR_SET = 0"
| "seek_whence APR_CUR = 1"
| "seek_whence APR_END = 2"

definition lkl_file_seek ::
    "('w, 'z) lkl_scheme \<Rightarrow> apr_finfo \<Rightarrow> lkl_file \<Rightarrow> apr_seek_where_t \<Rightarrow> int \<Rightarrow> 'w
      \<Rightarrow> (int \<times> int \<times> lkl_file \<times> 'w) res" where
  "lkl_file_seek os finfo thefile whence offset w =
     (let thefile = thefile\<lparr>eof_hit := 0\<rparr> in
      if buffered thefile then
        let w = file_lock os thefile w in
        bnd (case whence of
               APR_SET \<Rightarrow> setptr os thefile offset w
             | APR_CUR \<Rightarrow> setptr os thefile
                 (filePtr thefile - dataRead thefile + bufpos thefile + offset) w
             | APR_END \<Rightarrow>
                 bnd (lkl_file_info_get_locked os finfo APR_FINFO_SIZE thefile w)
                   (\<lambda>(rc, finfo, thefile, w).
                     if rc = APR_SUCCESS then setptr os thefile (fi_size finfo + offset) w
                     else Inr (rc, thefile, w))) (\<lambda>(rc, thefile, w).
          Inr (rc, filePtr thefile - dataRead thefile + bufpos thefile, thefile, file_unlock os thefile w))
      else
        case lkl_sys_lseek os (filedes thefile) offset (seek_whence whence) w of
          (rv, w) \<Rightarrow>
            if rv < 0 then Inr (- rv, - 1, thefile, w)
            else Inr (APR_SUCCESS, rv, thefile, w))"

definition lkl_file_eof :: "lkl_file \<Rightarrow> int" where
  "lkl_file_eof fptr = (if eof_hit fptr = 1 then APR_EOF else APR_SUCCESS)"

section \<open>Names and locks\<close>

definition lkl_file_remove :: "('w, 'z) lkl_scheme \<Rightarrow> cstr \<Rightarrow> 'w \<Rightarrow> int \<times> 'w" where
  "lkl_file_remove os path w = (case lkl_sys_unlink os path w of (rc, w) \<Rightarrow> (- rc, w))"

definition lkl_file_rename :: "('w, 'z) lkl_scheme \<Rightarrow> cstr \<Rightarrow> cstr \<Rightarrow> 'w \<Rightarrow> int \<times> 'w" where
  "lkl_file_rename os from_path to_path w =
     (case lkl_sys_rename os from_path to_path w of (rc, w) \<Rightarrow> (- rc, w))"

definition APR_FLOCK_SHARED :: flags where "APR_FLOCK_SHARED = 1"
definition APR_FLOCK_TYPEMASK :: flags where "APR_FLOCK_TYPEMASK = 0xF"
definition APR_FLOCK_NONBLOCK :: flags where "APR_FLOCK_NONBLOCK = 0x10"
definition LOCK_SH :: flags where "LOCK_SH = 1"
definition LOCK_EX :: flags where "LOCK_EX = 2"
definition LOCK_NB :: flags where "LOCK_NB = 4"
definition LOCK_UN :: flags where "LOCK_UN = 8"

definition lkl_file_lock ::
    "('w, 'z) lkl_scheme \<Rightarrow> lkl_file \<Rightarrow> flags \<Rightarrow> 'w \<Rightarrow> (int \<times> 'w) res" where
  "lkl_file_lock os thefile type w =
     (let ltype = (if type AND APR_FLOCK_TYPEMASK = APR_FLOCK_SHARED then LOCK_SH else LOCK_EX);
          ltype = (if type AND APR_FLOCK_NONBLOCK \<noteq> 0 then ltype OR LOCK_NB else ltype)
      in bnd (eintr_loop (lkl_sys_flock os (filedes thefile) ltype) id w) (\<lambda>(rc, w).
           if rc < 0 then Inr (- rc, w) else Inr (APR_SUCCESS, w)))"

definition lkl_file_unlock ::
    "('w, 'z) lkl_scheme \<Rightarrow> lkl_file \<Rightarrow> 'w \<Rightarrow> (int \<times> 'w) res" where
  "lkl_file_unlock os thefile w =
     bnd (eintr_loop (lkl_sys_flock os (filedes thefile) LOCK_UN) id w) (\<lambda>(rc, w).
       if rc < 0 then Inr (- rc, w) else Inr (APR_SUCCESS, w))"

end
