(* ===== verification/Utils.thy ===== *)
theory Utils
  imports Ftp_Prelude
begin

text \<open>
  utils.c: the two text conversions of an ASCII transfer, the error-source names of the log and
  \<open>bug\<close>. The conversions are modelled on the buffers they work on: \<open>p_out\<close> is a separate output
  buffer in the one direction, the input buffer itself in the other. The log itself is in theory
  Logging.
\<close>

section \<open>bug and the error sources\<close>

definition bug :: "string \<Rightarrow> 'a res" where
  "bug p_text = Inl (Bug p_text)"

datatype err_source_t = ERR_SOURCE_APR | ERR_SOURCE_LINUX | ERR_SOURCE_OTHER int

fun err_source_str :: "err_source_t \<Rightarrow> string" where
  "err_source_str ERR_SOURCE_APR = ''APR''"
| "err_source_str ERR_SOURCE_LINUX = ''LINUX''"
| "err_source_str (ERR_SOURCE_OTHER _) = ''<unknown-err-src>''"

text \<open>\<open>apr_strerror\<close> and \<open>strerror_r\<close> are parameters: they look a message up by error number.\<close>

fun err_source_strerror ::
    "(int \<Rightarrow> string) \<Rightarrow> (int \<Rightarrow> string) \<Rightarrow> err_source_t \<Rightarrow> int \<Rightarrow> string" where
  "err_source_strerror apr_strerror strerror_r ERR_SOURCE_APR rc = apr_strerror rc"
| "err_source_strerror apr_strerror strerror_r ERR_SOURCE_LINUX rc = strerror_r (- rc)"
| "err_source_strerror apr_strerror strerror_r (ERR_SOURCE_OTHER _) rc = ''<cannot-determine-err-msg>''"

section \<open>From the file to the network: every LF gets a CR\<close>

function bin_to_ascii_loop ::
    "string \<Rightarrow> nat \<Rightarrow> nat \<Rightarrow> nat \<Rightarrow> string \<Rightarrow> (nat \<times> string) res" where
  "bin_to_ascii_loop p_in in_len indexx written p_out =
     (if indexx < in_len then
        bnd (load p_in indexx) (\<lambda>the_char.
        bnd (if the_char = LF
             then bnd (store p_out written CR) (\<lambda>p_out. Inr (written + 1, p_out))
             else Inr (written, p_out)) (\<lambda>(written, p_out).
        bnd (store p_out written the_char) (\<lambda>p_out.
          bin_to_ascii_loop p_in in_len (indexx + 1) (written + 1) p_out)))
      else Inr (written, p_out))"
  by pat_completeness auto
termination
  by (relation "measure (\<lambda>(p_in, in_len, indexx, written, p_out). in_len - indexx)") auto

declare bin_to_ascii_loop.simps [simp del]

definition lfd_ascii_bin_to_ascii :: "string \<Rightarrow> string \<Rightarrow> nat \<Rightarrow> (nat \<times> string) res" where
  "lfd_ascii_bin_to_ascii p_in p_out in_len = bin_to_ascii_loop p_in in_len 0 0 p_out"

text \<open>The specification of this direction, on the text itself.\<close>

definition to_dos :: "string \<Rightarrow> string" where
  "to_dos xs = concat (map (\<lambda>c. if c = LF then [CR, LF] else [c]) xs)"

lemma to_dos_Nil [simp]: "to_dos [] = []"
  by (simp add: to_dos_def)

lemma to_dos_Cons [simp]:
  "to_dos (c # xs) = (if c = LF then CR # LF # to_dos xs else c # to_dos xs)"
  by (simp add: to_dos_def)

lemma to_dos_append: "to_dos (xs @ ys) = to_dos xs @ to_dos ys"
  by (simp add: to_dos_def)

lemma length_to_dos_le: "length (to_dos xs) \<le> 2 * length xs"
  by (induction xs) auto

lemma length_to_dos_ge: "length xs \<le> length (to_dos xs)"
  by (induction xs) auto

lemma length_to_dos: "length (to_dos xs) = length xs + length (filter (\<lambda>c. c = LF) xs)"
  by (induction xs) auto

lemma bin_to_ascii_loop_eq:
  assumes "in_len \<le> length p_in" and "indexx \<le> in_len"
    and "written + length (to_dos (take (in_len - indexx) (drop indexx p_in))) \<le> length p_out"
  shows "bin_to_ascii_loop p_in in_len indexx written p_out =
    (let r = to_dos (take (in_len - indexx) (drop indexx p_in))
     in Inr (written + length r,
          take written p_out @ r @ drop (written + length r) p_out))"
  using assms
proof (induction p_in in_len indexx written p_out rule: bin_to_ascii_loop.induct)
  case (1 p_in in_len indexx written p_out)
  show ?case
  proof (cases "indexx < in_len")
    case False
    with "1.prems" show ?thesis by (simp add: bin_to_ascii_loop.simps)
  next
    case True
    let ?c = "p_in ! indexx"
    let ?rest = "to_dos (take (in_len - Suc indexx) (drop (Suc indexx) p_in))"
    from True "1.prems"(1) have split:
      "take (in_len - indexx) (drop indexx p_in)
        = ?c # take (in_len - Suc indexx) (drop (Suc indexx) p_in)"
      by (simp add: drop_nth_Cons Suc_diff_Suc [symmetric])
    show ?thesis
    proof (cases "?c = LF")
      case True
      with \<open>indexx < in_len\<close> "1.prems" split
      have "bin_to_ascii_loop p_in in_len indexx written p_out
          = bin_to_ascii_loop p_in in_len (Suc indexx) (Suc (Suc written))
              (p_out[written := CR, Suc written := LF])"
        by (subst bin_to_ascii_loop.simps) simp
      also have "\<dots> = Inr (Suc (Suc written) + length ?rest,
          take (Suc (Suc written)) (p_out[written := CR, Suc written := LF]) @ ?rest
            @ drop (Suc (Suc written) + length ?rest) (p_out[written := CR, Suc written := LF]))"
        using "1.IH" [of ?c "(Suc written, p_out[written := CR])" "Suc written"
            "p_out[written := CR]" "p_out[written := CR, Suc written := LF]"]
          \<open>indexx < in_len\<close> True "1.prems" split by (simp add: Let_def)
      finally show ?thesis
        using True split "1.prems"
        by (simp add: take_Suc_update Let_def take_Suc_conv_app_nth)
    next
      case False
      with \<open>indexx < in_len\<close> "1.prems" split
      have "bin_to_ascii_loop p_in in_len indexx written p_out
          = bin_to_ascii_loop p_in in_len (Suc indexx) (Suc written) (p_out[written := ?c])"
        by (subst bin_to_ascii_loop.simps) simp
      also have "\<dots> = Inr (Suc written + length ?rest,
          take (Suc written) (p_out[written := ?c]) @ ?rest
            @ drop (Suc written + length ?rest) (p_out[written := ?c]))"
        using "1.IH" [of ?c "(written, p_out)" written p_out "p_out[written := ?c]"]
          \<open>indexx < in_len\<close> False "1.prems" split by (simp add: Let_def)
      finally show ?thesis
        using False split "1.prems" by (simp add: take_Suc_update Let_def)
    qed
  qed
qed

section \<open>From the network to the file: CR LF becomes LF\<close>

text \<open>
  \<open>struct ascii_to_bin_ret\<close>: \<open>p_buf\<close> is the offset of the result in the caller's buffer (0 when a
  pending CR was put in front of it, 1 otherwise). The conversion overwrites the buffer it
  reads, so the buffer is threaded through the loop and returned.
\<close>

record ascii_to_bin_ret =
  stored :: nat
  last_was_cr :: bool
  p_buf :: nat

function ascii_to_bin_loop ::
    "nat \<Rightarrow> nat \<Rightarrow> nat \<Rightarrow> bool \<Rightarrow> nat \<Rightarrow> string \<Rightarrow> (nat \<times> bool \<times> string) res" where
  "ascii_to_bin_loop in_len indexx written lwc p_out buf =
     (if indexx < in_len then
        bnd (load buf (indexx + 1)) (\<lambda>the_char.
        bnd (if the_char \<noteq> CR then
               bnd (store buf p_out the_char) (\<lambda>buf. Inr (written + 1, lwc, p_out + 1, buf))
             else if indexx = in_len - 1 then
               Inr (written, True, p_out, buf)
             else
               bnd (load buf (indexx + 2)) (\<lambda>next_char.
               if next_char \<noteq> LF then
                 bnd (store buf p_out the_char) (\<lambda>buf. Inr (written + 1, lwc, p_out + 1, buf))
               else Inr (written, lwc, p_out, buf)))
          (\<lambda>(written, lwc, p_out, buf).
            ascii_to_bin_loop in_len (indexx + 1) written lwc p_out buf))
      else Inr (written, lwc, buf))"
  by pat_completeness auto
termination
  by (relation "measure (\<lambda>(in_len, indexx, written, lwc, p_out, buf). in_len - indexx)") auto

declare ascii_to_bin_loop.simps [simp del]

definition lfd_ascii_ascii_to_bin ::
    "string \<Rightarrow> nat \<Rightarrow> bool \<Rightarrow> (ascii_to_bin_ret \<times> string) res" where
  "lfd_ascii_ascii_to_bin buf in_len prev_cr =
     bnd (if prev_cr then
            if in_len = 0 then Inr True else bnd (load buf 1) (\<lambda>c. Inr (c \<noteq> LF))
          else Inr False) (\<lambda>put_cr.
     bnd (if put_cr then bnd (store buf 0 CR) (\<lambda>buf. Inr (0, 1, buf)) else Inr (1, 0, buf))
       (\<lambda>(start, written, buf).
     bnd (ascii_to_bin_loop in_len 0 written False 1 buf) (\<lambda>(written, lwc, buf).
       Inr (\<lparr>stored = written, last_was_cr = lwc, p_buf = start\<rparr>, buf))))"

text \<open>
  The specification: \<open>to_unix\<close> drops every CR that an LF follows. \<open>chunk_out\<close> is the same on one
  chunk of a stream, where a final CR waits for the next chunk.
\<close>

fun to_unix :: "string \<Rightarrow> string" where
  "to_unix [] = []"
| "to_unix [c] = [c]"
| "to_unix (c # d # xs) = (if c = CR \<and> d = LF then to_unix (d # xs) else c # to_unix (d # xs))"

fun chunk_out :: "string \<Rightarrow> string" where
  "chunk_out [] = []"
| "chunk_out [c] = (if c = CR then [] else [c])"
| "chunk_out (c # d # xs) =
     (if c = CR \<and> d = LF then chunk_out (d # xs) else c # chunk_out (d # xs))"

definition pending :: "bool \<Rightarrow> string" where
  "pending cr = (if cr then [CR] else [])"

definition ends_cr :: "string \<Rightarrow> bool" where
  "ends_cr xs \<longleftrightarrow> xs \<noteq> [] \<and> last xs = CR"

lemma chunk_out_pending: "to_unix xs = chunk_out xs @ pending (ends_cr xs)"
  by (induction xs rule: to_unix.induct) (auto simp: pending_def ends_cr_def)

lemma to_unix_append:
  "xs \<noteq> [] \<Longrightarrow> to_unix (xs @ ys) = chunk_out xs @ to_unix (pending (ends_cr xs) @ ys)"
proof (induction xs rule: to_unix.induct)
  case (2 c)
  then show ?case by (cases ys) (auto simp: pending_def ends_cr_def)
next
  case (3 c d xs)
  then show ?case by (auto simp: ends_cr_def)
qed simp

lemma length_chunk_out_le: "length (chunk_out xs) \<le> length xs"
  by (induction xs rule: chunk_out.induct) auto

lemma hd_to_dos_neq_LF: "to_dos xs = c # ys \<Longrightarrow> c \<noteq> LF"
  by (cases xs) (auto split: if_splits)

lemma to_unix_Cons_not_LF:
  "(\<And>c ys. xs = c # ys \<Longrightarrow> c \<noteq> LF) \<Longrightarrow> to_unix (c # xs) = c # to_unix xs"
  by (cases xs) auto

lemma to_unix_to_dos: "to_unix (to_dos xs) = xs"
proof (induction xs)
  case (Cons c xs)
  have "to_unix (d # to_dos xs) = d # to_unix (to_dos xs)" for d
    by (rule to_unix_Cons_not_LF) (rule hd_to_dos_neq_LF)
  with Cons show ?case by simp
qed simp

interpretation text_codec: codec to_dos to_unix "\<lambda>_. True"
  by unfold_locales (rule to_unix_to_dos)

lemma ascii_to_bin_loop_eq:
  assumes "in_len < length buf" and "p_out \<le> indexx + 1" and "indexx \<le> in_len"
  shows "\<exists>buf'. ascii_to_bin_loop in_len indexx written lwc p_out buf =
      (let xs = take (in_len - indexx) (drop (indexx + 1) buf); r = chunk_out xs
       in Inr (written + length r, lwc \<or> ends_cr xs, buf'))
    \<and> length buf' = length buf
    \<and> take (p_out + length (chunk_out (take (in_len - indexx) (drop (indexx + 1) buf)))) buf'
        = take p_out buf @ chunk_out (take (in_len - indexx) (drop (indexx + 1) buf))"
  using assms
proof (induction "in_len - indexx" arbitrary: indexx written lwc p_out buf)
  case 0
  then have "ascii_to_bin_loop in_len indexx written lwc p_out buf = Inr (written, lwc, buf)"
    by (subst ascii_to_bin_loop.simps) simp
  with 0 show ?case by (simp add: ends_cr_def)
next
  case (Suc n)
  then have lt: "indexx < in_len" by simp
  let ?c = "buf ! Suc indexx"
  let ?xs = "\<lambda>i (b::string). take (in_len - i) (drop (i + 1) b)"
  have xs: "?xs indexx buf = ?c # ?xs (Suc indexx) buf"
    using lt Suc.prems by (simp add: drop_nth_Cons Suc_diff_Suc [symmetric])
  have n: "n = in_len - Suc indexx" using Suc.hyps(2) by simp
  have same: "?xs (Suc indexx) (buf[p_out := x]) = ?xs (Suc indexx) buf" for x
    using Suc.prems by simp
  note IH = Suc.hyps(1) [OF n]
  consider (keep) "?c \<noteq> CR \<or> (indexx \<noteq> in_len - 1 \<and> buf ! (indexx + 2) \<noteq> LF)"
    | (last) "?c = CR" "indexx = in_len - 1"
    | (drop) "?c = CR" "indexx \<noteq> in_len - 1" "buf ! (indexx + 2) = LF"
    by blast
  then show ?case
  proof cases
    case keep
    have out: "chunk_out (?xs indexx buf) = ?c # chunk_out (?xs (Suc indexx) buf)
        \<and> ends_cr (?xs indexx buf) = ends_cr (?xs (Suc indexx) buf)"
    proof (cases "indexx = in_len - 1")
      case True
      with xs keep lt show ?thesis by (auto simp: ends_cr_def)
    next
      case False
      then have "?xs (Suc indexx) buf = buf ! (indexx + 2) # ?xs (Suc (Suc indexx)) buf"
        using lt Suc.prems by (simp add: drop_nth_Cons Suc_diff_Suc [symmetric])
      with xs keep False show ?thesis by (auto simp: ends_cr_def)
    qed
    have "ascii_to_bin_loop in_len indexx written lwc p_out buf
        = ascii_to_bin_loop in_len (Suc indexx) (Suc written) lwc (Suc p_out) (buf[p_out := ?c])"
      using lt keep Suc.prems by (subst ascii_to_bin_loop.simps) auto
    moreover obtain buf' where
      "ascii_to_bin_loop in_len (Suc indexx) (Suc written) lwc (Suc p_out) (buf[p_out := ?c])
        = Inr (Suc written + length (chunk_out (?xs (Suc indexx) buf)),
            lwc \<or> ends_cr (?xs (Suc indexx) buf), buf')"
      "length buf' = length buf"
      "take (Suc p_out + length (chunk_out (?xs (Suc indexx) buf))) buf'
        = take (Suc p_out) (buf[p_out := ?c]) @ chunk_out (?xs (Suc indexx) buf)"
      using IH [of "buf[p_out := ?c]" "Suc p_out" "Suc written" lwc] lt Suc.prems same
      by (auto simp: Let_def)
    moreover have "p_out < length buf" using lt Suc.prems by simp
    ultimately show ?thesis
      using out by (auto simp: Let_def take_Suc_update)
  next
    case last
    then have "?xs indexx buf = [CR]" "?xs (Suc indexx) buf = []" using xs lt by auto
    moreover have "ascii_to_bin_loop in_len indexx written lwc p_out buf
        = ascii_to_bin_loop in_len (Suc indexx) written True p_out buf"
      using lt last Suc.prems by (subst ascii_to_bin_loop.simps) auto
    moreover have "ascii_to_bin_loop in_len (Suc indexx) written True p_out buf
        = Inr (written, True, buf)"
      using lt last by (subst ascii_to_bin_loop.simps) simp
    ultimately show ?thesis by (simp add: ends_cr_def)
  next
    case drop
    then have "?xs (Suc indexx) buf = LF # ?xs (Suc (Suc indexx)) buf"
      using lt Suc.prems by (simp add: drop_nth_Cons Suc_diff_Suc [symmetric])
    then have out: "chunk_out (?xs indexx buf) = chunk_out (?xs (Suc indexx) buf)
        \<and> ends_cr (?xs indexx buf) = ends_cr (?xs (Suc indexx) buf)"
      using xs drop by (simp add: ends_cr_def)
    have "ascii_to_bin_loop in_len indexx written lwc p_out buf
        = ascii_to_bin_loop in_len (Suc indexx) written lwc p_out buf"
      using lt drop Suc.prems by (subst ascii_to_bin_loop.simps) auto
    with out show ?thesis
      using IH [of buf p_out written lwc] lt Suc.prems by (auto simp: Let_def)
  qed
qed

section \<open>A stream that arrives in chunks\<close>

text \<open>
  \<open>chunk_conv\<close> is what the conversion of one chunk yields: the text for the file and the flag
  that a CR is pending. \<open>conv_chunks\<close> runs it over the chunks of a transfer.
\<close>

definition chunk_conv :: "bool \<Rightarrow> string \<Rightarrow> string \<times> bool" where
  "chunk_conv prev xs =
     (pending (prev \<and> (xs = [] \<or> hd xs \<noteq> LF)) @ chunk_out xs, ends_cr xs)"

fun conv_chunks :: "bool \<Rightarrow> string list \<Rightarrow> string \<times> bool" where
  "conv_chunks prev [] = ([], prev)"
| "conv_chunks prev (x # xs) =
     (let (out, prev') = chunk_conv prev x; (outs, last) = conv_chunks prev' xs
      in (out @ outs, last))"

lemma to_unix_chunk:
  assumes "xs \<noteq> []" and "chunk_conv prev xs = (out, prev')"
  shows "to_unix (pending prev @ xs @ ys) = out @ to_unix (pending prev' @ ys)"
proof (cases "prev \<and> hd xs \<noteq> LF")
  case True
  with assms(1) have "to_unix (pending prev @ xs @ ys) = CR # to_unix (xs @ ys)"
    by (cases xs) (auto simp: pending_def)
  with assms True show ?thesis
    by (auto simp: to_unix_append chunk_conv_def pending_def)
next
  case False
  with assms(1) have "to_unix (pending prev @ xs @ ys) = to_unix (xs @ ys)"
    by (cases xs) (auto simp: pending_def)
  with assms False show ?thesis
    by (auto simp: to_unix_append chunk_conv_def pending_def)
qed

lemma conv_chunks_to_unix:
  assumes "\<And>x. x \<in> set xs \<Longrightarrow> x \<noteq> []"
  shows "fst (conv_chunks prev xs) @ pending (snd (conv_chunks prev xs))
       = to_unix (pending prev @ concat xs)"
  using assms
proof (induction xs arbitrary: prev)
  case Nil
  then show ?case by (simp add: pending_def)
next
  case (Cons x xs)
  obtain out prev' where c: "chunk_conv prev x = (out, prev')" by fastforce
  have "to_unix (pending prev @ x @ concat xs) = out @ to_unix (pending prev' @ concat xs)"
    using Cons.prems by (intro to_unix_chunk c) simp
  with Cons.IH [of prev'] Cons.prems c show ?case by (simp add: case_prod_unfold Let_def)
qed

text \<open>An empty last chunk, which the end of the stream delivers, writes the pending CR.\<close>

lemma chunk_conv_Nil: "chunk_conv prev [] = (pending prev, False)"
  by (simp add: chunk_conv_def ends_cr_def)

section \<open>The code meets the specification\<close>

lemma bin_to_ascii_eq:
  assumes "in_len \<le> length p_in" and "2 * in_len \<le> length p_out"
  shows "lfd_ascii_bin_to_ascii p_in p_out in_len =
    Inr (length (to_dos (take in_len p_in)),
         to_dos (take in_len p_in) @ drop (length (to_dos (take in_len p_in))) p_out)"
proof -
  have "length (to_dos (take in_len p_in)) \<le> length p_out"
    using length_to_dos_le [of "take in_len p_in"] assms by simp
  with assms show ?thesis
    by (simp add: lfd_ascii_bin_to_ascii_def bin_to_ascii_loop_eq Let_def)
qed

text \<open>
  C20. \<open>lfd_ascii_bin_to_ascii\<close> writes the input with a CR before every LF, returns the number of
  bytes written, stays within an output buffer of twice the input's size and leaves the rest of
  that buffer alone.
\<close>
theorem bin_to_ascii_correct:
  assumes "in_len \<le> length p_in" and "2 * in_len \<le> length p_out"
  shows "lfd_ascii_bin_to_ascii p_in p_out in_len =
    Inr (length (to_dos (take in_len p_in)),
         to_dos (take in_len p_in) @ drop (length (to_dos (take in_len p_in))) p_out)"
  using assms by (rule bin_to_ascii_eq)

theorem bin_to_ascii_correct_witness:
  "lfd_ascii_bin_to_ascii [CHR ''a'', LF] (replicate 5 (CHR ''x'')) 2
    = Inr (3, [CHR ''a'', CR, LF, CHR ''x'', CHR ''x''])"
  using bin_to_ascii_correct [of 2 "[CHR ''a'', LF]" "replicate 5 (CHR ''x'')"]
  by (simp add: LF_def CR_def numeral_eq_Suc)

lemma ascii_to_bin_eq:
  assumes "in_len < length buf"
  shows "\<exists>ret buf'. lfd_ascii_ascii_to_bin buf in_len prev_cr = Inr (ret, buf')
    \<and> length buf' = length buf \<and> p_buf ret + stored ret \<le> length buf
    \<and> (take (stored ret) (drop (p_buf ret) buf'), last_was_cr ret)
        = chunk_conv prev_cr (take in_len (drop 1 buf))"
proof -
  define put where "put \<longleftrightarrow> prev_cr \<and> (in_len = 0 \<or> buf ! 1 \<noteq> LF)"
  let ?buf = "if put then buf[0 := CR] else buf"
  let ?w = "if put then 1 else 0"
  let ?xs = "take in_len (drop 1 buf)"
  have ne: "buf \<noteq> []" using assms by auto
  have xs: "take in_len (drop 1 ?buf) = ?xs" by (cases buf) simp_all
  have put: "put \<longleftrightarrow> prev_cr \<and> (?xs = [] \<or> hd ?xs \<noteq> LF)"
    using assms by (cases "in_len = 0") (auto simp: put_def hd_drop_conv_nth)
  obtain buf' where loop: "ascii_to_bin_loop in_len 0 ?w False 1 ?buf
        = Inr (?w + length (chunk_out ?xs), ends_cr ?xs, buf')"
      and len: "length buf' = length buf"
      and out: "take (1 + length (chunk_out ?xs)) buf' = take 1 ?buf @ chunk_out ?xs"
    using ascii_to_bin_loop_eq [of in_len ?buf 1 0 ?w False] assms xs
    by (auto simp: Let_def split: if_splits)
  have run: "lfd_ascii_ascii_to_bin buf in_len prev_cr
      = Inr (\<lparr>stored = ?w + length (chunk_out ?xs), last_was_cr = ends_cr ?xs,
          p_buf = (if put then 0 else 1)\<rparr>, buf')"
    using assms loop ne
    by (auto simp: lfd_ascii_ascii_to_bin_def put_def split: if_splits)
  have "take (?w + length (chunk_out ?xs)) (drop (if put then 0 else 1) buf')
      = pending put @ chunk_out ?xs"
    using out ne len by (cases buf; cases buf') (auto simp: pending_def split: if_splits)
  moreover have "(if put then 0 else 1) + (?w + length (chunk_out ?xs)) \<le> length buf"
    using length_chunk_out_le [of ?xs] assms by simp
  ultimately show ?thesis using run len put by (auto simp: chunk_conv_def)
qed

text \<open>
  C21. \<open>lfd_ascii_ascii_to_bin\<close> converts in place: on a buffer of \<open>in_len + 1\<close> bytes it never reads or
  writes outside it, although it overwrites bytes it has not yet converted only behind its read
  position, and it returns what \<open>chunk_conv\<close> specifies for the chunk.
\<close>
theorem ascii_to_bin_correct:
  assumes "in_len < length buf"
  shows "\<exists>ret buf'. lfd_ascii_ascii_to_bin buf in_len prev_cr = Inr (ret, buf')
    \<and> length buf' = length buf \<and> p_buf ret + stored ret \<le> length buf
    \<and> (take (stored ret) (drop (p_buf ret) buf'), last_was_cr ret)
        = chunk_conv prev_cr (take in_len (drop 1 buf))"
  using assms by (rule ascii_to_bin_eq)

end
