(* ===== verification/Sess.thy ===== *)
theory Sess
  imports DirOps FileOps Utils
begin

text \<open>
  sess.c, sess.h and config.c: the state of a control connection and of its data connection, their
  creation and destruction, and the configuration.
\<close>

section \<open>Configuration\<close>

text \<open>
  The variables of config.c. Only the command line changes them, before the first session; a
  session reads them from its environment \<open>os\<close>, which adds them to the APR calls.
\<close>

record lfd_config =
  lfd_config_max_acceptloop_timeout :: int
  lfd_config_max_login_attempts :: int
  lfd_config_listen_port :: int
  lfd_config_data_port :: int
  lfd_config_connect_port :: int
  lfd_config_min_pasv_port :: int
  lfd_config_max_pasv_port :: int
  lfd_config_debug :: int
  lfd_config_listen_host :: string
  lfd_config_banner_string :: string
  lfd_config_backlog :: int
  lfd_config_max_sockets_to_try_to_bind :: int
  lfd_config_pasv_max_accept_tries :: int
  lfd_config_pasv_listen_socket_timeout :: int

definition lfd_config_default :: lfd_config where
  "lfd_config_default = \<lparr>
     lfd_config_max_acceptloop_timeout = APR_USEC_PER_SEC div 2,
     lfd_config_max_login_attempts = 3,
     lfd_config_listen_port = 21,
     lfd_config_data_port = 20,
     lfd_config_connect_port = 20,
     lfd_config_min_pasv_port = 1024,
     lfd_config_max_pasv_port = 65535,
     lfd_config_debug = 0,
     lfd_config_listen_host = ''localhost'',
     lfd_config_banner_string = ''Welcome to LklFtp Server.'' @ [CR],
     lfd_config_backlog = 5,
     lfd_config_max_sockets_to_try_to_bind = 10,
     lfd_config_pasv_max_accept_tries = 10,
     lfd_config_pasv_listen_socket_timeout = 10\<rparr>"

definition lfd_config_load :: "'w \<Rightarrow> int \<times> 'w" where
  "lfd_config_load w = (APR_SUCCESS, w)"

text \<open>
  \<open>stack_finfo\<close> is what an \<open>apr_finfo_t\<close> variable that has not been set yet happens to hold.
\<close>

record 'w server = "'w apr" +
  config :: lfd_config
  stack_finfo :: apr_finfo

section \<open>The session\<close>

text \<open>
  \<open>data_conn\<close> is allocated once by \<open>lfd_sess_create\<close> and is never null, so the record is part of
  the session's. The memory pools carry no state that the program reads back.
\<close>

record lfd_data_sess =
  data_conn_th :: "nat option"
  data_sock :: "sock option"
  in_progress :: int
  data_is_ascii :: int
  data_restart_pos :: int
  transfer_size :: apr_size_t
  abor_received :: int

record lfd_sess =
  data_conn :: lfd_data_sess
  comm_sock :: sock
  cmd_input_buffer :: string
  ftp_cmd_str :: cstr
  ftp_arg_str :: cstr
  cwd_path :: string
  pasv_listen_fd :: "sock option"
  p_port_sockaddr :: "apr_sockaddr option"
  restart_pos :: int
  is_ascii :: int

text \<open>
  What a session works on: its own record, the rest of the world, and the replies it has given so
  far, each as the code, the format and the arguments of the call that sent it. The program does
  not keep the replies; they are recorded for the statements about them.
\<close>

datatype reply = Reply (reply_code: int) (reply_text: string) (reply_args: "farg list")

record 'w st = lfd_sess +
  world :: 'w
  replies :: "reply list"

definition cmd_input_buffer_len :: nat where "cmd_input_buffer_len = 100"

definition fresh_data_sess :: lfd_data_sess where
  "fresh_data_sess = \<lparr>data_conn_th = None, data_sock = None, in_progress = 0, data_is_ascii = 0,
     data_restart_pos = 0, transfer_size = 0, abor_received = 0\<rparr>"

definition lfd_sess_create ::
    "('w, 'z) server_scheme \<Rightarrow> sock \<Rightarrow> 'w \<Rightarrow> int \<times> 'w st option \<times> 'w" where
  "lfd_sess_create os sk w =
     (case apr_pool_create os w of
        (rc, w) \<Rightarrow>
          if rc \<noteq> APR_SUCCESS then (rc, None, w)
          else (APR_SUCCESS,
            Some \<lparr>data_conn = fresh_data_sess, comm_sock = sk,
              cmd_input_buffer = replicate cmd_input_buffer_len NUL,
              ftp_cmd_str = None, ftp_arg_str = None, cwd_path = ''/'', pasv_listen_fd = None,
              p_port_sockaddr = None, restart_pos = 0, is_ascii = 0, world = w, replies = []\<rparr>, w))"

definition lfd_sess_destroy :: "('w, 'z) server_scheme \<Rightarrow> 'w st \<Rightarrow> 'w" where
  "lfd_sess_destroy os st = snd (apr_socket_close os (comm_sock st) (apr_pool_destroy os (world st)))"

definition lfd_data_sess_create :: "nat option \<Rightarrow> sock \<Rightarrow> lfd_data_sess \<Rightarrow> int \<times> lfd_data_sess" where
  "lfd_data_sess_create thd sk d =
     (APR_SUCCESS, d\<lparr>data_conn_th := thd, data_sock := Some sk, in_progress := 0\<rparr>)"

definition lfd_data_sess_destroy :: "('w, 'z) server_scheme \<Rightarrow> 'w st \<Rightarrow> 'w st res" where
  "lfd_data_sess_destroy os st =
     (case data_sock (data_conn st) of
        None \<Rightarrow> Inl Null_Deref
      | Some sk \<Rightarrow> Inr (st\<lparr>data_conn := (data_conn st)\<lparr>in_progress := 0\<rparr>,
          world := snd (apr_socket_close os sk (world st))\<rparr>))"

section \<open>The invariant of a session between commands\<close>

text \<open>
  The working directory begins and ends with a slash and holds no null character; not both an
  active and a passive address are configured; no data connection is open; and the features the
  server does not implement are off.
\<close>

definition wf_cwd :: "string \<Rightarrow> bool" where
  "wf_cwd p \<longleftrightarrow> p \<noteq> [] \<and> hd p = CHR ''/'' \<and> last p = CHR ''/'' \<and> NUL \<notin> set p"

definition exclusive :: "'w st \<Rightarrow> bool" where
  "exclusive st \<longleftrightarrow> p_port_sockaddr st = None \<or> pasv_listen_fd st = None"

definition idle :: "lfd_data_sess \<Rightarrow> bool" where
  "idle d \<longleftrightarrow> data_sock d = None \<and> in_progress d = 0 \<and> abor_received d = 0"

definition wf_arg :: "cstr \<Rightarrow> bool" where
  "wf_arg a \<longleftrightarrow> (case a of None \<Rightarrow> True | Some s \<Rightarrow> s \<noteq> [] \<and> NUL \<notin> set s)"

definition wf_sess :: "'w st \<Rightarrow> bool" where
  "wf_sess st \<longleftrightarrow> wf_cwd (cwd_path st) \<and> exclusive st \<and> idle (data_conn st)
     \<and> restart_pos st = 0 \<and> is_ascii st = 0 \<and> wf_arg (ftp_arg_str st)"

text \<open>What a step leaves alone, and that it answered the client.\<close>

definition kept :: "'w st \<Rightarrow> 'w st \<Rightarrow> bool" where
  "kept st st' \<longleftrightarrow> comm_sock st' = comm_sock st \<and> cmd_input_buffer st' = cmd_input_buffer st
     \<and> ftp_cmd_str st' = ftp_cmd_str st \<and> ftp_arg_str st' = ftp_arg_str st
     \<and> cwd_path st' = cwd_path st \<and> restart_pos st' = restart_pos st \<and> is_ascii st' = is_ascii st"

definition answered :: "'w st \<Rightarrow> 'w st \<Rightarrow> bool" where
  "answered st st' \<longleftrightarrow> (\<exists>r new. replies st' = replies st @ r # new)"

definition served :: "'w st \<Rightarrow> 'w st \<Rightarrow> bool" where
  "served st st' \<longleftrightarrow> wf_sess st' \<and> comm_sock st' = comm_sock st
     \<and> (\<exists>new. replies st' = replies st @ new)"

lemmas sess_defs = wf_sess_def kept_def answered_def served_def idle_def exclusive_def

lemma kept_wf:
  "wf_sess st \<Longrightarrow> kept st st' \<Longrightarrow> exclusive st' \<Longrightarrow> idle (data_conn st') \<Longrightarrow> wf_sess st'"
  by (auto simp: wf_sess_def kept_def)

lemma kept_refl [simp]: "kept st st"
  by (simp add: kept_def)

lemma served_trans: "served st st1 \<Longrightarrow> served st1 st2 \<Longrightarrow> served st st2"
  by (auto simp: served_def)

section \<open>The contract of a command handler\<close>

text \<open>
  Every handler is an operation on the session: it keeps the invariant, talks on the same control
  connection and only adds replies. \<open>E\<close> says which faults it may run into, \<open>D\<close> what the operation
  relies on in its environment. One that also answers whenever the session goes on is an
  answering operation.
\<close>

locale session_op =
  fixes opr :: "'w st \<Rightarrow> (int \<times> 'w st) res" and E :: "fault \<Rightarrow> bool" and D :: bool
  assumes opr_served: "D \<Longrightarrow> wf_sess st \<Longrightarrow> wp E (\<lambda>(rc, st'). served st st') (opr st)"

locale answering_op = session_op +
  assumes opr_answers: "D \<Longrightarrow> wf_sess st \<Longrightarrow>
    wp (\<lambda>_. True) (\<lambda>(rc, st'). rc = APR_SUCCESS \<longrightarrow> answered st st') (opr st)"
begin

lemma opr_contract:
  "D \<Longrightarrow> wf_sess st \<Longrightarrow>
     wp E (\<lambda>(rc, st'). served st st' \<and> (rc = APR_SUCCESS \<longrightarrow> answered st st')) (opr st)"
  using opr_served [of st] opr_answers [of st] by (cases "opr st") auto

end

lemma wf_cwd_root [simp]: "wf_cwd ''/''"
  by (simp add: wf_cwd_def NUL_def)

lemma wf_cwd_append: "wf_cwd p \<Longrightarrow> q \<noteq> [] \<Longrightarrow> last q = CHR ''/'' \<Longrightarrow> NUL \<notin> set q \<Longrightarrow> wf_cwd (p @ q)"
  by (simp add: wf_cwd_def)

lemma sess_create_wf:
  "lfd_sess_create os sk w = (rc, Some st, w') \<Longrightarrow> wf_sess st \<and> comm_sock st = sk \<and> replies st = []"
  by (auto simp: lfd_sess_create_def sess_defs wf_arg_def fresh_data_sess_def split: prod.splits if_splits)

end
