(* ===== verification/Cmdio.thy ===== *)
theory Cmdio
  imports Sess
begin

text \<open>
  cmdio.c and ftpcodes.h: writing a reply on the control connection and reading a command from it.
\<close>

section \<open>Reply codes\<close>

definition FTP_DATACONN :: int where "FTP_DATACONN = 150"
definition FTP_TYPEOK :: int where "FTP_TYPEOK = 200"
definition FTP_PORTOK :: int where "FTP_PORTOK = 200"
definition FTP_ALLOOK :: int where "FTP_ALLOOK = 202"
definition FTP_FEAT :: int where "FTP_FEAT = 211"
definition FTP_SITEHELP :: int where "FTP_SITEHELP = 214"
definition FTP_SYSTOK :: int where "FTP_SYSTOK = 215"
definition FTP_GREET :: int where "FTP_GREET = 220"
definition FTP_GOODBYE :: int where "FTP_GOODBYE = 221"
definition FTP_ABOR_NOCONN :: int where "FTP_ABOR_NOCONN = 225"
definition FTP_TRANSFEROK :: int where "FTP_TRANSFEROK = 226"
definition FTP_ABOROK :: int where "FTP_ABOROK = 226"
definition FTP_PASVOK :: int where "FTP_PASVOK = 227"
definition FTP_LOGINOK :: int where "FTP_LOGINOK = 230"
definition FTP_CWDOK :: int where "FTP_CWDOK = 250"
definition FTP_RMDIROK :: int where "FTP_RMDIROK = 250"
definition FTP_DELEOK :: int where "FTP_DELEOK = 250"
definition FTP_RENAMEOK :: int where "FTP_RENAMEOK = 250"
definition FTP_PWDOK :: int where "FTP_PWDOK = 257"
definition FTP_MKDIROK :: int where "FTP_MKDIROK = 257"
definition FTP_RNFROK :: int where "FTP_RNFROK = 350"
definition FTP_BADSENDCONN :: int where "FTP_BADSENDCONN = 425"
definition FTP_BADSENDNET :: int where "FTP_BADSENDNET = 426"
definition FTP_BADSENDFILE :: int where "FTP_BADSENDFILE = 451"
definition FTP_BADCMD :: int where "FTP_BADCMD = 500"
definition FTP_BADOPTS :: int where "FTP_BADOPTS = 501"
definition FTP_COMMANDNOTIMPL :: int where "FTP_COMMANDNOTIMPL = 502"
definition FTP_BADPROT :: int where "FTP_BADPROT = 503"
definition FTP_FILEFAIL :: int where "FTP_FILEFAIL = 550"
definition FTP_UPLOADFAIL :: int where "FTP_UPLOADFAIL = 553"
definition FTP_MORE :: int where "FTP_MORE = 100000"

lemmas ftp_codes = FTP_DATACONN_def FTP_TYPEOK_def FTP_PORTOK_def FTP_ALLOOK_def FTP_FEAT_def
  FTP_SITEHELP_def FTP_SYSTOK_def FTP_GREET_def FTP_GOODBYE_def FTP_ABOR_NOCONN_def
  FTP_TRANSFEROK_def FTP_ABOROK_def FTP_PASVOK_def FTP_LOGINOK_def FTP_CWDOK_def FTP_RMDIROK_def
  FTP_DELEOK_def FTP_RENAMEOK_def FTP_PWDOK_def FTP_MKDIROK_def FTP_RNFROK_def FTP_BADSENDCONN_def
  FTP_BADSENDNET_def FTP_BADSENDFILE_def FTP_BADCMD_def FTP_BADOPTS_def FTP_COMMANDNOTIMPL_def
  FTP_BADPROT_def FTP_FILEFAIL_def FTP_UPLOADFAIL_def FTP_MORE_def

section \<open>Writing a reply\<close>

text \<open>\<open>cmd_to_str\<close> overwrites the first four characters of its buffer.\<close>

definition cmd_to_str :: "int \<Rightarrow> string \<Rightarrow> string" where
  "cmd_to_str cmd buff =
     (let (sep, cmd) = (if cmd > FTP_MORE then (CHR ''-'', cmd - FTP_MORE) else (CHR '' '', cmd));
          d2 = char_of (48 + nat (cmd smod 10)); cmd = cmd sdiv 10;
          d1 = char_of (48 + nat (cmd smod 10)); cmd = cmd sdiv 10;
          d0 = char_of (48 + nat (cmd smod 10))
      in [d0, d1, d2, sep] @ drop 4 buff)"

definition reply_format :: "int \<Rightarrow> string \<Rightarrow> string" where
  "reply_format cmd msg = cmd_to_str cmd (''AAAA'' @ msg @ CRLF)"

definition lfd_cmdio_write ::
    "('w, 'z) server_scheme \<Rightarrow> int \<Rightarrow> string \<Rightarrow> farg list \<Rightarrow> 'w st \<Rightarrow> (int \<times> 'w st) res" where
  "lfd_cmdio_write os cmd msg args st =
     (case apr_pvsprintf os (reply_format cmd msg) args of
        None \<Rightarrow> Inl Bad_Format
      | Some buff \<Rightarrow>
          case apr_socket_send os (comm_sock st) buff (world st) of
            (rc, n, w) \<Rightarrow>
              Inr (rc, st\<lparr>world := w, replies := replies st @ [Reply cmd msg args]\<rparr>))"

text \<open>A reply changes the world and the record of replies, and nothing else of the session.\<close>

lemma write_frame [wp_spec]:
  "wp (\<lambda>e. e = Bad_Format) (\<lambda>(rc, st'). \<exists>w'. st' = st\<lparr>world := w',
      replies := replies st @ [Reply cmd msg args]\<rparr>) (lfd_cmdio_write os cmd msg args st)"
  by (auto simp: lfd_cmdio_write_def split: option.splits prod.splits)

text \<open>Formats without a conversion never fault.\<close>

lemma write_returns:
  assumes "apr_pvsprintf os (reply_format cmd msg) args = Some buff"
  shows "\<exists>rc w'. lfd_cmdio_write os cmd msg args st
    = Inr (rc, st\<lparr>world := w', replies := replies st @ [Reply cmd msg args]\<rparr>)"
  using assms by (auto simp: lfd_cmdio_write_def split: prod.splits)

lemma reply_format_eq:
  assumes "0 \<le> cmd" and "cmd < 1000"
  shows "reply_format cmd msg = [digit (nat (cmd div 100)), digit (nat (cmd div 10 mod 10)),
    digit (nat (cmd mod 10)), CHR '' ''] @ msg @ CRLF"
proof -
  have s: "x smod 10 = x mod 10" "x sdiv 10 = x div 10" if "0 \<le> x" for x :: int
    using that by (simp_all add: signed_modulo_int_def signed_divide_int_def sgn_if)
  have "cmd div 10 div 10 = cmd div 100" by (simp add: zdiv_zmult2_eq [symmetric])
  moreover have "cmd div 100 mod 10 = cmd div 100" using assms by simp
  ultimately show ?thesis
    using assms by (simp add: reply_format_def cmd_to_str_def FTP_MORE_def s digit_def Let_def)
qed

section \<open>Reading a command\<close>

definition FTP_ENDCOMMAND_SEQUENCE :: string where "FTP_ENDCOMMAND_SEQUENCE = CRLF"

text \<open>
  One call of \<open>apr_socket_recv\<close> fills the buffer of 100 bytes, cleared before; what it brings is
  taken for one command. The separators that \<open>apr_strtok\<close> overwrites in the buffer are not
  tracked, since the buffer is cleared before it is used again.
\<close>

definition parse_command ::
    "('w, 'z) server_scheme \<Rightarrow> string \<Rightarrow> (int \<times> cstr \<times> cstr) res" where
  "parse_command os buffer =
     bnd (c_string buffer) (\<lambda>line.
       Inr (case apr_strtok os '' '' line of
         None \<Rightarrow> (APR_INCOMPLETE, None, None)
       | Some (skipped, cmd_body, rest) \<Rightarrow>
           (APR_SUCCESS, Some cmd_body,
             case apr_strtok os FTP_ENDCOMMAND_SEQUENCE rest of
               None \<Rightarrow> None
             | Some (skipped, cmd_arg, rest) \<Rightarrow> Some cmd_arg)))"

definition lfd_cmdio_get_cmd_and_arg ::
    "('w, 'z) server_scheme \<Rightarrow> 'w st \<Rightarrow> (int \<times> 'w st) res" where
  "lfd_cmdio_get_cmd_and_arg os st =
     (case apr_socket_recv os (comm_sock st) cmd_input_buffer_len (world st) of
        (rc, bytes, w) \<Rightarrow>
          let buffer = bytes @ replicate (cmd_input_buffer_len - length bytes) NUL;
              st = st\<lparr>cmd_input_buffer := buffer, world := w\<rparr>
          in if length bytes = 0 then Inr (APR_EOF, st)
             else if rc \<noteq> APR_SUCCESS then Inr (rc, st)
             else bnd (parse_command os buffer) (\<lambda>(rc, cmd_body, cmd_arg).
               Inr (rc, st\<lparr>ftp_cmd_str := cmd_body, ftp_arg_str := cmd_arg\<rparr>)))"

section \<open>What they do\<close>

lemma digit_not_percent: "n < 10 \<Longrightarrow> digit n \<noteq> CHR ''%''"
proof
  assume "n < 10" and "digit n = CHR ''%''"
  then have "of_char (char_of (48 + n) :: char) = (of_char CHR ''%'' :: nat)"
    by (simp add: digit_def)
  with \<open>n < 10\<close> show False by simp
qed

lemma reply_plain:
  assumes "printf_doc (apr_pvsprintf os)" and "0 \<le> cmd" and "cmd < 1000"
    and "CHR ''%'' \<notin> set msg"
  shows "apr_pvsprintf os (reply_format cmd msg) args = Some (reply_format cmd msg)"
proof (rule printf_plain [OF assms(1)])
  have "CHR ''%'' \<noteq> digit (nat (cmd div 100))" "CHR ''%'' \<noteq> digit (nat (cmd div 10 mod 10))"
    "CHR ''%'' \<noteq> digit (nat (cmd mod 10))"
    using assms(2,3) by (auto intro!: digit_not_percent [symmetric])
  then show "CHR ''%'' \<notin> set (reply_format cmd msg)"
    using assms by (simp add: reply_format_eq CR_def LF_def)
qed

lemma write_plain:
  assumes "printf_doc (apr_pvsprintf os)" and "0 \<le> cmd" and "cmd < 1000"
    and "CHR ''%'' \<notin> set msg"
  shows "lfd_cmdio_write os cmd msg args st =
    (case apr_socket_send os (comm_sock st)
        ([digit (nat (cmd div 100)), digit (nat (cmd div 10 mod 10)), digit (nat (cmd mod 10)),
          CHR '' ''] @ msg @ CRLF) (world st) of
       (rc, n, w) \<Rightarrow> Inr (rc, st\<lparr>world := w, replies := replies st @ [Reply cmd msg args]\<rparr>))"
  using reply_plain [OF assms] reply_format_eq [OF assms(2,3)]
  by (simp add: lfd_cmdio_write_def)

text \<open>
  A reply without conversions puts one line on the wire: the three digits of its code, a
  space, the text, CR and LF. It is recorded, and nothing else of the session changes.
\<close>
theorem plain_reply_on_the_wire:
  assumes "printf_doc (apr_pvsprintf os)" and "0 \<le> cmd" and "cmd < 1000"
    and "CHR ''%'' \<notin> set msg"
  shows "lfd_cmdio_write os cmd msg args st =
    (case apr_socket_send os (comm_sock st)
        ([digit (nat (cmd div 100)), digit (nat (cmd div 10 mod 10)), digit (nat (cmd mod 10)),
          CHR '' ''] @ msg @ CRLF) (world st) of
       (rc, n, w) \<Rightarrow> Inr (rc, st\<lparr>world := w, replies := replies st @ [Reply cmd msg args]\<rparr>))"
  by (simp only: write_plain [OF assms])

text \<open>
  A line of a command word, a space and an argument, ended by CR LF and shorter than the
  buffer, is taken apart into the word and the argument.
\<close>
theorem command_line_parsed:
  assumes "strtok_doc (apr_strtok os)"
    and "apr_socket_recv os (comm_sock st) cmd_input_buffer_len (world st)
      = (APR_SUCCESS, c @ '' '' @ a @ CRLF @ tail, w)"
    and "length (c @ '' '' @ a @ CRLF @ tail) < cmd_input_buffer_len"
    and "c \<noteq> []" and "CHR '' '' \<notin> set c" and "a \<noteq> []" and "CR \<notin> set a" and "LF \<notin> set a"
    and "NUL \<notin> set (c @ a @ tail)"
  shows "\<exists>st'. lfd_cmdio_get_cmd_and_arg os st = Inr (APR_SUCCESS, st')
    \<and> st' = st\<lparr>cmd_input_buffer := cmd_input_buffer st', world := w,
        ftp_cmd_str := Some c, ftp_arg_str := Some a\<rparr>"
proof -
  let ?line = "c @ '' '' @ a @ CRLF @ tail"
  obtain k where k: "cmd_input_buffer_len - length ?line = Suc k"
    using assms(3) by (metis Suc_diff_Suc)
  have "NUL \<notin> set ?line" using assms(9) by (auto simp: NUL_def CR_def LF_def)
  then have "c_string (?line @ replicate (Suc k) NUL) = Inr ?line"
    using c_string_append [of ?line "replicate k NUL"] by simp
  moreover have "apr_strtok os '' '' ?line = Some ([], c, a @ CRLF @ tail)"
    using strtok_docD [OF assms(1), of "[]" "'' ''" c "CHR '' ''" "a @ CRLF @ tail"] assms(4,5)
    by simp
  moreover have "apr_strtok os CRLF (a @ CRLF @ tail) = Some ([], a, LF # tail)"
    using strtok_docD [OF assms(1), of "[]" CRLF a CR "LF # tail"] assms(6,7,8) by simp
  ultimately show ?thesis
    using assms(2) k
    by (simp add: lfd_cmdio_get_cmd_and_arg_def parse_command_def FTP_ENDCOMMAND_SEQUENCE_def
        Let_def del: append.simps replicate.simps)
qed

text \<open>
  A client that sends 100 bytes or more without a null character fills the whole buffer, and
  the parser runs past its end.
\<close>
theorem long_command_overruns:
  assumes "apr_socket_recv os (comm_sock st) cmd_input_buffer_len (world st)
      = (APR_SUCCESS, bytes, w)"
    and "length bytes = cmd_input_buffer_len" and "NUL \<notin> set bytes"
  shows "lfd_cmdio_get_cmd_and_arg os st = Inl Out_Of_Bounds"
  using assms
  by (auto simp: lfd_cmdio_get_cmd_and_arg_def parse_command_def c_string_None
      cmd_input_buffer_len_def Let_def)

end
