(* ===== verification/Connection.thy ===== *)
theory Connection
  imports Cmdio
begin

text \<open>
  connection.c: how the data connection is agreed on (PORT, PASV), opened and closed.
\<close>

section \<open>Forgetting what was agreed on\<close>

definition port_cleanup :: "'w st \<Rightarrow> 'w st" where
  "port_cleanup st = st\<lparr>p_port_sockaddr := None\<rparr>"

definition pasv_cleanup :: "('w, 'z) server_scheme \<Rightarrow> 'w st \<Rightarrow> 'w st" where
  "pasv_cleanup os st =
     (case pasv_listen_fd st of
        None \<Rightarrow> st
      | Some fd \<Rightarrow> st\<lparr>world := snd (apr_socket_close os fd (world st)), pasv_listen_fd := None\<rparr>)"

definition lfd_communication_cleanup :: "('w, 'z) server_scheme \<Rightarrow> 'w st \<Rightarrow> 'w st" where
  "lfd_communication_cleanup os st = pasv_cleanup os (port_cleanup st)"

lemma cleanup_fields [frame]:
  "\<exists>w. lfd_communication_cleanup os st = st\<lparr>world := w, p_port_sockaddr := None,
     pasv_listen_fd := None\<rparr>"
  by (cases st; cases "pasv_listen_fd st")
    (auto simp: lfd_communication_cleanup_def port_cleanup_def pasv_cleanup_def)

section \<open>A passive port\<close>

text \<open>
  The random number is scaled to the configured interval in 64 bits and then cut to 16.
\<close>

definition min_pasv_port :: "lfd_config \<Rightarrow> 16 word" where
  "min_pasv_port c = (if lfd_config_min_pasv_port c < 1023 then 1024
     else word_of_int (lfd_config_min_pasv_port c))"

definition max_pasv_port :: "lfd_config \<Rightarrow> 16 word" where
  "max_pasv_port c = (if lfd_config_min_pasv_port c > 65535 then 65535
     else word_of_int (lfd_config_max_pasv_port c))"

definition scale_port :: "16 word \<Rightarrow> 16 word \<Rightarrow> 16 word \<Rightarrow> 16 word" where
  "scale_port min_port max_port rand_port =
     (let range = word_of_int (uint max_port - uint min_port + 1) :: 64 word
      in ucast (range * ucast rand_port div ucast max_port + ucast min_port))"

definition rand16 :: "8 word list \<Rightarrow> 16 word" where
  "rand16 b = push_bit 8 (ucast (b ! 0)) OR ucast (b ! 1)"

definition SO_REUSEADDR :: string where "SO_REUSEADDR = ''SO_REUSEADDR''"
definition SO_KEEPALIVE :: string where "SO_KEEPALIVE = ''SO_KEEPALIVE''"
definition SO_LINGER :: string where "SO_LINGER = ''SO_LINGER''"
definition APR_INET :: int where "APR_INET = 2"

text \<open>One attempt: \<open>Some\<close> the port, the address and the bound socket, or \<open>None\<close> for the next try.\<close>

definition bind_attempt ::
    "('w, 'z) server_scheme \<Rightarrow> 'w \<Rightarrow> ((16 word \<times> apr_sockaddr \<times> sock) option \<times> 'w) res" where
  "bind_attempt os w =
     (let min_port = min_pasv_port (config os); max_port = max_pasv_port (config os) in
      case apr_generate_random_bytes os 2 w of
        (rc, randBuff, w) \<Rightarrow>
          if rc \<noteq> APR_SUCCESS then Inr (None, w)
          else if max_port = 0 then Inl Div_By_Zero
          else
            let rand_port = scale_port min_port max_port (rand16 randBuff) in
            case apr_sockaddr_info_get os (Some (lfd_config_listen_host (config os))) rand_port w of
              (rc, addrs, w) \<Rightarrow>
                if rc \<noteq> APR_SUCCESS then Inr (None, w)
                else case addrs of
                  [] \<Rightarrow> Inl Null_Deref
                | saddr # _ \<Rightarrow>
                    case apr_socket_create os (family saddr) w of
                      (rc, listen_fd, w) \<Rightarrow>
                        if rc \<noteq> APR_SUCCESS then Inr (None, w)
                        else case apr_socket_opt_set os listen_fd SO_REUSEADDR 1 w of
                          (rc, w) \<Rightarrow>
                            if rc \<noteq> APR_SUCCESS then Inr (None, w)
                            else case apr_socket_bind os listen_fd saddr w of
                              (rc, w) \<Rightarrow>
                                Inr (if rc = APR_SUCCESS then Some (rand_port, saddr, listen_fd)
                                     else None, w))"

text \<open>The counter is decremented before each attempt and is a 16-bit number.\<close>

definition bind_step ::
    "('w, 'z) server_scheme \<Rightarrow> 16 word \<times> 'w
      \<Rightarrow> (16 word \<times> 'w, (16 word \<times> apr_sockaddr \<times> sock) option \<times> 'w) ctl res" where
  "bind_step os = (\<lambda>(bind_retries, w).
     let bind_retries = bind_retries - 1
     in if bind_retries = 0 then Inr (Done (None, w))
        else bnd (bind_attempt os w) (\<lambda>(r, w).
          Inr (case r of None \<Rightarrow> Again (bind_retries, w) | Some x \<Rightarrow> Done (Some x, w))))"

definition bind_to_random_passive_port ::
    "('w, 'z) server_scheme \<Rightarrow> 'w st \<Rightarrow> (int \<times> (apr_sockaddr \<times> 16 word) option \<times> 'w st) res" where
  "bind_to_random_passive_port os st =
     bnd (run_loop (bind_step os)
            (word_of_int (lfd_config_max_sockets_to_try_to_bind (config os)), world st)) (\<lambda>(r, w).
       Inr (case r of
         None \<Rightarrow> (APR_ENOSOCKET, None, st\<lparr>world := w\<rparr>)
       | Some (port, saddr, fd) \<Rightarrow>
           (APR_SUCCESS, Some (saddr, port), st\<lparr>world := w, pasv_listen_fd := Some fd\<rparr>)))"

section \<open>Numbers separated by a character\<close>

text \<open>
  \<open>lfd_str_parse_uchar_string_sep\<close> stores the numbers one by one and gives up at the first
  that is not there or out of range; what it had stored by then stays. \<open>apr_strtoff\<close> reads from
  the start of the piece, separators that \<open>apr_strtok\<close> skipped included.
\<close>

fun parse_uchars :: "('w, 'z) apr_scheme \<Rightarrow> string \<Rightarrow> nat \<Rightarrow> string \<Rightarrow> bool \<times> nat list" where
  "parse_uchars os sep_str 0 input_str = (True, [])"
| "parse_uchars os sep_str (Suc more_items) input_str =
     (case apr_strtok os sep_str input_str of
        None \<Rightarrow> (False, [])
      | Some (skipped, str, rest) \<Rightarrow>
          if str = [] then (False, [])
          else if more_items > 0 \<and> length rest = 0 \<or> more_items = 0 \<and> length rest \<noteq> 0
          then (False, [])
          else case apr_strtoff os (skipped @ str) of
            (rc, this_number) \<Rightarrow>
              if rc \<noteq> APR_SUCCESS then (False, [])
              else if this_number < 0 \<or> this_number > 255 then (False, [])
              else case parse_uchars os sep_str more_items rest of
                (ok, items) \<Rightarrow> (ok, nat this_number # items))"

definition lfd_str_parse_uchar_string_sep ::
    "('w, 'z) apr_scheme \<Rightarrow> cstr \<Rightarrow> char \<Rightarrow> nat \<Rightarrow> (bool \<times> nat list) res" where
  "lfd_str_parse_uchar_string_sep os input_str sep items =
     (case input_str of
        None \<Rightarrow> if items = 0 then Inr (True, []) else Inl Null_Deref
      | Some s \<Rightarrow> Inr (parse_uchars os [sep] items s))"

lemma parse_uchars_ok:
  "parse_uchars os seps n s = (ok, xs) \<Longrightarrow>
     (ok \<longleftrightarrow> length xs = n) \<and> length xs \<le> n \<and> (\<forall>x\<in>set xs. x \<le> 255)"
proof (induction n arbitrary: s ok xs)
  case (Suc n)
  show ?case
  proof (cases "parse_uchars os seps (Suc n) s = (False, [])")
    case True
    with Suc.prems show ?thesis by simp
  next
    case False
    then obtain sk t r k where
      "apr_strtok os seps s = Some (sk, t, r)" "apr_strtoff os (sk @ t) = (0, k)" "0 \<le> k" "k \<le> 255"
      "parse_uchars os seps (Suc n) s
         = (case parse_uchars os seps n r of (ok, items) \<Rightarrow> (ok, nat k # items))"
      by (force split: option.splits prod.splits if_splits)
    with Suc show ?thesis by (cases "parse_uchars os seps n r") auto
  qed
qed simp

section \<open>PASV and PORT\<close>

definition PASV_MSG :: string where
  "PASV_MSG = ''Entering Passive Mode (%d,%d,%d,%d,%d,%d)''"

definition handle_pasv :: "('w, 'z) server_scheme \<Rightarrow> 'w st \<Rightarrow> (int \<times> 'w st) res" where
  "handle_pasv os st =
     (let st = lfd_communication_cleanup os st in
      bnd (bind_to_random_passive_port os st) (\<lambda>(rc, bound, st).
        case bound of
          None \<Rightarrow> Inr (rc, st)
        | Some (saddr, port) \<Rightarrow>
            case pasv_listen_fd st of
              None \<Rightarrow> Inl Null_Deref
            | Some fd \<Rightarrow>
                case apr_socket_listen os fd 1 (world st) of
                  (rc, w) \<Rightarrow>
                    let st = st\<lparr>world := w\<rparr> in
                    if rc \<noteq> APR_SUCCESS then Inr (rc, st)
                    else case apr_sockaddr_ip_get os saddr of
                      (rc, addr) \<Rightarrow>
                        if rc \<noteq> APR_SUCCESS then Inr (rc, st)
                        else
                          bnd (lfd_str_parse_uchar_string_sep os (Some addr) (CHR ''.'') 4)
                            (\<lambda>(ok, vals).
                              if length vals < 4 then Inl Uninitialised
                              else
                                lfd_cmdio_write os FTP_PASVOK PASV_MSG
                                  (map (\<lambda>v. Dec (int v)) vals
                                    @ [Dec (uint (drop_bit 8 port)), Dec (uint (port AND 0xFF))]) st)))"

definition handle_port :: "('w, 'z) server_scheme \<Rightarrow> 'w st \<Rightarrow> (int \<times> 'w st) res" where
  "handle_port os st =
     (let st = lfd_communication_cleanup os st in
      bnd (lfd_str_parse_uchar_string_sep os (ftp_arg_str st) (CHR '','') 6) (\<lambda>(ok, vals).
        if \<not> ok then
          bnd (lfd_cmdio_write os FTP_BADCMD ''Illegal PORT command.'' [] st) (\<lambda>(_, st).
            Inr (APR_EINVAL, st))
        else
          let the_port = push_bit 8 (of_nat (vals ! 4)) OR of_nat (vals ! 5) :: 16 word
          in case apr_pvsprintf os ''%d.%d.%d.%d'' (map (\<lambda>v. Dec (int v)) (take 4 vals)) of
               None \<Rightarrow> Inl Bad_Format
             | Some ip_str \<Rightarrow>
                 case apr_sockaddr_info_get os (Some ip_str) the_port (world st) of
                   (rc, addrs, w) \<Rightarrow>
                     let st = st\<lparr>world := w,
                           p_port_sockaddr := (case addrs of [] \<Rightarrow> None | a # _ \<Rightarrow> Some a)\<rparr>
                     in if rc \<noteq> APR_SUCCESS then
                          bnd (lfd_cmdio_write os FTP_BADCMD ''Illegal PORT command.'' [] st)
                            (\<lambda>(_, st). Inr (rc, st))
                        else
                          bnd (lfd_cmdio_write os FTP_PORTOK
                                ''PORT command successful. Consider using PASV.'' [] st)
                            (\<lambda>(_, st). Inr (APR_SUCCESS, st))))"

section \<open>Which one is active\<close>

text \<open>
  \<open>port_active\<close> and \<open>pasv_active\<close> call each other: the one function \<open>active\<close> with the address
  to look at. When both are configured the recursion never ends, which is the fault \<open>Diverge\<close>.
\<close>

datatype mode = PORT | PASV

definition configured :: "mode \<Rightarrow> 'w st \<Rightarrow> bool" where
  "configured m st = (case m of PORT \<Rightarrow> p_port_sockaddr st \<noteq> None | PASV \<Rightarrow> pasv_listen_fd st \<noteq> None)"

fun other :: "mode \<Rightarrow> mode" where
  "other PORT = PASV"
| "other PASV = PORT"

fun active_bug :: "mode \<Rightarrow> string" where
  "active_bug PORT = ''port and pasv both active''"
| "active_bug PASV = ''pasv and port both active''"

partial_function (option) active :: "'w st \<Rightarrow> mode \<Rightarrow> bool res option" where
  "active st m =
     (if configured m st then
        Option.bind (active st (other m)) (\<lambda>r. Some (bnd r (\<lambda>a. if a then bug (active_bug m) else Inr True)))
      else Some (Inr False))"

definition port_active :: "'w st \<Rightarrow> bool res" where
  "port_active st = (case active st PORT of None \<Rightarrow> Inl Diverge | Some r \<Rightarrow> r)"

definition pasv_active :: "'w st \<Rightarrow> bool res" where
  "pasv_active st = (case active st PASV of None \<Rightarrow> Inl Diverge | Some r \<Rightarrow> r)"

lemma active_one:
  assumes "p_port_sockaddr st = None \<or> pasv_listen_fd st = None"
  shows "port_active st = Inr (p_port_sockaddr st \<noteq> None)"
    and "pasv_active st = Inr (pasv_listen_fd st \<noteq> None)"
proof -
  have off: "active st m = Some (Inr False)" if "\<not> configured m st" for m
    using that by (subst active.simps) simp
  have on: "active st m = Some (Inr True)" if "configured m st" "\<not> configured (other m) st" for m
    using that by (subst active.simps) (simp add: off)
  show "port_active st = Inr (p_port_sockaddr st \<noteq> None)"
    using assms on [of PORT] off [of PORT]
    by (cases "p_port_sockaddr st") (auto simp: port_active_def configured_def)
  show "pasv_active st = Inr (pasv_listen_fd st \<noteq> None)"
    using assms on [of PASV] off [of PASV]
    by (cases "pasv_listen_fd st") (auto simp: pasv_active_def configured_def)
qed

lemma active_both:
  assumes "configured PORT st" and "configured PASV st"
  shows "active st m = None"
proof -
  have all: "configured m st" for m using assms by (cases m) simp_all
  have "st = st \<longrightarrow> False" if ret: "active st m = Some r" for r
  proof (rule active.raw_induct [where P = "\<lambda>s m r. s = st \<longrightarrow> False", OF _ ret])
    fix act s m r
    assume IH: "\<And>s m r. act s m = Some r \<Longrightarrow> s = st \<longrightarrow> False"
      and eq: "(if configured m s then Option.bind (act s (other m))
          (\<lambda>r. Some (bnd r (\<lambda>a. if a then bug (active_bug m) else Inr True)))
        else Some (Inr False)) = Some r"
    show "s = st \<longrightarrow> False"
    proof
      assume "s = st"
      with eq all [of m] obtain y where "act st (other m) = Some y"
        by (auto simp: bind_eq_Some_conv)
      from IH [OF this] show False by simp
    qed
  qed
  then show ?thesis by (cases "active st m") auto
qed

definition data_transfer_checks_ok ::
    "('w, 'z) server_scheme \<Rightarrow> 'w st \<Rightarrow> (bool \<times> 'w st) res" where
  "data_transfer_checks_ok os st =
     bnd (pasv_active st) (\<lambda>pasv.
     bnd (if pasv then Inr True else port_active st) (\<lambda>any.
       if \<not> any then
         bnd (lfd_cmdio_write os FTP_BADSENDCONN ''Use PORT or PASV first.'' [] st) (\<lambda>(_, st).
           Inr (False, st))
       else Inr (True, st)))"

section \<open>Opening and closing the data connection\<close>

definition init_data_sock_params ::
    "('w, 'z) server_scheme \<Rightarrow> sock option \<Rightarrow> 'w st \<Rightarrow> 'w st res" where
  "init_data_sock_params os sock_fd st =
     (if data_sock (data_conn st) \<noteq> None
      then bug ''data descriptor still present in init_data_sock_params''
      else
        let st = st\<lparr>data_conn := (data_conn st)\<lparr>data_sock := sock_fd, in_progress := 0\<rparr>\<rparr>
        in case sock_fd of
             None \<Rightarrow> Inl Null_Deref
           | Some fd \<Rightarrow>
               let w = snd (apr_socket_opt_set os fd SO_KEEPALIVE 1 (world st));
                   w = snd (apr_socket_opt_set os fd SO_LINGER 1 w)
               in Inr (st\<lparr>world := w\<rparr>))"

definition get_bound_and_connected_ftp_port_sock ::
    "('w, 'z) server_scheme \<Rightarrow> apr_sockaddr option \<Rightarrow> 'w \<Rightarrow> (int \<times> sock option \<times> 'w) res" where
  "get_bound_and_connected_ftp_port_sock os port_sockaddr w =
     (case apr_sockaddr_info_get os None (word_of_int (lfd_config_data_port (config os))) w of
        (rc, addrs, w) \<Rightarrow>
          if rc \<noteq> APR_SUCCESS then Inr (rc, None, w)
          else case apr_socket_create os APR_INET w of
            (rc, sk, w) \<Rightarrow>
              if rc \<noteq> APR_SUCCESS then Inr (rc, None, w)
              else case apr_socket_opt_set os sk SO_REUSEADDR 1 w of
                (rc, w) \<Rightarrow>
                  if rc \<noteq> APR_SUCCESS then Inr (rc, None, w)
                  else case addrs of
                    [] \<Rightarrow> Inl Null_Deref
                  | saddr # _ \<Rightarrow>
                      case apr_socket_bind os sk saddr w of
                        (rc, w) \<Rightarrow>
                          if rc \<noteq> APR_SUCCESS then Inr (rc, None, w)
                          else case port_sockaddr of
                            None \<Rightarrow> Inl Null_Deref
                          | Some remote \<Rightarrow>
                              case apr_socket_connect os sk remote w of
                                (rc, w) \<Rightarrow>
                                  Inr (if rc \<noteq> APR_SUCCESS then (rc, None, w)
                                       else (APR_SUCCESS, Some sk, w)))"

definition lfd_ftpdataio_get_pasv_fd ::
    "('w, 'z) server_scheme \<Rightarrow> 'w st \<Rightarrow> (int \<times> sock option \<times> 'w st) res" where
  "lfd_ftpdataio_get_pasv_fd os st =
     (case pasv_listen_fd st of
        None \<Rightarrow> Inl Null_Deref
      | Some fd \<Rightarrow>
          case apr_socket_accept os fd (world st) of
            (rc, psock, w) \<Rightarrow>
              let st = st\<lparr>world := w\<rparr> in
              if rc \<noteq> APR_SUCCESS then
                bnd (lfd_cmdio_write os FTP_BADSENDCONN ''Failed to accept connection.'' [] st)
                  (\<lambda>(_, st). Inr (rc, psock, st))
              else bnd (init_data_sock_params os psock st) (\<lambda>st. Inr (APR_SUCCESS, psock, st)))"

definition ftpdataio_get_port_fd ::
    "('w, 'z) server_scheme \<Rightarrow> 'w st \<Rightarrow> (int \<times> sock option \<times> 'w st) res" where
  "ftpdataio_get_port_fd os st =
     bnd (get_bound_and_connected_ftp_port_sock os (p_port_sockaddr st) (world st))
       (\<lambda>(rc, remote_fd, w).
         let st = st\<lparr>world := w\<rparr> in
         if rc \<noteq> APR_SUCCESS then
           bnd (lfd_cmdio_write os FTP_BADSENDCONN ''Failed to establish connection.'' [] st)
             (\<lambda>(_, st). Inr (rc, None, st))
         else bnd (init_data_sock_params os remote_fd st) (\<lambda>st. Inr (APR_SUCCESS, remote_fd, st)))"

definition lfd_get_remote_transfer_fd ::
    "('w, 'z) server_scheme \<Rightarrow> string \<Rightarrow> 'w st \<Rightarrow> (sock option \<times> 'w st) res" where
  "lfd_get_remote_transfer_fd os p_status_msg st =
     bnd (pasv_active st) (\<lambda>pasv.
     bnd (if pasv then Inr True else port_active st) (\<lambda>any.
       if \<not> any then bug ''neither PORT nor PASV active in get_remote_transfer_fd''
       else
         let st = st\<lparr>data_conn := (data_conn st)\<lparr>abor_received := 0\<rparr>\<rparr> in
         bnd (pasv_active st) (\<lambda>pasv.
         bnd (if pasv then lfd_ftpdataio_get_pasv_fd os st else ftpdataio_get_port_fd os st)
           (\<lambda>(_, remote_fd, st).
             case remote_fd of
               None \<Rightarrow> Inr (None, st)
             | Some fd \<Rightarrow>
                 bnd (lfd_cmdio_write os FTP_DATACONN p_status_msg [] st) (\<lambda>(_, st).
                   Inr (Some fd, st))))))"

definition lfd_dispose_transfer_fd :: "('w, 'z) server_scheme \<Rightarrow> 'w st \<Rightarrow> 'w st res" where
  "lfd_dispose_transfer_fd os st =
     (case data_sock (data_conn st) of
        None \<Rightarrow> Inl Null_Deref
      | Some fd \<Rightarrow>
          let w = snd (apr_socket_opt_set os fd SO_LINGER 0 (world st));
              w = snd (apr_socket_close os fd w)
          in Inr (st\<lparr>world := w, data_conn := (data_conn st)\<lparr>data_sock := None\<rparr>\<rparr>))"

end
