(* ===== verification/ConnProps.thy ===== *)
theory ConnProps
  imports Connection
begin

text \<open>
  Verification rules for the operations of cmdio.c and connection.c, in the form the proofs about
  the command handlers apply backwards, and the properties of the data-connection set-up.
\<close>

section \<open>Rules\<close>

text \<open>Every fault but \<open>bug\<close>, the one that takes the whole server down.\<close>

fun nobug :: "fault \<Rightarrow> bool" where
  "nobug (Bug t) = False"
| "nobug Null_Deref = True"
| "nobug Out_Of_Bounds = True"
| "nobug Bad_Format = True"
| "nobug Uninitialised = True"
| "nobug Div_By_Zero = True"
| "nobug Thread_Exit = False"
| "nobug (Process_Exit n) = False"
| "nobug Diverge = True"

lemma wp_write [wp_spec]:
  assumes "E Bad_Format"
    and "\<And>rc w'. Q (rc, st\<lparr>world := w', replies := replies st @ [Reply cmd msg args]\<rparr>)"
  shows "wp E Q (lfd_cmdio_write os cmd msg args st)"
  using write_frame [of st cmd msg args os] assms by (auto elim: wp_mono)

lemma wp_cleanup [wp_spec]:
  assumes "\<And>w'. Q (st\<lparr>world := w', p_port_sockaddr := None, pasv_listen_fd := None\<rparr>)"
  shows "Q (lfd_communication_cleanup os st)"
  using cleanup_fields [of os st] assms by auto

lemma wp_bind_attempt:
  "wp (\<lambda>e. e = Div_By_Zero \<or> e = Null_Deref) (\<lambda>_. True) (bind_attempt os w)"
  by (auto simp: bind_attempt_def Let_def split: prod.splits list.splits)

lemma bind_loop_returns:
  "wp (\<lambda>e. e = Div_By_Zero \<or> e = Null_Deref) (\<lambda>_. True) (run_loop (bind_step os) (n, w))"
proof (rule wp_run_loop_total [where I = "\<lambda>_. True" and \<mu> = "\<lambda>(r, w). unat (r - 1)"], goal_cases)
  case (2 x)
  obtain r v where x: "x = (r, v)" by (cases x)
  have "unat (r - 1 - 1) < unat (r - 1)" if "r - 1 \<noteq> 0"
    using that by (rule measure_unat)
  then show ?case
    unfolding x bind_step_def Let_def prod.case
    by (auto intro!: wp_mono [OF wp_bind_attempt] split: option.splits)
qed simp

lemma wp_bind_port [wp_spec]:
  assumes "E Div_By_Zero" and "E Null_Deref"
    and "\<And>w'. Q (APR_ENOSOCKET, None, st\<lparr>world := w'\<rparr>)"
    and "\<And>x w' fd. Q (APR_SUCCESS, Some x, st\<lparr>world := w', pasv_listen_fd := Some fd\<rparr>)"
  shows "wp E Q (bind_to_random_passive_port os st)"
  unfolding bind_to_random_passive_port_def wp_bnd
  by (rule wp_mono [OF bind_loop_returns]) (use assms in \<open>auto split: option.splits\<close>)

lemma wp_parse_uchars [wp_spec]:
  assumes "s = None \<Longrightarrow> E Null_Deref"
    and "\<And>ok xs. (ok \<longleftrightarrow> length xs = n) \<Longrightarrow> length xs \<le> n \<Longrightarrow> \<forall>x\<in>set xs. x \<le> 255 \<Longrightarrow> Q (ok, xs)"
  shows "wp E Q (lfd_str_parse_uchar_string_sep os s sep n)"
proof (cases s)
  case None
  then show ?thesis
    using assms(1) assms(2) [of True "[]"] by (simp add: lfd_str_parse_uchar_string_sep_def)
next
  case (Some t)
  obtain ok xs where p: "parse_uchars os [sep] n t = (ok, xs)" by (cases "parse_uchars os [sep] n t")
  from assms(2) [of ok xs] parse_uchars_ok [OF p] Some p show ?thesis
    by (simp add: lfd_str_parse_uchar_string_sep_def)
qed

lemma wp_init_data_sock [wp_spec]:
  assumes "data_sock (data_conn st) = None" and "sk = None \<Longrightarrow> E Null_Deref"
    and "\<And>w' fd. sk = Some fd \<Longrightarrow> Q (st\<lparr>data_conn := (data_conn st)\<lparr>data_sock := Some fd,
      in_progress := 0\<rparr>, world := w'\<rparr>)"
  shows "wp E Q (init_data_sock_params os sk st)"
  using assms by (auto simp: init_data_sock_params_def Let_def split: option.splits)

text \<open>What APR documents of \<open>accept\<close>: a socket on success and none otherwise.\<close>

definition accept_doc :: "('w, 'z) apr_scheme \<Rightarrow> bool" where
  "accept_doc os \<longleftrightarrow> (\<forall>fd w rc s w'. apr_socket_accept os fd w = (rc, s, w')
     \<longrightarrow> (rc = APR_SUCCESS \<longleftrightarrow> s \<noteq> None))"

text \<open>
  Opening the data connection: the session's data socket is what the call returned, at least one
  reply was given, and nothing else of the session has changed.
\<close>

definition opened :: "'w st \<Rightarrow> sock option \<Rightarrow> 'w st \<Rightarrow> bool" where
  "opened st fd st' \<longleftrightarrow> kept st st' \<and> answered st st' \<and> pasv_listen_fd st' = pasv_listen_fd st
     \<and> p_port_sockaddr st' = p_port_sockaddr st \<and> data_sock (data_conn st') = fd
     \<and> in_progress (data_conn st') = 0 \<and> abor_received (data_conn st') = 0"

text \<open>The step before the final reply, by either way of connecting.\<close>

definition connected :: "'w st \<Rightarrow> sock option \<Rightarrow> 'w st \<Rightarrow> bool" where
  "connected st fd st' \<longleftrightarrow> kept st st' \<and> pasv_listen_fd st' = pasv_listen_fd st
     \<and> p_port_sockaddr st' = p_port_sockaddr st \<and> data_sock (data_conn st') = fd
     \<and> in_progress (data_conn st') = 0 \<and> abor_received (data_conn st') = abor_received (data_conn st)
     \<and> (if fd = None then answered st st' else replies st' = replies st)"

lemmas conn_defs = kept_def answered_def opened_def connected_def idle_def exclusive_def

lemma wp_get_bound:
  "wp (\<lambda>e. e = Null_Deref) (\<lambda>(rc, fd, w'). rc = APR_SUCCESS \<longleftrightarrow> fd \<noteq> None)
     (get_bound_and_connected_ftp_port_sock os addr w)"
  by (auto simp: get_bound_and_connected_ftp_port_sock_def split: prod.splits list.splits option.splits)

lemma wp_get_port_fd:
  assumes "idle (data_conn st)"
  shows "wp nobug (\<lambda>(rc, fd, st'). connected st fd st') (ftpdataio_get_port_fd os st)"
  unfolding ftpdataio_get_port_fd_def wp_bnd
proof (rule wp_mono [OF wp_get_bound], goal_cases)
  case (2 a)
  obtain rc fd w' where a: "a = (rc, fd, w')" by (cases a) auto
  with 2 assms show ?case
    by (cases fd) (auto simp: Let_def conn_defs intro!: wp_write wp_init_data_sock)
qed simp

lemma wp_get_pasv_fd:
  assumes "idle (data_conn st)" and "accept_doc os"
  shows "wp nobug (\<lambda>(rc, fd, st'). connected st fd st') (lfd_ftpdataio_get_pasv_fd os st)"
proof (cases "pasv_listen_fd st")
  case (Some l)
  obtain rc fd w' where a: "apr_socket_accept os l (world st) = (rc, fd, w')"
    by (cases "apr_socket_accept os l (world st)") auto
  with assms(2) have "rc = APR_SUCCESS \<longleftrightarrow> fd \<noteq> None" unfolding accept_doc_def by blast
  with Some a assms(1) show ?thesis
    by (cases fd)
      (auto simp: lfd_ftpdataio_get_pasv_fd_def Let_def conn_defs intro!: wp_write wp_init_data_sock)
qed (simp add: lfd_ftpdataio_get_pasv_fd_def)

lemma wp_get_remote:
  assumes "idle (data_conn st)" and "exclusive st" and "accept_doc os"
  shows "wp (\<lambda>e. nobug e \<or> p_port_sockaddr st = None \<and> pasv_listen_fd st = None)
    (\<lambda>(fd, st'). opened st fd st') (lfd_get_remote_transfer_fd os msg st)"
proof -
  define st1 where "st1 = st\<lparr>data_conn := (data_conn st)\<lparr>abor_received := 0\<rparr>\<rparr>"
  have st1: "idle (data_conn st1)" "exclusive st1" "pasv_listen_fd st1 = pasv_listen_fd st"
    using assms by (simp_all add: st1_def idle_def exclusive_def)
  have act: "port_active st = Inr (p_port_sockaddr st \<noteq> None)"
    "pasv_active st = Inr (pasv_listen_fd st \<noteq> None)"
    "pasv_active st1 = Inr (pasv_listen_fd st \<noteq> None)"
    using active_one [of st] active_one [of st1] assms(2) st1 by (simp_all add: exclusive_def)
  have fin: "wp nobug (\<lambda>(fd, st'). opened st fd st')
      (case fd of None \<Rightarrow> Inr (None, st2)
       | Some fd \<Rightarrow> bnd (lfd_cmdio_write os FTP_DATACONN msg [] st2) (\<lambda>(_, st). Inr (Some fd, st)))"
    if "connected st1 fd st2" for fd st2
    using that assms(1)
    by (auto simp: conn_defs st1_def split: option.splits intro!: wp_write)
  have conn: "wp nobug (\<lambda>(rc, fd, st'). connected st1 fd st')
      (if pasv_listen_fd st \<noteq> None then lfd_ftpdataio_get_pasv_fd os st1
       else ftpdataio_get_port_fd os st1)"
    using wp_get_pasv_fd [OF st1(1) assms(3)] wp_get_port_fd [OF st1(1), where os = os] by simp
  have open': "wp nobug (\<lambda>(fd, st'). opened st fd st')
      (bnd (if pasv_listen_fd st \<noteq> None then lfd_ftpdataio_get_pasv_fd os st1
            else ftpdataio_get_port_fd os st1) (\<lambda>(_, fd, st2).
         case fd of None \<Rightarrow> Inr (None, st2)
         | Some fd \<Rightarrow> bnd (lfd_cmdio_write os FTP_DATACONN msg [] st2) (\<lambda>(_, st). Inr (Some fd, st))))"
    unfolding wp_bnd by (rule wp_mono [OF conn]) (use fin in \<open>auto simp del: wp_bnd\<close>)
  show ?thesis
  proof (cases "p_port_sockaddr st = None \<and> pasv_listen_fd st = None")
    case True
    then show ?thesis
      by (simp add: lfd_get_remote_transfer_fd_def act bug_def)
  next
    case False
    then have "lfd_get_remote_transfer_fd os msg st =
        bnd (if pasv_listen_fd st \<noteq> None then lfd_ftpdataio_get_pasv_fd os st1
            else ftpdataio_get_port_fd os st1) (\<lambda>(_, fd, st2).
         case fd of None \<Rightarrow> Inr (None, st2)
         | Some fd \<Rightarrow> bnd (lfd_cmdio_write os FTP_DATACONN msg [] st2) (\<lambda>(_, st). Inr (Some fd, st)))"
      by (auto simp: lfd_get_remote_transfer_fd_def act st1_def [symmetric] Let_def)
    then show ?thesis using wp_mono [OF open'] by (auto simp del: wp_bnd)
  qed
qed

lemma wp_dispose [wp_spec]:
  assumes "data_sock (data_conn st) \<noteq> None"
    and "\<And>w'. Q (st\<lparr>world := w', data_conn := (data_conn st)\<lparr>data_sock := None\<rparr>\<rparr>)"
  shows "wp E Q (lfd_dispose_transfer_fd os st)"
  using assms by (auto simp: lfd_dispose_transfer_fd_def Let_def)

section \<open>PASV and PORT\<close>

lemma wp_handle_pasv:
  assumes "wf_sess st"
  shows "wp nobug (\<lambda>(rc, st'). served st st' \<and> (rc = APR_SUCCESS \<longrightarrow> answered st st'))
    (handle_pasv os st)"
  unfolding handle_pasv_def Let_def wp_bnd
  by (rule wp_cleanup, rule wp_bind_port)
    (use assms in \<open>auto simp: sess_defs APR_ENOSOCKET_def Let_def split: prod.splits
      intro!: wp_parse_uchars wp_write\<close>)

lemma wp_handle_port:
  assumes "wf_sess st"
  shows "wp nobug (\<lambda>(rc, st'). served st st' \<and> answered st st') (handle_port os st)"
  unfolding handle_port_def Let_def wp_bnd
  by (rule wp_cleanup, rule wp_parse_uchars)
    (use assms in \<open>auto simp: sess_defs Let_def split: prod.splits option.splits list.splits
      intro!: wp_write\<close>)

lemma answering_opI:
  fixes opr :: "'w st \<Rightarrow> (int \<times> 'w st) res"
  assumes "\<And>st. D \<Longrightarrow> wf_sess st \<Longrightarrow>
    wp E (\<lambda>(rc, st'). served st st' \<and> (rc = APR_SUCCESS \<longrightarrow> answered st st')) (opr st)"
  shows "answering_op opr E D"
proof
  fix st :: "'w st"
  assume D and "wf_sess st"
  note w = assms [OF this]
  show "wp E (\<lambda>(rc, st'). served st st') (opr st)" by (rule wp_mono [OF w]) auto
  show "wp (\<lambda>_. True) (\<lambda>(rc, st'). rc = APR_SUCCESS \<longrightarrow> answered st st') (opr st)"
    by (rule wp_mono [OF w]) auto
qed

interpretation pasv: answering_op "handle_pasv os" nobug True for os
  by (rule answering_opI) (rule wp_handle_pasv)

interpretation port: answering_op "handle_port os" nobug True for os
  by (rule answering_opI, rule wp_mono [OF wp_handle_port]) auto

section \<open>Numbers and separators\<close>

text \<open>Up to 255, separated by a character that is no digit: the parser reads them back.\<close>

lemma parse_uchars_join:
  assumes "strtok_doc (apr_strtok os)" and "strtoff_doc (apr_strtoff os)" and "\<not> is_digit sep"
    and "xs \<noteq> []" and "\<forall>x\<in>set xs. x \<le> 255"
  shows "parse_uchars os [sep] (length xs) (join sep (map dec_nat xs)) = (True, xs)"
  using assms(4,5)
proof (induction xs rule: induct_list012)
  case (2 x)
  have "set (dec_nat x) \<inter> set [sep] = {}" using assms(3) dec_nat_digits by auto
  then have "apr_strtok os [sep] (dec_nat x) = Some ([], dec_nat x, [])"
    using strtok_docD_last [OF assms(1), of "[]" "[sep]" "dec_nat x"] by simp
  moreover have "apr_strtoff os (dec_nat x) = (0, int x)"
    using assms(2) 2 by (simp add: strtoff_doc_def)
  ultimately show ?case using 2 by simp
next
  case (3 x y zs)
  have "set (dec_nat x) \<inter> set [sep] = {}" using assms(3) dec_nat_digits by auto
  then have "apr_strtok os [sep] (dec_nat x @ sep # join sep (map dec_nat (y # zs)))
      = Some ([], dec_nat x, join sep (map dec_nat (y # zs)))"
    using strtok_docD [OF assms(1), of "[]" "[sep]" "dec_nat x" sep] by simp
  moreover have "apr_strtoff os (dec_nat x) = (0, int x)"
    using assms(2) 3 by (simp add: strtoff_doc_def)
  moreover have "join sep (map dec_nat (y # zs)) \<noteq> []" by (cases zs) simp_all
  ultimately show ?case using 3 by simp
qed simp

lemma parse_string_join:
  assumes "strtok_doc (apr_strtok os)" and "strtoff_doc (apr_strtoff os)" and "\<not> is_digit sep"
    and "xs \<noteq> []" and "\<forall>x\<in>set xs. x \<le> 255" and "length xs = n"
  shows "lfd_str_parse_uchar_string_sep os (Some (join sep (map dec_nat xs))) sep n = Inr (True, xs)"
  using parse_uchars_join [OF assms(1-5)] assms(6)
  by (simp add: lfd_str_parse_uchar_string_sep_def)

text \<open>A port number and its two bytes.\<close>

definition port_bytes :: "16 word \<Rightarrow> nat \<times> nat" where
  "port_bytes p = (unat (drop_bit 8 p), unat (p AND 0xFF))"

definition bytes_port :: "nat \<times> nat \<Rightarrow> 16 word" where
  "bytes_port b = push_bit 8 (of_nat (fst b)) OR of_nat (snd b)"

lemma low_byte: "p AND 0xFF = take_bit 8 (p :: 16 word)"
  by (simp add: take_bit_eq_mask mask_eq_exp_minus_1)

lemma bytes_port_bytes: "bytes_port (port_bytes p) = p"
proof -
  have "push_bit 8 (drop_bit 8 p) OR take_bit 8 p = p"
    by (rule bit_eqI) (auto simp: bit_or_iff bit_push_bit_iff bit_drop_bit_eq bit_take_bit_iff)
  then show ?thesis unfolding port_bytes_def bytes_port_def low_byte by simp
qed

lemma port_bytes_range: "fst (port_bytes p) \<le> 255" "snd (port_bytes p) \<le> 255"
proof -
  have "unat (drop_bit 8 p) = unat p div 256"
    unfolding unat_drop_bit_eq by (simp add: drop_bit_eq_div)
  moreover have "unat p < 65536" using unsigned_less [of p] by simp
  ultimately show "fst (port_bytes p) \<le> 255" by (simp add: port_bytes_def)
  have "unat (p AND 0xFF) = unat p mod 256"
    unfolding low_byte unsigned_take_bit_eq by (simp add: take_bit_eq_mod)
  then show "snd (port_bytes p) \<le> 255" by (simp add: port_bytes_def)
qed

interpretation port_codec: codec port_bytes bytes_port "\<lambda>_. True"
  by unfold_locales (rule bytes_port_bytes)

section \<open>Properties\<close>

text \<open>
  C22. When the session has both an active and a passive address, \<open>port_active\<close> and
  \<open>pasv_active\<close> never return instead of reporting the bug; otherwise they say whether theirs is
  configured.
\<close>
theorem active_decided:
  "port_active st = (if p_port_sockaddr st \<noteq> None \<and> pasv_listen_fd st \<noteq> None then Inl Diverge
     else Inr (p_port_sockaddr st \<noteq> None))
   \<and> pasv_active st = (if p_port_sockaddr st \<noteq> None \<and> pasv_listen_fd st \<noteq> None then Inl Diverge
     else Inr (pasv_listen_fd st \<noteq> None))"
proof (cases "p_port_sockaddr st \<noteq> None \<and> pasv_listen_fd st \<noteq> None")
  case True
  then have "active st m = None" for m by (intro active_both) (simp_all add: configured_def)
  with True show ?thesis by (simp add: port_active_def pasv_active_def)
qed (use active_one [of st] in auto)

lemma scale_eq: "scale_port 1024 65535 r = of_nat (64512 * unat r div 65535 + 1024)"
proof -
  let ?R = "ucast r :: 64 word"
  have r: "unat r < 65536" using unsigned_less [of r] by simp
  have R: "unat ?R = unat r"
    unfolding unsigned_ucast_eq using r by (simp add: take_bit_nat_eq_self_iff)
  have "unat (64512 * ?R) = 64512 * unat r"
    using r R by (subst unat_mult_lem [THEN iffD1]) simp_all
  then have "unat (64512 * ?R div 65535) = 64512 * unat r div 65535"
    by (simp add: unat_div_distrib)
  then have "unat (64512 * ?R div 65535 + 1024) = 64512 * unat r div 65535 + 1024"
    using r by (subst unat_add_lem [THEN iffD1]) simp_all
  then have v: "unat (64512 * ?R div 65535 + 1024) = 64512 * unat r div 65535 + 1024" .
  have "ucast x = (of_nat (unat x) :: 16 word)" for x :: "64 word" by simp
  from this [of "64512 * ?R div 65535 + 1024", unfolded v] show ?thesis
    by (simp add: scale_port_def Let_def)
qed

text \<open>
  C25. With the default interval every random number but the largest gives a passive port in it;
  the largest gives port 0.
\<close>
theorem passive_port_range:
  "scale_port 1024 65535 r =
     (if r = 65535 then 0 else of_nat (64512 * unat r div 65535 + 1024))
   \<and> (r \<noteq> 65535 \<longrightarrow> 1024 \<le> scale_port 1024 65535 r)"
proof -
  have eq: "scale_port 1024 65535 r = of_nat (64512 * unat r div 65535 + 1024)" by (rule scale_eq)
  show ?thesis
  proof (cases "r = 65535")
    case False
    have "unat r \<noteq> unat (65535 :: 16 word)" using False unfolding word_unat_eq_iff .
    then have "unat r \<noteq> 65535" by simp
    moreover have "unat r < 65536" using unsigned_less [of r] by simp
    ultimately have "64512 * unat r div 65535 + 1024 < 65536" by linarith
    then have "unat (scale_port 1024 65535 r) = 64512 * unat r div 65535 + 1024"
      unfolding eq unat_of_nat by (intro mod_less) simp
    then have "1024 \<le> scale_port 1024 65535 r" by (simp add: word_le_nat_alt)
    with False eq show ?thesis by simp
  next
    case True
    with eq show ?thesis by simp
  qed
qed

text \<open>
  C23. A PORT command whose argument is six numbers up to 255 sets the active address to the first
  four as an IP address and the last two as a port, forgets a passive one, and is confirmed.
\<close>
theorem port_command_sets_address:
  assumes "strtok_doc (apr_strtok os)" and "strtoff_doc (apr_strtoff os)"
    and "printf_doc (apr_pvsprintf os)" and "\<forall>x\<in>{a, b, c, d, p, q}. x \<le> 255"
    and "ftp_arg_str st = Some (join (CHR '','') (map dec_nat [a, b, c, d, p, q]))"
    and "lfd_communication_cleanup os st = st1"
    and "apr_sockaddr_info_get os (Some (join (CHR ''.'') (map dec_nat [a, b, c, d])))
      (bytes_port (p, q)) (world st1) = (APR_SUCCESS, addr # addrs, w)"
  shows "\<exists>st'. handle_port os st = Inr (APR_SUCCESS, st') \<and> p_port_sockaddr st' = Some addr
    \<and> pasv_listen_fd st' = None
    \<and> replies st' = replies st @ [Reply FTP_PORTOK
        ''PORT command successful. Consider using PASV.'' []]"
proof -
  let ?xs = "[a, b, c, d, p, q]"
  obtain w1 where st1: "st1 = st\<lparr>world := w1, p_port_sockaddr := None, pasv_listen_fd := None\<rparr>"
    using cleanup_fields [of os st] assms(6) by auto
  have "\<not> is_digit (CHR '','')" by (simp add: is_digit_def)
  then have "lfd_str_parse_uchar_string_sep os (Some (join (CHR '','') (map dec_nat ?xs))) (CHR '','') 6
      = Inr (True, ?xs)"
    by (rule parse_string_join [OF assms(1,2)]) (use assms(4) in auto)
  then have parse: "lfd_str_parse_uchar_string_sep os (ftp_arg_str st1) (CHR '','') 6 = Inr (True, ?xs)"
    using assms(5) st1 by (simp )
  have dec: "dec_int (int n) = dec_nat n" for n by (simp add: dec_int_def)
  have ip: "apr_pvsprintf os ''%d.%d.%d.%d'' [Dec (int a), Dec (int b), Dec (int c), Dec (int d)]
      = Some (join (CHR ''.'') (map dec_nat [a, b, c, d]))"
    by (simp add: printf_docD [OF assms(3)] dec)
  obtain rc n w2 where "apr_socket_send os (comm_sock st) (reply_format FTP_PORTOK
      ''PORT command successful. Consider using PASV.'') w = (rc, n, w2)"
    by (metis prod_cases3)
  then show ?thesis
    using assms(6,7) parse ip
      reply_plain [OF assms(3), of FTP_PORTOK "''PORT command successful. Consider using PASV.''" "[]"]
    by (simp add: handle_port_def Let_def bytes_port_def lfd_cmdio_write_def st1 ftp_codes)
qed

text \<open>
  C24. PASV announces exactly the address and the port that were bound: the two last numbers of
  its reply are the port's bytes, and they make up the port again.
\<close>
theorem pasv_announces_bound_port:
  assumes "strtok_doc (apr_strtok os)" and "strtoff_doc (apr_strtoff os)"
    and "\<forall>x\<in>{a, b, c, d}. x \<le> 255"
    and "bind_to_random_passive_port os (lfd_communication_cleanup os st)
      = Inr (APR_SUCCESS, Some (saddr, port), st1)"
    and "pasv_listen_fd st1 = Some fd" and "apr_socket_listen os fd 1 (world st1) = (APR_SUCCESS, w)"
    and "apr_sockaddr_ip_get os saddr = (APR_SUCCESS, join (CHR ''.'') (map dec_nat [a, b, c, d]))"
  shows "handle_pasv os st = lfd_cmdio_write os FTP_PASVOK PASV_MSG
      (map (\<lambda>v. Dec (int v)) [a, b, c, d, fst (port_bytes port), snd (port_bytes port)])
      (st1\<lparr>world := w\<rparr>)
    \<and> bytes_port (port_bytes port) = port"
proof -
  let ?xs = "[a, b, c, d]"
  have "\<not> is_digit (CHR ''.'')" by (simp add: is_digit_def)
  then have "lfd_str_parse_uchar_string_sep os (Some (join (CHR ''.'') (map dec_nat ?xs))) (CHR ''.'') 4
      = Inr (True, ?xs)"
    by (rule parse_string_join [OF assms(1,2)]) (use assms(3) in auto)
  with assms(4-7) show ?thesis
    by (simp add: handle_pasv_def Let_def port_bytes_def bytes_port_bytes [unfolded port_bytes_def])
qed

text \<open>
  When the server's own address is not a dotted quad, PASV reads the numbers that the failed
  parse has never set.
\<close>
theorem pasv_without_dots_uninitialised:
  assumes "strtok_doc (apr_strtok os)" and "CHR ''.'' \<notin> set addr" and "addr \<noteq> []"
    and "bind_to_random_passive_port os (lfd_communication_cleanup os st)
      = Inr (APR_SUCCESS, Some (saddr, port), st1)"
    and "pasv_listen_fd st1 = Some fd" and "apr_socket_listen os fd 1 (world st1) = (APR_SUCCESS, w)"
    and "apr_sockaddr_ip_get os saddr = (APR_SUCCESS, addr)"
  shows "handle_pasv os st = Inl Uninitialised"
proof -
  have "apr_strtok os ''.'' addr = Some ([], addr, [])"
    using strtok_docD_last [OF assms(1), of "[]" "''.''" addr] assms(2,3) by auto
  then have "parse_uchars os ''.'' 4 addr = (False, [])"
    by (simp add: eval_nat_numeral)
  with assms(4-7) show ?thesis
    by (simp add: handle_pasv_def Let_def lfd_str_parse_uchar_string_sep_def)
qed

text \<open>
  Binding a passive port always comes to an end: it fails with \<open>APR_ENOSOCKET\<close> and leaves the
  session's sockets as they were, or sets the listening socket, or runs into a missing address
  or a zero upper bound.
\<close>
theorem bind_passive_port_ends:
  "wp (\<lambda>e. e = Div_By_Zero \<or> e = Null_Deref) (\<lambda>(rc, bound, st').
      if bound = None then rc = APR_ENOSOCKET \<and> st' = st\<lparr>world := world st'\<rparr>
      else rc = APR_SUCCESS \<and> (\<exists>fd. st' = st\<lparr>world := world st', pasv_listen_fd := Some fd\<rparr>))
    (bind_to_random_passive_port os st)"
  by (rule wp_bind_port) auto

text \<open>
  Opening the data connection when one of PORT and PASV has been given cannot run into \<open>bug\<close>,
  answers the client, and leaves the session with the data socket it returns.
\<close>
theorem transfer_fd_opened:
  assumes "idle (data_conn st)" and "exclusive st" and "accept_doc os"
    and "p_port_sockaddr st \<noteq> None \<or> pasv_listen_fd st \<noteq> None"
  shows "wp nobug (\<lambda>(fd, st'). opened st fd st') (lfd_get_remote_transfer_fd os msg st)"
  using assms(4) by (intro wp_mono [OF wp_get_remote [OF assms(1-3)]]) auto

end
