(* ===== verification/CmdHandler.thy ===== *)
theory CmdHandler
  imports ConnProps
begin

text \<open>
  The handlers of cmdhandler.c that need no data connection: login, status, directories, renaming,
  deleting. Theories Transfers and Listing hold the others.
\<close>

section \<open>Login, status, session end\<close>

definition handle_user :: "('w, 'z) server_scheme \<Rightarrow> 'w st \<Rightarrow> (int \<times> 'w st) res" where
  "handle_user os st = lfd_cmdio_write os FTP_LOGINOK ''Login successful.'' [] st"

definition handle_pass :: "('w, 'z) server_scheme \<Rightarrow> 'w st \<Rightarrow> (int \<times> 'w st) res" where
  "handle_pass os st = lfd_cmdio_write os FTP_LOGINOK ''Login successful.'' [] st"

definition handle_syst :: "('w, 'z) server_scheme \<Rightarrow> 'w st \<Rightarrow> (int \<times> 'w st) res" where
  "handle_syst os st = lfd_cmdio_write os FTP_SYSTOK ''UNIX Type: L8'' [] st"

definition handle_quit :: "('w, 'z) server_scheme \<Rightarrow> 'w st \<Rightarrow> (int \<times> 'w st) res" where
  "handle_quit os st =
     bnd (if in_progress (data_conn st) \<noteq> 0 then
            lfd_data_sess_destroy os
              (st\<lparr>world := snd (apr_thread_join os (data_conn_th (data_conn st)) (world st))\<rparr>)
          else Inr st) (\<lambda>st.
     bnd (lfd_cmdio_write os FTP_GOODBYE ''See you later, aligator.'' [] st) (\<lambda>(_, st).
       Inr (APR_SUCCESS, st)))"

definition handle_abort :: "('w, 'z) server_scheme \<Rightarrow> 'w st \<Rightarrow> (int \<times> 'w st) res" where
  "handle_abort os st =
     (if in_progress (data_conn st) = 0 then
        bnd (lfd_cmdio_write os FTP_ABOR_NOCONN ''Nothing to abort.'' [] st) (\<lambda>(_, st).
          Inr (APR_SUCCESS, st))
      else if data_conn_th (data_conn st) \<noteq> None then Inl Thread_Exit
      else
        bnd (lfd_data_sess_destroy os st) (\<lambda>st.
        bnd (lfd_cmdio_write os FTP_ABOROK ''File transfer aborted.'' [] st) (\<lambda>(_, st).
          Inr (APR_SUCCESS, st))))"

definition handle_type :: "('w, 'z) server_scheme \<Rightarrow> 'w st \<Rightarrow> (int \<times> 'w st) res" where
  "handle_type os st =
     bnd (lfd_cmdio_write os FTP_TYPEOK ''TYPE ok'' [] st) (\<lambda>(_, st). Inr (APR_SUCCESS, st))"

text \<open>\<open>apr_strnatcasecmp\<close> reads both its strings, so SITE without an argument is a null pointer.\<close>

definition handle_site :: "('w, 'z) server_scheme \<Rightarrow> 'w st \<Rightarrow> (int \<times> 'w st) res" where
  "handle_site os st =
     (case ftp_arg_str st of
        None \<Rightarrow> Inl Null_Deref
      | Some arg \<Rightarrow>
          if apr_strnatcasecmp os ''CHMOD'' arg = 0 then Inr (APR_SUCCESS, st)
          else if apr_strnatcasecmp os ''UMASK'' arg = 0 then Inr (APR_SUCCESS, st)
          else if apr_strnatcasecmp os ''HELP'' arg = 0 then
            lfd_cmdio_write os FTP_SITEHELP ''CHMOD UMASK HELP'' [] st
          else lfd_cmdio_write os FTP_BADCMD ''Unknown SITE command.'' [] st)"

definition handle_feat :: "('w, 'z) server_scheme \<Rightarrow> 'w st \<Rightarrow> (int \<times> 'w st) res" where
  "handle_feat os st =
     bnd (lfd_cmdio_write os (FTP_FEAT + FTP_MORE) ''Features:'' [] st) (\<lambda>(_, st).
     bnd (lfd_cmdio_write os FTP_FEAT ''End'' [] st) (\<lambda>(_, st).
       Inr (APR_SUCCESS, st)))"

section \<open>Paths\<close>

definition get_abs_path :: "cstr \<Rightarrow> 'w st \<Rightarrow> cstr" where
  "get_abs_path path st =
     (case path of
        None \<Rightarrow> None
      | Some [] \<Rightarrow> None
      | Some (c # p) \<Rightarrow> if c = CHR ''/'' then Some (c # p) else Some (cwd_path st @ c # p))"

text \<open>A string argument of printf; glibc and APR print a null pointer as \<open>(null)\<close>.\<close>

definition cstr_arg :: "cstr \<Rightarrow> farg" where
  "cstr_arg s = Str (case s of None \<Rightarrow> ''(null)'' | Some t \<Rightarrow> t)"

definition NO_ARG :: string where "NO_ARG = ''Command must have an argument.''"

definition handle_dir_remove :: "('w, 'z) server_scheme \<Rightarrow> 'w st \<Rightarrow> (int \<times> 'w st) res" where
  "handle_dir_remove os st =
     (if ftp_arg_str st = None then lfd_cmdio_write os FTP_FILEFAIL NO_ARG [] st
      else case get_abs_path (ftp_arg_str st) st of
        None \<Rightarrow>
          bnd (lfd_cmdio_write os FTP_FILEFAIL ''The server has encountered an error.'' [] st)
            (\<lambda>(_, st). Inr (APR_EINVAL, st))
      | Some rpath \<Rightarrow>
          case lkl_dir_remove os (Some rpath) (world st) of
            (rc, w) \<Rightarrow>
              let st = st\<lparr>world := w\<rparr> in
              if rc \<noteq> APR_SUCCESS then
                lfd_cmdio_write os FTP_FILEFAIL ''Cannot remove directory %s.'' [Str rpath] st
              else lfd_cmdio_write os FTP_RMDIROK ''%s Directory deleted.'' [Str rpath] st)"

definition handle_dir_create :: "('w, 'z) server_scheme \<Rightarrow> 'w st \<Rightarrow> (int \<times> 'w st) res" where
  "handle_dir_create os st =
     (if ftp_arg_str st = None then lfd_cmdio_write os FTP_FILEFAIL NO_ARG [] st
      else case get_abs_path (ftp_arg_str st) st of
        None \<Rightarrow>
          bnd (lfd_cmdio_write os FTP_FILEFAIL
                ''The server has encountered an error processing the path.'' [] st)
            (\<lambda>(_, st). Inr (APR_EINVAL, st))
      | Some rpath \<Rightarrow>
          case lkl_stat os (stack_finfo os) (Some rpath) APR_FINFO_TYPE (world st) of
            (rc, finfo, w) \<Rightarrow>
              if rc = APR_SUCCESS then
                lfd_cmdio_write os FTP_FILEFAIL ''%s Directory exists.'' [Str rpath] (st\<lparr>world := w\<rparr>)
              else
                case lkl_dir_make os (Some rpath) APR_OS_DEFAULT w of
                  (rc, w) \<Rightarrow>
                    let st = st\<lparr>world := w\<rparr> in
                    if rc \<noteq> APR_SUCCESS then
                      lfd_cmdio_write os FTP_FILEFAIL ''Cannot create directory %s.'' [Str rpath] st
                    else lfd_cmdio_write os FTP_MKDIROK ''%s Directory created.'' [Str rpath] st)"

text \<open>PWD hands the directory to the reply as its format.\<close>

definition handle_pwd :: "('w, 'z) server_scheme \<Rightarrow> 'w st \<Rightarrow> (int \<times> 'w st) res" where
  "handle_pwd os st = lfd_cmdio_write os FTP_PWDOK (cwd_path st) [] st"

section \<open>Changing the directory\<close>

text \<open>
  The loop of CDUP: from position \<open>i\<close> back to the first slash, or to the start. The position
  before the final slash exists in any path of two characters.
\<close>

fun cdup_pos :: "string \<Rightarrow> nat \<Rightarrow> nat" where
  "cdup_pos p 0 = 0"
| "cdup_pos p (Suc i) = (if p ! Suc i = CHR ''/'' then Suc i else cdup_pos p i)"

definition handle_cdup :: "('w, 'z) server_scheme \<Rightarrow> 'w st \<Rightarrow> (int \<times> 'w st) res" where
  "handle_cdup os st =
     (let len = length (cwd_path st) in
      if len = 1 then lfd_cmdio_write os FTP_ALLOOK ''Already in root directory.'' [] st
      else if len = 0 then Inl Out_Of_Bounds
      else
        let pos = cdup_pos (cwd_path st) (len - 2);
            st = st\<lparr>cwd_path := take (pos + 1) (cwd_path st)\<rparr>
        in lfd_cmdio_write os FTP_ALLOOK ''Changed to directory [%s].'' [Str (cwd_path st)] st)"

definition CWD_MSG :: string where "CWD_MSG = ''Directory changed to [%s].''"

definition handle_cwd :: "('w, 'z) server_scheme \<Rightarrow> 'w st \<Rightarrow> (int \<times> 'w st) res" where
  "handle_cwd os st =
     (case ftp_arg_str st of
        None \<Rightarrow> lfd_cmdio_write os FTP_FILEFAIL NO_ARG [] st
      | Some arg \<Rightarrow>
          if arg = ''.'' then lfd_cmdio_write os FTP_CWDOK CWD_MSG [Str (cwd_path st)] st
          else if arg = ''..'' then handle_cdup os st
          else case get_abs_path (Some arg) st of
            None \<Rightarrow>
              bnd (lfd_cmdio_write os FTP_FILEFAIL
                    ''The server has encountered an error processing the path'' [] st)
                (\<lambda>(_, st). Inr (APR_EINVAL, st))
          | Some path \<Rightarrow>
              let path = (if last path \<noteq> CHR ''/'' then path @ ''/'' else path) in
              case lkl_stat os (stack_finfo os) (Some path) APR_FINFO_TYPE (world st) of
                (rc, finfo, w) \<Rightarrow>
                  let st = st\<lparr>world := w\<rparr> in
                  if rc \<noteq> APR_SUCCESS \<or> fi_filetype finfo \<noteq> APR_DIR then
                    lfd_cmdio_write os FTP_FILEFAIL ''%s is not a directory.'' [Str path] st
                  else
                    let st = st\<lparr>cwd_path := path\<rparr>
                    in lfd_cmdio_write os FTP_CWDOK CWD_MSG [Str (cwd_path st)] st)"

section \<open>Renaming and deleting\<close>

text \<open>RNFR also hands out the path it has looked up, or nothing.\<close>

definition handle_rnfr :: "('w, 'z) server_scheme \<Rightarrow> 'w st \<Rightarrow> (int \<times> cstr \<times> 'w st) res" where
  "handle_rnfr os st =
     (case ftp_arg_str st of
        None \<Rightarrow>
          bnd (lfd_cmdio_write os FTP_FILEFAIL ''Bad command argument.'' [] st) (\<lambda>(rc, st).
            Inr (rc, None, st))
      | Some arg \<Rightarrow>
          case get_abs_path (Some arg) st of
            None \<Rightarrow>
              bnd (lfd_cmdio_write os FTP_FILEFAIL ''The server has encountered an error.'' [] st)
                (\<lambda>(_, st). Inr (APR_EINVAL, None, st))
          | Some path \<Rightarrow>
              case lkl_stat os (stack_finfo os) (Some path) APR_FINFO_TYPE (world st) of
                (rc, finfo, w) \<Rightarrow>
                  let st = st\<lparr>world := w\<rparr> in
                  if rc \<noteq> APR_SUCCESS \<or> fi_filetype finfo \<noteq> APR_REG \<and> fi_filetype finfo \<noteq> APR_DIR
                  then
                    bnd (lfd_cmdio_write os FTP_FILEFAIL ''%s is not a directory or a file.''
                          [Str arg] st) (\<lambda>(rc, st). Inr (rc, None, st))
                  else
                    bnd (lfd_cmdio_write os FTP_RNFROK
                          ''Requested file action pending further information.'' [] st)
                      (\<lambda>(rc, st). Inr (rc, Some path, st)))"

definition handle_bad_rnto :: "('w, 'z) server_scheme \<Rightarrow> 'w st \<Rightarrow> (int \<times> 'w st) res" where
  "handle_bad_rnto os st = lfd_cmdio_write os FTP_BADPROT ''Bad sequence of commands.'' [] st"

definition handle_rnto :: "('w, 'z) server_scheme \<Rightarrow> cstr \<Rightarrow> 'w st \<Rightarrow> (int \<times> 'w st) res" where
  "handle_rnto os old_path st =
     (if ftp_arg_str st = None
      then lfd_cmdio_write os FTP_BADOPTS ''Bad command argument.'' [] st
      else
        let path = get_abs_path (ftp_arg_str st) st in
        case lkl_file_rename os old_path path (world st) of
          (rc, w) \<Rightarrow>
            let st = st\<lparr>world := w\<rparr> in
            if rc \<noteq> APR_SUCCESS then
              lfd_cmdio_write os FTP_BADOPTS ''Cannot rename directory/file %s.'' [cstr_arg path] st
            else
              lfd_cmdio_write os FTP_RENAMEOK ''Directory/file was succesfully renamed.'' [] st)"

definition handle_dele :: "('w, 'z) server_scheme \<Rightarrow> 'w st \<Rightarrow> (int \<times> 'w st) res" where
  "handle_dele os st =
     (if ftp_arg_str st = None
      then lfd_cmdio_write os FTP_BADOPTS ''Bad command argument.'' [] st
      else case get_abs_path (ftp_arg_str st) st of
        None \<Rightarrow>
          bnd (lfd_cmdio_write os FTP_BADOPTS ''The server has encountered an error.'' [] st)
            (\<lambda>(_, st). Inr (APR_EINVAL, st))
      | Some path \<Rightarrow>
          case lkl_file_remove os (Some path) (world st) of
            (rc, w) \<Rightarrow>
              let st = st\<lparr>world := w\<rparr> in
              if rc \<noteq> APR_SUCCESS then
                lfd_cmdio_write os FTP_FILEFAIL
                  ''Requested action not taken. File unavailable.'' [] st
              else lfd_cmdio_write os FTP_DELEOK ''File deleted.'' [] st)"

end
