(* ===== verification/CmdProps.thy ===== *)
theory CmdProps
  imports CmdHandler
begin

text \<open>
  The handlers of theory CmdHandler keep the contract of a command handler, and what they do:
  directory navigation, renaming, deleting, the replies.
\<close>

section \<open>Paths\<close>

lemma abs_path_NUL:
  "wf_sess st \<Longrightarrow> wf_arg a \<Longrightarrow> get_abs_path a st = Some p \<Longrightarrow> p \<noteq> [] \<and> hd p = CHR ''/'' \<and> NUL \<notin> set p"
  by (auto simp: get_abs_path_def wf_arg_def wf_sess_def wf_cwd_def hd_append
      split: option.splits list.splits if_splits)

lemma abs_path_arg:
  assumes "get_abs_path a st = Some p"
  obtains x where "a = Some x"
  using assms by (cases a) (simp_all add: get_abs_path_def)

lemma cdup_pos_le: "cdup_pos p i \<le> i"
  by (induction i) (auto intro: le_SucI)

lemma cdup_pos_slash: "cdup_pos p i = 0 \<or> p ! cdup_pos p i = CHR ''/''"
  by (induction i) auto

lemma cdup_pos_eq:
  "j \<le> i \<Longrightarrow> p ! j = CHR ''/'' \<Longrightarrow> (\<And>k. j < k \<Longrightarrow> k \<le> i \<Longrightarrow> p ! k \<noteq> CHR ''/'') \<Longrightarrow> cdup_pos p i = j"
proof (induction i)
  case (Suc i)
  then show ?case by (cases "j = Suc i") (auto simp: le_Suc_eq)
qed simp

lemma cdup_wf:
  assumes "wf_cwd p" and "length p \<noteq> 1"
  shows "wf_cwd (take (cdup_pos p (length p - 2) + 1) p)"
proof -
  let ?i = "cdup_pos p (length p - 2)"
  have p: "p \<noteq> []" "hd p = CHR ''/''" "NUL \<notin> set p" using assms(1) by (auto simp: wf_cwd_def)
  have i: "?i + 1 \<le> length p"
    using cdup_pos_le [of p "length p - 2"] p(1) assms(2) by (cases p) auto
  have "last (take (?i + 1) p) = p ! ?i" using i by (simp add: take_Suc_conv_app_nth)
  moreover have "p ! 0 = CHR ''/''" using p by (simp add: hd_conv_nth)
  ultimately have "last (take (?i + 1) p) = CHR ''/''" using cdup_pos_slash [of p] by metis
  with p show ?thesis by (auto simp: wf_cwd_def dest: in_set_takeD)
qed

section \<open>The contracts\<close>

lemma wp_handle_user: "wf_sess st \<Longrightarrow> wp nobug (\<lambda>(rc, st'). served st st' \<and> answered st st')
    (handle_user os st)"
  by (auto simp: handle_user_def sess_defs intro!: wp_write)

lemma wp_handle_pass: "wf_sess st \<Longrightarrow> wp nobug (\<lambda>(rc, st'). served st st' \<and> answered st st')
    (handle_pass os st)"
  by (auto simp: handle_pass_def sess_defs intro!: wp_write)

lemma wp_handle_syst: "wf_sess st \<Longrightarrow> wp nobug (\<lambda>(rc, st'). served st st' \<and> answered st st')
    (handle_syst os st)"
  by (auto simp: handle_syst_def sess_defs intro!: wp_write)

lemma wp_handle_quit: "wf_sess st \<Longrightarrow> wp nobug (\<lambda>(rc, st'). served st st' \<and> answered st st')
    (handle_quit os st)"
  by (auto simp: handle_quit_def sess_defs intro!: wp_write)

lemma wp_handle_abort: "wf_sess st \<Longrightarrow> wp nobug (\<lambda>(rc, st'). served st st' \<and> answered st st')
    (handle_abort os st)"
  by (auto simp: handle_abort_def sess_defs intro!: wp_write)

lemma wp_handle_type: "wf_sess st \<Longrightarrow> wp nobug (\<lambda>(rc, st'). served st st' \<and> answered st st')
    (handle_type os st)"
  by (auto simp: handle_type_def sess_defs intro!: wp_write)

lemma wp_handle_feat: "wf_sess st \<Longrightarrow> wp nobug (\<lambda>(rc, st'). served st st' \<and> answered st st')
    (handle_feat os st)"
  by (auto simp: handle_feat_def sess_defs intro!: wp_write)

lemma wp_handle_site: "wf_sess st \<Longrightarrow> wp nobug (\<lambda>(rc, st'). served st st') (handle_site os st)"
  by (auto simp: handle_site_def sess_defs split: option.splits intro!: wp_write)

lemma wp_handle_pwd: "wf_sess st \<Longrightarrow> wp nobug (\<lambda>(rc, st'). served st st' \<and> answered st st')
    (handle_pwd os st)"
  by (auto simp: handle_pwd_def sess_defs intro!: wp_write)

lemma wp_handle_dir_remove:
  "wf_sess st \<Longrightarrow> wp nobug (\<lambda>(rc, st'). served st st' \<and> answered st st') (handle_dir_remove os st)"
  by (auto simp: handle_dir_remove_def sess_defs Let_def split: option.splits prod.splits
      intro!: wp_write)

lemma wp_handle_dir_create:
  "wf_sess st \<Longrightarrow> wp nobug (\<lambda>(rc, st'). served st st' \<and> answered st st') (handle_dir_create os st)"
  by (auto simp: handle_dir_create_def sess_defs Let_def split: option.splits prod.splits
      intro!: wp_write)

lemma wp_handle_dele:
  "wf_sess st \<Longrightarrow> wp nobug (\<lambda>(rc, st'). served st st' \<and> answered st st') (handle_dele os st)"
  by (auto simp: handle_dele_def sess_defs Let_def split: option.splits prod.splits
      intro!: wp_write)

lemma wp_handle_bad_rnto:
  "wf_sess st \<Longrightarrow> wp nobug (\<lambda>(rc, st'). served st st' \<and> answered st st') (handle_bad_rnto os st)"
  by (auto simp: handle_bad_rnto_def sess_defs intro!: wp_write)

lemma wp_handle_rnto:
  "wf_sess st \<Longrightarrow> wp nobug (\<lambda>(rc, st'). served st st' \<and> answered st st') (handle_rnto os old st)"
  by (auto simp: handle_rnto_def sess_defs Let_def split: prod.splits intro!: wp_write)

lemma wp_handle_rnfr:
  "wf_sess st \<Longrightarrow> wp nobug (\<lambda>(rc, path, st'). served st st' \<and> answered st st') (handle_rnfr os st)"
  by (auto simp: handle_rnfr_def sess_defs Let_def split: option.splits prod.splits intro!: wp_write)

lemma wp_handle_cdup:
  assumes "wf_sess st"
  shows "wp nobug (\<lambda>(rc, st'). served st st' \<and> answered st st') (handle_cdup os st)"
  using assms cdup_wf [of "cwd_path st"]
  by (auto simp: handle_cdup_def sess_defs Let_def intro!: wp_write)

lemma wp_handle_cwd:
  assumes "wf_sess st"
  shows "wp nobug (\<lambda>(rc, st'). served st st' \<and> answered st st') (handle_cwd os st)"
proof (cases "ftp_arg_str st")
  case None
  with assms show ?thesis by (auto simp: handle_cwd_def sess_defs intro!: wp_write)
next
  case (Some arg)
  have path: "wf_cwd (if last p \<noteq> CHR ''/'' then p @ ''/'' else p)"
    if "get_abs_path (Some arg) st = Some p" for p
    using abs_path_NUL [OF assms _ that] assms Some
    by (auto simp: wf_cwd_def wf_sess_def NUL_def)
  consider "arg = ''.''" | "arg = ''..''" | "arg \<noteq> ''.''" "arg \<noteq> ''..''" by blast
  then show ?thesis
  proof cases
    case 1
    with Some assms show ?thesis by (auto simp: handle_cwd_def sess_defs intro!: wp_write)
  next
    case 2
    with Some wp_handle_cdup [OF assms, of os] show ?thesis by (simp add: handle_cwd_def)
  next
    case 3
    show ?thesis
    proof (cases "get_abs_path (Some arg) st")
      case None
      with Some 3 assms show ?thesis by (auto simp: handle_cwd_def sess_defs intro!: wp_write)
    next
      case p: (Some p)
      define q where "q = (if last p \<noteq> CHR ''/'' then p @ ''/'' else p)"
      have "wf_cwd q" using path [OF p] by (simp add: q_def)
      with Some 3 assms p show ?thesis
        by (auto simp: handle_cwd_def q_def [symmetric] sess_defs Let_def split: prod.splits
            intro!: wp_write)
    qed
  qed
qed

text \<open>Each handler provides the contract; SITE, which may stay silent, only the first half.\<close>

lemma answering_op_always:
  fixes opr :: "'w st \<Rightarrow> (int \<times> 'w st) res"
  assumes "\<And>st. wf_sess st \<Longrightarrow> wp E (\<lambda>(rc, st'). served st st' \<and> answered st st') (opr st)"
  shows "answering_op opr E True"
  by (rule answering_opI, rule wp_mono [OF assms]) auto

interpretation user: answering_op "handle_user os" nobug True for os
  by (rule answering_op_always [OF wp_handle_user])

interpretation pass: answering_op "handle_pass os" nobug True for os
  by (rule answering_op_always [OF wp_handle_pass])

interpretation syst: answering_op "handle_syst os" nobug True for os
  by (rule answering_op_always [OF wp_handle_syst])

interpretation abor: answering_op "handle_abort os" nobug True for os
  by (rule answering_op_always [OF wp_handle_abort])

interpretation type': answering_op "handle_type os" nobug True for os
  by (rule answering_op_always [OF wp_handle_type])

interpretation feat: answering_op "handle_feat os" nobug True for os
  by (rule answering_op_always [OF wp_handle_feat])

interpretation site: session_op "handle_site os" nobug True for os
  by unfold_locales (rule wp_handle_site)

interpretation pwd: answering_op "handle_pwd os" nobug True for os
  by (rule answering_op_always [OF wp_handle_pwd])

interpretation cwd: answering_op "handle_cwd os" nobug True for os
  by (rule answering_op_always [OF wp_handle_cwd])

interpretation cdup: answering_op "handle_cdup os" nobug True for os
  by (rule answering_op_always [OF wp_handle_cdup])

interpretation rmd: answering_op "handle_dir_remove os" nobug True for os
  by (rule answering_op_always [OF wp_handle_dir_remove])

interpretation mkd: answering_op "handle_dir_create os" nobug True for os
  by (rule answering_op_always [OF wp_handle_dir_create])

interpretation dele: answering_op "handle_dele os" nobug True for os
  by (rule answering_op_always [OF wp_handle_dele])

interpretation bad_rnto: answering_op "handle_bad_rnto os" nobug True for os
  by (rule answering_op_always [OF wp_handle_bad_rnto])

interpretation rnto: answering_op "handle_rnto os old" nobug True for os old
  by (rule answering_op_always [OF wp_handle_rnto])

section \<open>Directories\<close>

text \<open>
  CWD to a path other than \<open>.\<close> and \<open>..\<close> asks the kernel about the absolute path, with a final
  slash; it makes that the working directory and answers 250 exactly when the kernel says that
  it is a directory, and otherwise leaves the working directory alone and answers 550.
\<close>
theorem cwd_follows_kernel:
  assumes "ftp_arg_str st = Some arg" and "arg \<notin> {''.'', ''..''}"
    and "get_abs_path (Some arg) st = Some p"
    and "q = (if last p = CHR ''/'' then p else p @ ''/'')"
    and "lkl_sys_newstat os (Some q) (world st) = (rc, info, w)"
  shows "handle_cwd os st =
    (if rc = 0 \<and> filetype_from_mode (st_mode info) = APR_DIR
     then lfd_cmdio_write os 250 CWD_MSG [Str q] (st\<lparr>world := w, cwd_path := q\<rparr>)
     else lfd_cmdio_write os 550 ''%s is not a directory.'' [Str q] (st\<lparr>world := w\<rparr>))"
proof -
  have q: "(if last p \<noteq> CHR ''/'' then p @ ''/'' else p) = q" using assms(4) by simp
  with assms(1-3) lkl_stat_type [OF assms(5)] show ?thesis
    by (simp add: handle_cwd_def Let_def ftp_codes fill_out_finfo_def)
qed

text \<open>
  CDUP takes the last component off: in \<open>d/name/\<close> it changes to \<open>d/\<close>, which undoes a CWD into
  \<open>name\<close>; in the root it stays.
\<close>
theorem cdup_goes_to_parent:
  assumes "wf_cwd d" and "CHR ''/'' \<notin> set name" and "name \<noteq> []"
    and "cwd_path st = d @ name @ ''/''"
  shows "handle_cdup os st = lfd_cmdio_write os 202 ''Changed to directory [%s].'' [Str d]
    (st\<lparr>cwd_path := d\<rparr>)"
proof -
  let ?p = "d @ name @ ''/''"
  have d: "d \<noteq> []" "last d = CHR ''/''" using assms(1) by (auto simp: wf_cwd_def)
  have "cdup_pos ?p (length ?p - 2) = length d - 1"
  proof (rule cdup_pos_eq)
    show "?p ! (length d - 1) = CHR ''/''"
      using d by (simp add: nth_append last_conv_nth)
    show "?p ! k \<noteq> CHR ''/''" if "length d - 1 < k" "k \<le> length ?p - 2" for k
    proof -
      have "length d \<le> k" "k < length d + length name" using that assms(3) d by auto
      then have lt: "k - length d < length name" by simp
      with \<open>length d \<le> k\<close> have "?p ! k = name ! (k - length d)" by (simp add: nth_append)
      with assms(2) nth_mem [OF lt] show ?thesis by auto
    qed
  qed simp
  with d assms(3,4) show ?thesis
    by (simp add: handle_cdup_def Let_def ftp_codes)
qed

text \<open>
  MKD of a name that the kernel knows answers 550 and makes no directory; of any other name it
  makes the directory with the permissions 0777 and answers 257, or 550 when the kernel refuses.
\<close>
theorem mkd_makes_new_directory:
  assumes "get_abs_path (ftp_arg_str st) st = Some p"
    and "lkl_sys_newstat os (Some p) (world st) = (rc, info, w)"
    and "lkl_sys_mkdir os (Some p) 0x1FF w = (mrc, w1)"
  shows "handle_dir_create os st =
    (if rc = 0 then lfd_cmdio_write os 550 ''%s Directory exists.'' [Str p] (st\<lparr>world := w\<rparr>)
     else if mrc = 0 then lfd_cmdio_write os 257 ''%s Directory created.'' [Str p] (st\<lparr>world := w1\<rparr>)
     else lfd_cmdio_write os 550 ''Cannot create directory %s.'' [Str p] (st\<lparr>world := w1\<rparr>))"
proof -
  have "lkl_unix_perms2mode APR_OS_DEFAULT = 0x1FF"
    by (simp add: lkl_unix_perms2mode_def or_if_def Let_def perm_defs mode_defs APR_OS_DEFAULT_def)
  moreover obtain x where "ftp_arg_str st = Some x" by (rule abs_path_arg [OF assms(1)])
  ultimately show ?thesis
    using assms lkl_stat_type [OF assms(2)]
    by (simp add: handle_dir_create_def lkl_dir_make_def Let_def ftp_codes)
qed

text \<open>
  A working directory with a percent sign, which a client can enter by CWD, is used as a
  format by PWD: when a conversion follows the sign, the reply reads an argument that is not
  there.
\<close>
theorem pwd_format_fault:
  assumes "printf_doc (apr_pvsprintf os)" and "cwd_path st = pre @ CHR ''%'' # c # post"
    and "CHR ''%'' \<notin> set pre" and "c \<noteq> CHR ''%''"
  shows "handle_pwd os st = Inl Bad_Format"
proof -
  let ?code = "[digit 2, digit 5, digit 7, CHR '' '']"
  have fmt: "reply_format FTP_PWDOK (cwd_path st) = (?code @ pre) @ CHR ''%'' # c # post @ CRLF"
    using reply_format_eq [of FTP_PWDOK "cwd_path st"] assms(2) by (simp add: ftp_codes)
  have "CHR ''%'' \<notin> set (?code @ pre)"
    using assms(3) digit_not_percent [of 2] digit_not_percent [of 5] digit_not_percent [of 7] by auto
  then have "apr_pvsprintf os (reply_format FTP_PWDOK (cwd_path st)) [] = None"
    unfolding fmt by (rule printf_missing_arg [OF assms(1) _ assms(4)])
  then show ?thesis by (simp add: handle_pwd_def lfd_cmdio_write_def)
qed

text \<open>
  DELE and RMD act on the absolute path of their argument, once, and answer 250 exactly when
  the kernel did as asked, 550 otherwise.
\<close>
theorem delete_answers_kernel:
  assumes "get_abs_path (ftp_arg_str st) st = Some p"
    and "lkl_sys_unlink os (Some p) (world st) = (urc, w1)"
    and "lkl_sys_rmdir os (Some p) (world st) = (rrc, w2)"
  shows "handle_dele os st =
      (if urc = 0 then lfd_cmdio_write os 250 ''File deleted.'' [] (st\<lparr>world := w1\<rparr>)
       else lfd_cmdio_write os 550 ''Requested action not taken. File unavailable.'' [] (st\<lparr>world := w1\<rparr>))
    \<and> handle_dir_remove os st =
      (if rrc = 0 then lfd_cmdio_write os 250 ''%s Directory deleted.'' [Str p] (st\<lparr>world := w2\<rparr>)
       else lfd_cmdio_write os 550 ''Cannot remove directory %s.'' [Str p] (st\<lparr>world := w2\<rparr>))"
  by (rule abs_path_arg [OF assms(1)])
    (use assms in \<open>simp add: handle_dele_def handle_dir_remove_def lkl_file_remove_def
      lkl_dir_remove_def Let_def ftp_codes\<close>)

text \<open>
  In a session that keeps its invariant no transfer is ever in progress when a command is read,
  so ABOR changes nothing but the replies and always answers 225.
\<close>
theorem abor_has_nothing_to_abort:
  assumes "wf_sess st"
  shows "wp (\<lambda>e. e = Bad_Format) (\<lambda>(rc, st'). rc = APR_SUCCESS
      \<and> st' = st\<lparr>world := world st', replies := replies st @ [Reply 225 ''Nothing to abort.'' []]\<rparr>)
    (handle_abort os st)"
  using assms by (auto simp: handle_abort_def sess_defs ftp_codes intro!: wp_write)

end
