(* ===== verification/FileProps.thy ===== *)
theory FileProps
  imports FileContracts
begin

text \<open>
  The properties of the file layer: transfers deliver exactly the bytes they were given or asked
  for, buffered or not; what happens to an error of the kernel, to a short write of a flush, to
  an infinite timeout and to a large offset; the translation of open flags; the retry of
  interrupted calls. Each rests on the contracts of theory FileContracts.
\<close>

section \<open>Writing everything\<close>

text \<open>
  C16. On a kernel that accepts writes, possibly in pieces and with interruptions,
  \<open>lkl_file_write_full\<close> on an unbuffered handle returns success after appending exactly the
  \<open>nbytes\<close> bytes of the caller's range to the file.
\<close>
theorem write_full_unbuffered:
  assumes "\<not> buffered f" and "kernel_writes os (filedes f) log \<mu>" and "0 < nbytes"
    and "unat buf + unat nbytes \<le> length mem" and "length mem < 2 ^ 31"
  shows "\<exists>f' w'. lkl_file_write_full os mem buf nbytes (f, w) = Inr (APR_SUCCESS, nbytes, f', w')
    \<and> log w' = log w @ take (unat nbytes) (drop (unat buf) mem)"
  using file_sink.write_full_all [where os = os and log = log and \<mu> = \<mu> and s = "(f, w)" and buf = buf and n = nbytes and mem = mem] assms
  by (auto simp: lkl_file_write_full_def)

text \<open>
  C17. On a buffered handle, and a kernel that takes every write whole or interrupts it, a bounded number of
  times, the bytes written are, in order, those already buffered and those of the range: after
  \<open>lkl_file_write_full\<close> and \<open>lkl_file_flush\<close> all of them are in the kernel.
\<close>
theorem write_full_buffered_flush:
  assumes "write_buf_ok f" and "kernel_writes_all os (filedes f) log \<mu>" and "0 < nbytes"
    and "unat buf + unat nbytes \<le> length mem" and "length mem < 2 ^ 31"
  shows "\<exists>f' w' f'' w''.
      lkl_file_write_full os mem buf nbytes (f, w) = Inr (APR_SUCCESS, nbytes, f', w')
    \<and> lkl_file_flush os f' w' = Inr (APR_SUCCESS, f'', w'')
    \<and> log w'' = log w @ pend f @ take (unat nbytes) (drop (unat buf) mem)"
proof -
  obtain f' w' where full:
      "lkl_file_write_full os mem buf nbytes (f, w) = Inr (APR_SUCCESS, nbytes, f', w')"
    and inv: "write_buf_ok f'" "kernel_writes_all os (filedes f') log \<mu>"
    and out: "log w' @ pend f' = (log w @ pend f) @ take (unat nbytes) (drop (unat buf) mem)"
    using buffered_sink.write_full_all [where os = os and log = log and \<mu> = \<mu> and s = "(f, w)" and buf = buf and n = nbytes and mem = mem] assms
    by (auto simp: lkl_file_write_full_def)
  note keeps = mutex_keepsD [of os log]
  from inv(2) have m: "mutex_keeps os log" by (simp add: kernel_writes_all_def)
  obtain f'' w'' where "lkl_file_flush_locked os f' (file_lock os f' w') = Inr (APR_SUCCESS, f'', w'')"
    "log w'' = log w' @ pend f'"
    using wp_returns [OF flush_spec [OF inv, where w = "file_lock os f' w'"]] keeps [OF m] by auto
  with full inv(1) out keeps [OF m] show ?thesis by (auto simp: lkl_file_flush_def write_buf_ok_def)
qed

text \<open>
  C30. On a kernel that takes every write whole or interrupts it, a bounded number of times, closing a buffered
  handle that has no mutex and is not deleted on close first pushes its pending bytes to the kernel and then
  closes the descriptor; the status is that of the close, negated.
\<close>
theorem close_delivers_pending:
  assumes "write_buf_ok f" and "kernel_writes_all os (filedes f) log \<mu>"
    and "fflags f AND APR_DELONCLOSE = 0" and "\<not> thlock f"
  shows "\<exists>w1 f'. log w1 = log w @ pend f
    \<and> (case lkl_sys_close os (filedes f) w1 of
         (rc, w2) \<Rightarrow> lkl_unix_file_cleanup os f w = Inr (- rc, f', w2))"
proof -
  obtain f1 w1 where fl: "lkl_file_flush_locked os f w = Inr (APR_SUCCESS, f1, w1)"
    and f1: "log w1 = log w @ pend f" "filedes f1 = filedes f" "fflags f1 = fflags f"
      "thlock f1 = thlock f"
    using wp_returns [OF flush_spec [OF assms(1,2), where w = w]] by auto
  obtain rc w2 where cl: "lkl_sys_close os (filedes f) w1 = (rc, w2)"
    by (cases "lkl_sys_close os (filedes f) w1")
  have "\<exists>f'. lkl_unix_file_cleanup os f w = Inr (- rc, f', w2)"
    using assms(1,3,4) fl f1 cl
    by (cases "rc = 0")
      (simp_all add: lkl_unix_file_cleanup_def lkl_file_flush_def file_lock_def file_unlock_def
        file_cleanup_def write_buf_ok_def)
  with f1(1) cl show ?thesis by force
qed

section \<open>Reading\<close>

text \<open>
  C18. \<open>lkl_file_read_full\<close> on an unbuffered or a buffered handle always returns. The bytes it
  hands out are a prefix of what was left to read and the rest is left; on success they are as
  many as were asked for, and end of file is reported only when nothing is left.
\<close>
theorem read_full_takes_prefix:
  assumes "\<not> buffered f \<or> read_buf_ok f" and "kernel_reads os (filedes f) rest \<mu>" and "0 < nbytes"
  shows "\<exists>rc total bytes f' w'.
      lkl_file_read_full os f nbytes w = Inr (rc, total, bytes, f', w')
    \<and> unat total = length bytes \<and> total \<le> nbytes
    \<and> rstream rest f w = bytes @ rstream rest f' w'
    \<and> (rc = APR_SUCCESS \<longrightarrow> total = nbytes) \<and> (rc = APR_EOF \<longrightarrow> rstream rest f' w' = [])"
proof (cases "buffered f")
  case True
  with assms(1) have "read_buf_ok f" by simp
  with assms wp_returns [OF buffered_source.read_full_spec [where os = os and rest = rest and \<mu> = \<mu> and s = "(f, w)" and n = nbytes]]
  show ?thesis by (force simp: lkl_file_read_full_def)
next
  case False
  with assms wp_returns [OF file_source.read_full_spec [where os = os and rest = rest and \<mu> = \<mu> and s = "(f, w)" and n = nbytes]]
  show ?thesis by (force simp: lkl_file_read_full_def)
qed

section \<open>Errors of the kernel\<close>

lemma write_error_result:
  assumes "\<not> buffered f" and "unat buf + unat nbytes \<le> length mem"
    and "lkl_sys_write os (filedes f) (take (unat nbytes) (drop (unat buf) mem)) w = (- e, w')"
    and "0 < e" and "e < 4096" and "e \<noteq> EINTR" and "e \<noteq> EAGAIN"
  shows "lkl_file_write os mem buf nbytes (f, w) = Inr (APR_SUCCESS, - word_of_int e, f, w')"
proof -
  have sw: "sys_write os f mem buf nbytes w = Inr (- word_of_int e, w')"
    using assms by (simp add: sys_write_def eintr_loop_stop)
  have "(word_of_int e :: apr_size_t) \<noteq> word_of_int EAGAIN"
  proof
    assume "(word_of_int e :: apr_size_t) = word_of_int EAGAIN"
    then have "e mod 2 ^ 64 = EAGAIN mod 2 ^ 64"
      by (simp add: word_of_int_eq_iff take_bit_eq_mod)
    with assms show False by (simp add: EAGAIN_def)
  qed
  with sw show ?thesis using assms(1) by (simp add: lkl_file_write_def)
qed

text \<open>
  An error of the kernel on an unbuffered write (other than an interruption or a full pipe)
  comes back as success with a byte count of \<open>2 ^ 64 - e\<close>: the result is kept in an unsigned
  variable, so that the test for a negative one never holds.
\<close>
theorem write_error_is_success:
  assumes "\<not> buffered f" and "unat buf + unat nbytes \<le> length mem"
    and "lkl_sys_write os (filedes f) (take (unat nbytes) (drop (unat buf) mem)) w = (- e, w')"
    and "0 < e" and "e < 4096" and "e \<noteq> EINTR" and "e \<noteq> EAGAIN"
  shows "lkl_file_write os mem buf nbytes (f, w) = Inr (APR_SUCCESS, - word_of_int e, f, w')"
  using assms by (rule write_error_result)

text \<open>
  C39. In the transfer loop this moves the source pointer back by \<open>e\<close> bytes and asks for the
  range that starts there: when the range began less than \<open>e\<close> bytes into its buffer, the next
  write reads outside the buffer.
\<close>
theorem write_full_error_out_of_bounds:
  assumes "\<not> buffered f" and "unat buf + unat nbytes \<le> length mem" and "length mem < 2 ^ 31"
    and "lkl_sys_write os (filedes f) (take (unat nbytes) (drop (unat buf) mem)) w = (- e, w')"
    and "0 < e" and "e < 4096" and "e \<noteq> EINTR" and "e \<noteq> EAGAIN" and "uint buf < e"
    and "0 < nbytes"
  shows "lkl_file_write_full os mem buf nbytes (f, w) = Inl Out_Of_Bounds"
proof -
  let ?e = "word_of_int e :: apr_size_t"
  have ue: "unat ?e = nat e"
    using assms(5,6) by (simp add: unat_eq_nat_uint uint_word_of_int take_bit_eq_mod)
  have w1: "lkl_file_write os mem buf nbytes (f, w) = Inr (APR_SUCCESS, - ?e, f, w')"
    by (rule write_error_result) (use assms in auto)
  have ub: "unat buf < unat ?e" unfolding ue zless_nat_eq_int_zless
    using assms(9) unfolding uint_nat .
  have far: "2 ^ 32 \<le> unat (buf - ?e)"
  proof -
    have "unat (buf - ?e) = unat buf + 2 ^ 64 - unat ?e"
      using ub by (simp add: unat_sub_if' )
    then show ?thesis using ue assms(6) by simp
  qed
  have n: "unat (nbytes + ?e) = unat nbytes + nat e"
    using assms(2,3,6) ue by (subst unat_add_lem [THEN iffD1]) simp_all
  have more: "0 < nbytes + ?e"
    using n assms(5) by (simp add: word_less_nat_alt)
  have "write_full_step (lkl_file_write os) mem (buf, nbytes, 0, f, w)
      = Inr (Again (buf - ?e, nbytes + ?e, - ?e, f, w'))"
    using more by (simp add: write_full_step_def w1 Let_def)
  moreover have "lkl_file_write os mem (buf - ?e) m (f, w') = Inl Out_Of_Bounds" for m
    using far assms(1,3) by (simp add: lkl_file_write_def sys_write_def slice_out)
  then have "write_full_step (lkl_file_write os) mem (buf - ?e, nbytes + ?e, - ?e, f, w')
      = Inl Out_Of_Bounds"
    by (simp add: write_full_step_def)
  ultimately show ?thesis
    unfolding lkl_file_write_full_def by (simp add: run_loop_Again run_loop_Inl)
qed

text \<open>
  C40. When the kernel takes only the first \<open>k\<close> of the pending bytes, the flush of a buffered
  handle reports success and forgets the others: the buffer counts as empty afterwards.
\<close>
theorem short_flush_loses_data:
  assumes "write_buf_ok f" and "direction f = 1" and "0 < k" and "k < length (pend f)"
    and "lkl_sys_write os (filedes f) (pend f) w = (int k, w')"
    and "log w' = log w @ take k (pend f)" and "\<not> thlock f"
  shows "\<exists>f'. lkl_file_flush os f w = Inr (APR_SUCCESS, f', w') \<and> pend f' = []
    \<and> filePtr f' = filePtr f + int k \<and> log w' @ pend f' \<noteq> log w @ pend f"
proof -
  have p: "pend f = take (nat (bufpos f)) (fbuffer f)" "nat (bufpos f) \<le> length (fbuffer f)"
    using assms(1,2) by (simp_all add: pend_def write_buf_ok_def nat_le_iff)
  then have "bufpos f \<noteq> 0" using assms(4) by auto
  with p assms have "lkl_file_flush os f w
      = Inr (APR_SUCCESS, f\<lparr>filePtr := filePtr f + int k, bufpos := 0\<rparr>, w')"
    by (simp add: lkl_file_flush_def file_lock_def file_unlock_def lkl_file_flush_locked_def write_buf_ok_def
        eintr_loop_stop EINTR_def)
  moreover have "take k (pend f) \<noteq> pend f"
  proof
    assume "take k (pend f) = pend f"
    from arg_cong [OF this, of length] assms(4) show False by simp
  qed
  moreover have "pend (f\<lparr>filePtr := filePtr f + int k, bufpos := 0\<rparr>) = []"
    by (simp add: pend_def)
  ultimately show ?thesis using assms(6) by fastforce
qed

text \<open>
  The infinite timeout \<open>-1\<close> that \<open>lkl_file_open\<close> gives every handle is divided by 1000 before
  it reaches the kernel and becomes 0: a handle that is not ready times out at once.
\<close>
theorem infinite_timeout_expires_at_once:
  assumes "timeout f = - 1" and "lkl_sys_poll os (filedes f) for_read 0 w = (0, w')"
  shows "lkl_wait_for_io_or_timeout os f for_read w = Inr (APR_TIMEUP, w')"
proof -
  have "(- 1 :: int) sdiv 1000 = 0" by (simp add: signed_divide_int_def)
  with assms show ?thesis
    by (simp add: lkl_wait_for_io_or_timeout_def eintr_loop_stop EINTR_def)
qed

section \<open>Seeking\<close>

text \<open>
  \<open>setptr\<close> keeps the 64-bit result of the seek in 32 bits. For a position of at least 2 GB
  and below 4 GB that the kernel accepts it reports a failure.
\<close>
theorem setptr_large_offset_fails:
  assumes "direction f \<noteq> 1" and "filePtr f < pos"
    and "lkl_sys_lseek os (filedes f) pos SEEK_SET w = (pos, w')"
    and "2 ^ 31 \<le> pos" and "pos < 2 ^ 32"
  shows "setptr os f pos w = Inr (2 ^ 32 - pos, f, w')"
proof -
  have "to_int32 pos = pos - 2 ^ 32"
  proof -
    have "(pos + 2 ^ 31) mod 2 ^ 32 = (pos - 2 ^ 31 + 2 ^ 32) mod 2 ^ 32"
      by (simp add: algebra_simps)
    also have "\<dots> = (pos - 2 ^ 31) mod 2 ^ 32" by (rule mod_add_self2)
    also have "\<dots> = pos - 2 ^ 31" using assms(4,5) by (intro mod_pos_pos_trivial) simp_all
    finally show ?thesis by (simp add: to_int32_def)
  qed
  with assms show ?thesis by (simp add: setptr_def Let_def)
qed

text \<open>
  A handle that reads \<open>file\<close>: its buffer and what the kernel has left are the file from the offset
  where the buffer was filled.
\<close>

definition reads_file :: "('w \<Rightarrow> string) \<Rightarrow> string \<Rightarrow> lkl_file \<Rightarrow> 'w \<Rightarrow> bool" where
  "reads_file rest file f w \<longleftrightarrow> read_buf_ok f \<and> 0 \<le> filePtr f - dataRead f
     \<and> take (nat (dataRead f)) (fbuffer f) @ rest w = drop (nat (filePtr f - dataRead f)) file"

lemma setptr_inside:
  assumes "reads_file rest file f w" and "0 \<le> pos - (filePtr f - dataRead f)" and "pos - (filePtr f - dataRead f) \<le> dataRead f"
  shows "\<exists>f'. setptr os f pos w = Inr (APR_SUCCESS, f', w)
    \<and> bstream rest f' w = drop (nat pos) file \<and> reads_file rest file f' w"
proof -
  let ?base = "filePtr f - dataRead f"
  define nb where "nb = pos - ?base"
  let ?g = "f\<lparr>bufpos := nb\<rparr>"
  have f: "read_buf_ok f" "0 \<le> ?base"
    "take (nat (dataRead f)) (fbuffer f) @ rest w = drop (nat ?base) file"
    using assms(1) by (simp_all add: reads_file_def)
  have dir: "direction f = 0" using f(1) by (simp add: read_buf_ok_def)
  have nb: "0 \<le> nb" "nb \<le> dataRead f" using assms(2,3) by (simp_all add: nb_def)
  have step: "setptr os f pos w = Inr (APR_SUCCESS, ?g, w)"
    using assms(2,3) dir by (simp add: setptr_def Let_def nb_def)
  have len: "nat (dataRead f) \<le> length (fbuffer f)"
    using f(1) by (simp add: read_buf_ok_def nat_le_iff)
  have d: "nat (dataRead f - nb) = nat (dataRead f) - nat nb" "nat nb \<le> nat (dataRead f)"
    using nb by (simp_all add: nat_diff_distrib nat_mono)
  have "bstream rest ?g w = drop (nat nb) (take (nat (dataRead f)) (fbuffer f)) @ rest w"
    unfolding bstream_def by (simp add: d drop_take)
  also have "\<dots> = drop (nat nb) (take (nat (dataRead f)) (fbuffer f) @ rest w)"
    using d(2) len by simp
  also have "\<dots> = drop (nat nb + nat ?base) file" unfolding f(3) by simp
  also have "nat nb + nat ?base = nat pos" using nb f(2) by (simp add: nb_def)
  finally have "bstream rest ?g w = drop (nat pos) file" .
  moreover have "reads_file rest file ?g w"
    using f nb by (simp add: reads_file_def read_buf_ok_def)
  ultimately show ?thesis using step by blast
qed

text \<open>
  C32. Below 2 GB a seek on a handle that is being read returns, and when it succeeds it lands where it was asked
  to: what is left to read after a successful seek to \<open>pos\<close> is \<open>file\<close> without its first \<open>pos\<close> bytes, whether the
  position is in the buffer or not, and the handle still reads \<open>file\<close>.
\<close>
theorem setptr_lands:
  assumes "reads_file rest file f w" and "0 \<le> pos" and "pos < 2 ^ 31"
    and "lkl_sys_lseek os (filedes f) pos SEEK_SET w = (r, w1)"
    and "- 4095 \<le> r \<and> r < 0 \<or> r = pos \<and> rest w1 = drop (nat pos) file"
  shows "\<exists>rc f' w'. setptr os f pos w = Inr (rc, f', w') \<and> (rc = APR_SUCCESS \<longrightarrow>
    bstream rest f' w' = drop (nat pos) file \<and> reads_file rest file f' w')"
proof (cases "0 \<le> pos - (filePtr f - dataRead f) \<and> pos - (filePtr f - dataRead f) \<le> dataRead f")
  case True
  with setptr_inside [OF assms(1), of pos os] show ?thesis by auto
next
  case False
  have f: "read_buf_ok f" using assms(1) by (simp add: reads_file_def)
  then have dir: "direction f = 0" by (simp add: read_buf_ok_def)
  show ?thesis
  proof (cases "r = pos \<and> rest w1 = drop (nat pos) file")
    case True
    let ?g = "f\<lparr>bufpos := 0, dataRead := 0, filePtr := pos\<rparr>"
    have "setptr os f pos w = Inr (APR_SUCCESS, ?g, w1)"
      using False dir True assms(2-4) by (auto simp: setptr_def Let_def to_int32_id)
    moreover have "bstream rest ?g w1 = drop (nat pos) file" "reads_file rest file ?g w1"
      using True f assms(2) by (simp_all add: bstream_def reads_file_def read_buf_ok_def)
    ultimately show ?thesis by blast
  next
    case neg: False
    then have "- 4095 \<le> r" "r < 0" using assms(5) by auto
    then have "setptr os f pos w = Inr (- r, f, w1)"
      using False dir assms(4) by (auto simp: setptr_def Let_def to_int32_id)
    with \<open>r < 0\<close> show ?thesis by auto
  qed
qed

section \<open>Opening\<close>

text \<open>
  The flags of \<open>lkl_file_open\<close>: it refuses exactly a request for neither reading nor
  writing and an exclusive one that does not create; otherwise each APR flag sets its own Linux
  flag and nothing else, and large files are always on.
\<close>
theorem open_oflags_correct:
  "open_oflags flag =
     (if (flag AND APR_READ = 0 \<and> flag AND APR_WRITE = 0)
         \<or> (flag AND APR_EXCL \<noteq> 0 \<and> flag AND APR_CREATE = 0) then None
      else Some (
        (if flag AND APR_WRITE = 0 then O_RDONLY
         else if flag AND APR_READ = 0 then O_WRONLY else O_RDWR)
        OR (if flag AND APR_CREATE \<noteq> 0 then O_CREAT else 0)
        OR (if flag AND APR_EXCL \<noteq> 0 then O_EXCL else 0)
        OR (if flag AND APR_APPEND \<noteq> 0 then O_APPEND else 0)
        OR (if flag AND APR_TRUNCATE \<noteq> 0 then O_TRUNC else 0)
        OR O_LARGEFILE))"
  by (simp add: open_oflags_def Let_def or.assoc)

text \<open>
  Locking and unlocking retry an interrupted call and report every other outcome as zero or
  the positive error number: no status is negative and none is the interruption.
\<close>
theorem lock_status:
  "wp (\<lambda>e. e = Diverge) (\<lambda>(rc, w'). 0 \<le> rc \<and> rc \<noteq> EINTR) (lkl_file_lock os f type w)
   \<and> wp (\<lambda>e. e = Diverge) (\<lambda>(rc, w'). 0 \<le> rc \<and> rc \<noteq> EINTR) (lkl_file_unlock os f w)"
proof -
  have "wp (\<lambda>e. e = Diverge) (\<lambda>(rc, w'). rc \<noteq> - EINTR)
    (eintr_loop (lkl_sys_flock os (filedes f) t) id w)" for t
    by (rule wp_eintr_loop [where J = "\<lambda>_. True"]) auto
  then show ?thesis
    unfolding lkl_file_lock_def lkl_file_unlock_def Let_def wp_bnd
    by (intro conjI; rule wp_mono) (auto simp: EINTR_def)
qed

end
