(* ===== verification/Transfers.thy ===== *)
theory Transfers
  imports CmdProps FileProps
begin

text \<open>
  The transfers of cmdhandler.c: RETR, STOR, APPE and STOU with the loops that move the data
  between a file and the data connection. Buffers from \<open>apr_palloc\<close> are not initialised; their
  first content is of no consequence and is modelled as null characters.
\<close>

section \<open>Writing a buffer to a socket\<close>

definition VSFTP_DATA_BUFSIZE :: nat where "VSFTP_DATA_BUFSIZE = 65536"

definition socket_send ::
    "('w, 'z) apr_scheme \<Rightarrow> sock \<Rightarrow> string \<Rightarrow> apr_size_t \<Rightarrow> apr_size_t \<Rightarrow> 'w
      \<Rightarrow> (int \<times> apr_size_t \<times> 'w) res" where
  "socket_send os fd mem buf n w =
     bnd (slice mem (unat buf) (unat n)) (\<lambda>bytes.
       case apr_socket_send os fd bytes w of (rc, num_written, w) \<Rightarrow> Inr (rc, of_nat num_written, w))"

text \<open>The loop, for any sending call: \<open>psize\<close> counts what has gone out, \<open>left\<close> (\<open>size\<close> in the source) what has not.\<close>

definition socket_write_step ::
    "(string \<Rightarrow> apr_size_t \<Rightarrow> apr_size_t \<Rightarrow> 's \<Rightarrow> (int \<times> apr_size_t \<times> 's) res) \<Rightarrow> string
      \<Rightarrow> apr_size_t \<times> apr_size_t \<times> 's
      \<Rightarrow> (apr_size_t \<times> apr_size_t \<times> 's, int \<times> apr_size_t \<times> 's) ctl res" where
  "socket_write_step send buf = (\<lambda>(psize, left, s).
     bnd (send buf psize left s) (\<lambda>(rc, num_written, s).
       if rc \<noteq> APR_SUCCESS then Inr (Done (rc, psize, s))
       else if num_written = 0 then Inr (Done (APR_SUCCESS, psize, s))
       else
         let psize = psize + num_written; left = left - num_written
         in Inr (if left = 0 then Done (APR_SUCCESS, psize, s) else Again (psize, left, s))))"

definition lfd_socket_write_full ::
    "('w, 'z) apr_scheme \<Rightarrow> sock \<Rightarrow> string \<Rightarrow> apr_size_t \<Rightarrow> 'w \<Rightarrow> (int \<times> apr_size_t \<times> 'w) res" where
  "lfd_socket_write_full os fd buf psize w =
     run_loop (socket_write_step (socket_send os fd) buf) (0, psize, w)"

section \<open>Sending a file\<close>

record lfd_transfer_ret =
  retval :: int
  transferred :: apr_size_t

text \<open>The buffer to send from, and the conversion buffer, after the conversion of a chunk.\<close>

definition convert_chunk :: "bool \<Rightarrow> string \<Rightarrow> string \<Rightarrow> nat \<Rightarrow> (string \<times> string) res" where
  "convert_chunk ascii p_readbuf p_asciibuf bytes_read =
     (if ascii then
        bnd (lfd_ascii_bin_to_ascii p_readbuf p_asciibuf bytes_read)
          (\<lambda>(num_to_write, p_asciibuf). Inr (p_asciibuf, p_asciibuf))
      else Inr (p_readbuf, p_asciibuf))"

text \<open>
  One turn of \<open>do_file_send_rwloop\<close>. In ASCII mode it sends from the converted buffer, but only as
  many bytes as it has read.
\<close>

definition send_step ::
    "('w, 'z) server_scheme \<Rightarrow> bool \<Rightarrow> sock option
      \<Rightarrow> string \<times> string \<times> apr_size_t \<times> lkl_file \<times> 'w
      \<Rightarrow> (string \<times> string \<times> apr_size_t \<times> lkl_file \<times> 'w,
          lfd_transfer_ret \<times> lkl_file \<times> 'w) ctl res" where
  "send_step os ascii sk = (\<lambda>(p_readbuf, p_asciibuf, total, file, w).
     bnd (lkl_file_read os file 4096 w) (\<lambda>(rc, bytes_read, bytes, file, w).
       let p_readbuf = bytes @ drop (length bytes) p_readbuf in
       if rc \<noteq> APR_SUCCESS \<and> rc \<noteq> APR_EOF then
         Inr (Done (\<lparr>retval = - 1, transferred = total\<rparr>, file, w))
       else if bytes_read = 0 then Inr (Done (\<lparr>retval = 0, transferred = total\<rparr>, file, w))
       else
         bnd (convert_chunk ascii p_readbuf p_asciibuf bytes_read) (\<lambda>(p_writefrom_buf, p_asciibuf).
         case sk of
           None \<Rightarrow> Inl Null_Deref
         | Some fd \<Rightarrow>
             bnd (lfd_socket_write_full os fd p_writefrom_buf (of_nat bytes_read) w)
               (\<lambda>(rc, bytes_written, w).
                 if rc \<noteq> APR_SUCCESS \<or> bytes_written \<noteq> of_nat bytes_read then
                   Inr (Done (\<lparr>retval = - 2, transferred = total\<rparr>, file, w))
                 else Inr (Again (p_readbuf, p_asciibuf, total + bytes_written, file, w))))))"

definition do_file_send_rwloop ::
    "('w, 'z) server_scheme \<Rightarrow> lkl_file \<Rightarrow> bool \<Rightarrow> 'w st
      \<Rightarrow> (lfd_transfer_ret \<times> lkl_file \<times> 'w st) res" where
  "do_file_send_rwloop os file_fd ascii st =
     bnd (run_loop (send_step os ascii (data_sock (data_conn st)))
            (replicate (if ascii then VSFTP_DATA_BUFSIZE * 2 else VSFTP_DATA_BUFSIZE) NUL,
             replicate (VSFTP_DATA_BUFSIZE * 2) NUL, 0, file_fd, world st)) (\<lambda>(ret, file, w).
       Inr (ret, file, st\<lparr>world := w\<rparr>))"

definition check_abor :: "('w, 'z) server_scheme \<Rightarrow> 'w st \<Rightarrow> 'w st res" where
  "check_abor os st =
     (if abor_received (data_conn st) \<noteq> 0 then
        bnd (lfd_cmdio_write os FTP_ABOROK ''ABOR successful.'' []
              (st\<lparr>data_conn := (data_conn st)\<lparr>abor_received := 0\<rparr>\<rparr>)) (\<lambda>(_, st). Inr st)
      else Inr st)"

text \<open>The final replies of a transfer by its outcome.\<close>

definition transfer_reply ::
    "('w, 'z) server_scheme \<Rightarrow> string \<Rightarrow> string \<Rightarrow> string \<Rightarrow> lfd_transfer_ret \<Rightarrow> 'w st
      \<Rightarrow> (int \<times> 'w st) res" where
  "transfer_reply os local_msg net_msg ok_msg ret st =
     (if retval ret = - 1 then lfd_cmdio_write os FTP_BADSENDFILE local_msg [] st
      else if retval ret = - 2 then lfd_cmdio_write os FTP_BADSENDNET net_msg [] st
      else lfd_cmdio_write os FTP_TRANSFEROK ok_msg [] st)"

text \<open>What both transfers do last, with the file's handle.\<close>

definition finish_transfer ::
    "('w, 'z) server_scheme \<Rightarrow> lkl_file \<Rightarrow> 'w st \<Rightarrow> (int \<times> 'w st) res" where
  "finish_transfer os file st =
     bnd (check_abor os st) (\<lambda>st.
       let st = lfd_communication_cleanup os st in
       bnd (lkl_file_close os file (world st)) (\<lambda>(_, w). Inr (APR_SUCCESS, st\<lparr>world := w\<rparr>)))"

definition RETR_FLAGS :: flags where
  "RETR_FLAGS = APR_READ OR APR_BINARY OR APR_LARGEFILE OR APR_SENDFILE_ENABLED"

text \<open>RETR once the file is open: look at its type, seek, connect, send.\<close>

definition retr_opened ::
    "('w, 'z) server_scheme \<Rightarrow> cstr \<Rightarrow> int \<Rightarrow> lkl_file \<Rightarrow> 'w st \<Rightarrow> (int \<times> 'w st) res" where
  "retr_opened os path offset file st =
     (let close = (\<lambda>file st rc.
            bnd (lkl_file_close os file (world st)) (\<lambda>(_, w). Inr (rc, st\<lparr>world := w\<rparr>))) in
      case lkl_stat os (stack_finfo os) path (APR_FINFO_TYPE OR APR_FINFO_SIZE) (world st) of
        (rc, finfo, w) \<Rightarrow>
          let st = st\<lparr>world := w\<rparr> in
          if rc \<noteq> APR_SUCCESS \<or> fi_filetype finfo \<noteq> APR_REG then
            bnd (lfd_cmdio_write os FTP_FILEFAIL
                  (if rc = APR_SUCCESS then ''File type is not of regular type''
                   else ''Failed to stat file.'') [] st) (\<lambda>(_, st). close file st rc)
          else
            bnd (if offset \<noteq> 0 then lkl_file_seek os finfo file APR_SET offset (world st)
                 else Inr (APR_SUCCESS, offset, file, world st)) (\<lambda>(rc, offset, file, w).
              let st = st\<lparr>world := w\<rparr> in
              if rc \<noteq> APR_SUCCESS then
                bnd (lfd_cmdio_write os FTP_FILEFAIL ''Failed to seek into file.'' [] st)
                  (\<lambda>(_, st). close file st rc)
              else case apr_pvsprintf os ''Opening %s %s %s %s %u %s''
                    [Str (if is_ascii st \<noteq> 0 then ''ASCII'' else ''BINARY''),
                     Str '' mode data connection for '', cstr_arg path, Str '' ( '',
                     Uns (nat (fi_size finfo mod 2 ^ 32)), Str '' bytes).''] of
                None \<Rightarrow> Inl Bad_Format
              | Some msg \<Rightarrow>
                  bnd (lfd_get_remote_transfer_fd os msg st) (\<lambda>(remote_fd, st).
                    if remote_fd = None then close file (lfd_communication_cleanup os st) APR_EINVAL
                    else
                      bnd (do_file_send_rwloop os file (is_ascii st \<noteq> 0) st) (\<lambda>(ret, file, st).
                      bnd (lfd_dispose_transfer_fd os st) (\<lambda>st.
                      bnd (transfer_reply os ''Failure reading local file.''
                            ''Failure writing network stream.'' ''File send OK.'' ret st) (\<lambda>(_, st).
                        finish_transfer os file st))))))"

definition handle_retr :: "('w, 'z) server_scheme \<Rightarrow> 'w st \<Rightarrow> (int \<times> 'w st) res" where
  "handle_retr os st =
     (let offset = restart_pos st; st = st\<lparr>restart_pos := 0\<rparr> in
      if ftp_arg_str st = None then lfd_cmdio_write os FTP_BADOPTS NO_ARG [] st
      else bnd (data_transfer_checks_ok os st) (\<lambda>(ok, st).
        if \<not> ok then Inr (APR_EINVAL, st)
        else if is_ascii st \<noteq> 0 \<and> offset \<noteq> 0 then
          bnd (lfd_cmdio_write os FTP_FILEFAIL ''No support for resume of ASCII transfer.'' [] st)
            (\<lambda>(_, st). Inr (APR_EINVAL, st))
        else
          let path = get_abs_path (ftp_arg_str st) st in
          case lkl_file_open os path RETR_FLAGS 0 (world st) of
            (rc, file, w) \<Rightarrow>
              let st = st\<lparr>world := w\<rparr> in
              case file of
                None \<Rightarrow>
                  bnd (lfd_cmdio_write os FTP_FILEFAIL ''Failed to open file.'' [] st) (\<lambda>(_, st).
                    Inr (rc, st))
              | Some file \<Rightarrow> retr_opened os path offset file st))"

section \<open>Receiving a file\<close>

text \<open>
  The name for STOU: the first of \<open>base\<close>, \<open>base.1\<close>, \<open>base.2\<close>, ... that the kernel cannot stat.
  The suffix is an \<open>unsigned int\<close> and wraps.
\<close>

definition unique_step ::
    "('w, 'z) server_scheme \<Rightarrow> cstr \<Rightarrow> 32 word \<times> 'w \<Rightarrow> (32 word \<times> 'w, cstr \<times> 'w) ctl res" where
  "unique_step os base_str = (\<lambda>(suffix, w).
     case apr_pvsprintf os ''%s.%u'' [cstr_arg base_str, Uns (unat suffix)] of
       None \<Rightarrow> Inl Bad_Format
     | Some dest_str \<Rightarrow>
         case lkl_stat os (stack_finfo os) (Some dest_str) APR_FINFO_TYPE w of
           (rc, finfo, w) \<Rightarrow>
             Inr (if rc \<noteq> APR_SUCCESS then Done (Some dest_str, w) else Again (suffix + 1, w)))"

definition get_unique_filename ::
    "('w, 'z) server_scheme \<Rightarrow> cstr \<Rightarrow> 'w \<Rightarrow> (cstr \<times> 'w) res" where
  "get_unique_filename os base_str w =
     (case lkl_stat os (stack_finfo os) base_str APR_FINFO_TYPE w of
        (rc, finfo, w) \<Rightarrow>
          if rc \<noteq> APR_SUCCESS then Inr (base_str, w)
          else run_loop (unique_step os base_str) (1, w))"

text \<open>
  One turn of \<open>do_file_recv\<close>: the received bytes go to offset 1 of the buffer, which leaves room
  for a pending CR in front of them. When the write fails or falls short, the report of it gives two 64-bit
  numbers to conversions that take an \<open>int\<close>, which is undefined, before the loop can return its - 1.
\<close>

definition recv_step ::
    "('w, 'z) server_scheme \<Rightarrow> bool \<Rightarrow> sock
      \<Rightarrow> string \<times> bool \<times> apr_size_t \<times> lkl_file \<times> 'w
      \<Rightarrow> (string \<times> bool \<times> apr_size_t \<times> lkl_file \<times> 'w,
          lfd_transfer_ret \<times> lkl_file \<times> 'w) ctl res" where
  "recv_step os ascii sk = (\<lambda>(p_recvbuf, prev_cr, total, file, w).
     case apr_socket_recv os sk VSFTP_DATA_BUFSIZE w of
       (rc, bytes, w) \<Rightarrow>
         let bytes_recvd = length bytes;
             p_recvbuf = take 1 p_recvbuf @ bytes @ drop (1 + bytes_recvd) p_recvbuf
         in if rc \<noteq> APR_SUCCESS \<and> rc \<noteq> APR_EOF then
              Inr (Done (\<lparr>retval = - 2, transferred = total\<rparr>, file, w))
            else if bytes_recvd = 0 \<and> \<not> prev_cr \<and> rc = APR_EOF then
              Inr (Done (\<lparr>retval = 0, transferred = total\<rparr>, file, w))
            else
              let total = total + of_nat bytes_recvd in
              bnd (if ascii then
                     bnd (lfd_ascii_ascii_to_bin p_recvbuf bytes_recvd prev_cr) (\<lambda>(r, p_recvbuf).
                       Inr (p_recvbuf, stored r, last_was_cr r, p_buf r))
                   else Inr (p_recvbuf, bytes_recvd, prev_cr, 1))
                (\<lambda>(p_recvbuf, num_to_write, prev_cr, p_writebuf).
                  bnd (lkl_file_write_full os p_recvbuf (of_nat p_writebuf) (of_nat num_to_write)
                        (file, w)) (\<lambda>(rc, bytes_written, file, w).
                    if rc \<noteq> APR_SUCCESS \<or> of_nat num_to_write \<noteq> bytes_written then Inl Bad_Format
                    else Inr (Again (p_recvbuf, prev_cr, total, file, w)))))"

definition do_file_recv ::
    "('w, 'z) server_scheme \<Rightarrow> lkl_file \<Rightarrow> bool \<Rightarrow> 'w st
      \<Rightarrow> (lfd_transfer_ret \<times> lkl_file \<times> 'w st) res" where
  "do_file_recv os file_fd ascii st =
     (case data_sock (data_conn st) of
        None \<Rightarrow> Inl Null_Deref
      | Some sk \<Rightarrow>
          bnd (run_loop (recv_step os ascii sk)
                 (replicate (VSFTP_DATA_BUFSIZE + 1) NUL, False, 0, file_fd, world st))
            (\<lambda>(ret, file, w). Inr (ret, file, st\<lparr>world := w\<rparr>)))"

definition UPLOAD_FLAGS :: flags where
  "UPLOAD_FLAGS = APR_CREATE OR APR_WRITE OR APR_APPEND OR APR_BINARY"

definition upload_opened ::
    "('w, 'z) server_scheme \<Rightarrow> cstr \<Rightarrow> bool \<Rightarrow> lkl_file \<Rightarrow> 'w st \<Rightarrow> (int \<times> 'w st) res" where
  "upload_opened os filename is_unique file st =
     (let msg = (if is_unique then ''FILE: '' @ (case filename of None \<Rightarrow> [] | Some f \<Rightarrow> f)
                 else ''Ok to send data.'') in
      bnd (if is_unique then lfd_cmdio_write os FTP_DATACONN msg [] st else Inr (APR_SUCCESS, st))
        (\<lambda>(rc, st).
          if rc \<noteq> APR_SUCCESS then Inr (rc, st)
          else bnd (lfd_get_remote_transfer_fd os msg st) (\<lambda>(remote_fd, st).
            if remote_fd = None then Inr (APR_EINVAL, st)
            else
              bnd (do_file_recv os file (is_ascii st \<noteq> 0) st) (\<lambda>(ret, file, st).
              bnd (lfd_dispose_transfer_fd os st) (\<lambda>st.
                let st = st\<lparr>data_conn := (data_conn st)\<lparr>transfer_size := transferred ret\<rparr>\<rparr> in
                bnd (transfer_reply os ''Failure writing to local file.''
                      ''Failure reading network stream.'' ''File receive OK.'' ret st) (\<lambda>(_, st).
                  finish_transfer os file st))))))"

definition handle_upload_common ::
    "('w, 'z) server_scheme \<Rightarrow> bool \<Rightarrow> bool \<Rightarrow> 'w st \<Rightarrow> (int \<times> 'w st) res" where
  "handle_upload_common os is_append is_unique st =
     (let offset = restart_pos st; st = st\<lparr>restart_pos := 0\<rparr> in
      if ftp_arg_str st = None then lfd_cmdio_write os FTP_BADOPTS NO_ARG [] st
      else bnd (data_transfer_checks_ok os st) (\<lambda>(ok, st).
        if \<not> ok then Inr (APR_EINVAL, st)
        else
          let path = get_abs_path (ftp_arg_str st) st in
          bnd (if is_unique then get_unique_filename os path (world st) else Inr (path, world st))
            (\<lambda>(filename, w).
              let flags = UPLOAD_FLAGS;
                  flags = (if \<not> is_append \<and> offset = 0 then flags OR APR_TRUNCATE else flags)
              in case lkl_file_open os filename flags APR_OS_DEFAULT w of
                   (rc, file, w) \<Rightarrow>
                     let st = st\<lparr>world := w\<rparr> in
                     case file of
                       None \<Rightarrow>
                         bnd (lfd_cmdio_write os FTP_UPLOADFAIL ''Could not create file.'' [] st)
                           (\<lambda>(_, st). Inr (rc, st))
                     | Some file \<Rightarrow>
                         bnd (if \<not> is_append \<and> offset \<noteq> 0 then
                                lkl_file_seek os (stack_finfo os) file APR_SET offset (world st)
                              else Inr (APR_SUCCESS, offset, file, world st)) (\<lambda>(rc, offset, file, w).
                           let st = st\<lparr>world := w\<rparr> in
                           if rc \<noteq> APR_SUCCESS then
                             bnd (lfd_cmdio_write os FTP_UPLOADFAIL ''Could not seek into file.'' [] st)
                               (\<lambda>(_, st). Inr (rc, st))
                           else upload_opened os filename is_unique file st))))"

definition handle_stor :: "('w, 'z) server_scheme \<Rightarrow> 'w st \<Rightarrow> (int \<times> 'w st) res" where
  "handle_stor os st = handle_upload_common os False False st"

definition handle_appe :: "('w, 'z) server_scheme \<Rightarrow> 'w st \<Rightarrow> (int \<times> 'w st) res" where
  "handle_appe os st = handle_upload_common os True False st"

definition handle_stou :: "('w, 'z) server_scheme \<Rightarrow> 'w st \<Rightarrow> (int \<times> 'w st) res" where
  "handle_stou os st = handle_upload_common os False True st"

end
