(* ===== verification/TransferContracts.thy ===== *)
theory TransferContracts
  imports Transfers
begin

text \<open>
  The transfer loops of cmdhandler.c over a kernel and a network that behave as documented: the
  socket loop as the second client of the writer's contract, the send loop as a client of the
  readers, the receive loop as a client of the file writer and of the chunk conversion.
\<close>

section \<open>The socket loop as a client of the writer's contract\<close>

context partial_writer
begin

lemma socket_full_spec:
  assumes "inv s" and "unat n \<le> length mem" and "length mem < 2 ^ 31"
  shows "wp (\<lambda>e. e = Diverge) (\<lambda>(rc, k, s'). inv s' \<and> unat k \<le> unat n
      \<and> (\<exists>t. unat k \<le> t \<and> t \<le> unat n \<and> out s' = out s @ take t mem \<and> (rc = APR_SUCCESS \<longrightarrow> t = unat k)))
    (run_loop (socket_write_step wr mem) (0, n, s))"
proof (rule wp_run_loop [where I = "\<lambda>(p, m, u). inv u \<and> unat p + unat m = unat n
      \<and> out u = out s @ take (unat p) mem"], goal_cases)
  case (3 x)
  obtain p m u where x: "x = (p, m, u)" by (cases x) auto
  with 3 have I: "inv u" "unat p + unat m = unat n" "out u = out s @ take (unat p) mem" by auto
  show ?case
    unfolding x socket_write_step_def prod.case wp_bnd
  proof (rule wp_mono [OF wr_spec], goal_cases)
    case (5 r)
    obtain rc k s' where r: "r = (rc, k, s')" by (cases r) auto
    with 5 have k: "inv s'" "unat k \<le> unat m" "out s' = out u @ take (unat k) (drop (unat p) mem)"
      by auto
    have "length mem < 2 ^ 64" using assms(3) by simp
    then have pk: "unat (p + k) = unat p + unat k" "unat (m - k) = unat m - unat k"
      using k I assms(2) by (auto simp: unat_add_lem [THEN iffD1] unat_sub word_le_nat_alt)
    have o: "out s' = out s @ take (unat p + unat k) mem" using k I by (simp add: take_add)
    have z: "m - k = 0 \<Longrightarrow> unat p + unat k = unat n" using pk(2) k(2) I(2) by (metis le_add_diff_inverse unat_0 add.commute add_0 diff_is_0_eq' le_antisym)
    show ?case
    proof (cases "rc = APR_SUCCESS \<and> k \<noteq> 0")
      case False
      have "\<exists>t. unat p \<le> t \<and> t \<le> unat n \<and> out s' = out s @ take t mem \<and> (rc = APR_SUCCESS \<longrightarrow> t = unat p)"
        using False o k(2) I(2) by (intro exI [where x = "unat p + unat k"]) auto
      with False k(1) I show ?thesis by (auto simp: r)
    next
      case True
      with pk k o I show ?thesis by (auto simp: r Let_def)
    qed
  qed (use I assms in auto)
qed (use assms in auto)

end

context progressing_writer
begin

lemma socket_full_returns:
  assumes "inv s" and "unat n \<le> length mem" and "length mem < 2 ^ 31" and "0 < n"
  shows "wp (\<lambda>_. False) (\<lambda>(rc, k, s'). inv s' \<and> unat k \<le> unat n
      \<and> (\<exists>t. unat k \<le> t \<and> t \<le> unat n \<and> out s' = out s @ take t mem)
      \<and> (rc = APR_SUCCESS \<longrightarrow> k = n \<and> out s' = out s @ take (unat n) mem))
    (run_loop (socket_write_step wr mem) (0, n, s))"
proof -
  have "wp (\<lambda>_. False) (\<lambda>(rc, k, s'). rc = APR_SUCCESS \<longrightarrow> k = n)
    (run_loop (socket_write_step wr mem) (0, n, s))"
  proof (rule wp_run_loop_total [where \<mu> = "\<lambda>(p, m, u). unat m" and
      I = "\<lambda>(p, m, u). inv u \<and> 0 < m \<and> unat p + unat m = unat n"], goal_cases)
    case (2 x)
    obtain p m u where x: "x = (p, m, u)" by (cases x) auto
    with 2 have I: "inv u" "0 < m" "unat p + unat m = unat n" by auto
    have "wp (\<lambda>_. False) (\<lambda>(rc, k, s'). inv s' \<and> unat k \<le> unat m
        \<and> (rc = APR_SUCCESS \<longrightarrow> 0 < k)) (wr mem p m u)"
      by (rule wp_mono [OF wr_total [OF I(1) _ assms(3) I(2)]]) (use I assms in auto)
    then show ?case
      unfolding x socket_write_step_def prod.case wp_bnd
    proof (rule wp_mono, goal_cases)
      case (2 r)
      obtain rc k s' where r: "r = (rc, k, s')" by (cases r) auto
      with 2 have k: "inv s'" "unat k \<le> unat m" "rc = APR_SUCCESS \<Longrightarrow> 0 < unat k"
        by (auto simp: word_less_nat_alt)
      have "length mem < 2 ^ 64" using assms(3) by simp
      then have pk: "unat (p + k) = unat p + unat k" "unat (m - k) = unat m - unat k"
        using k I assms(2) by (auto simp: unat_add_lem [THEN iffD1] unat_sub word_le_nat_alt)
      have "0 < unat m" using I by (simp add: word_less_nat_alt)
      moreover have "p + k = n" if "m - k = 0"
      proof (rule word_unat_eq_iff [THEN iffD2])
        have "unat (m - k) = 0" using that by simp
        then show "unat (p + k) = unat n" using pk I(3) k(2) by simp
      qed
      ultimately show ?case
        using k pk I by (auto simp: r Let_def word_greater_zero_iff)
    qed simp
  qed (use assms in auto)
  with socket_full_spec [OF assms(1,2,3)] show ?thesis
    by (cases "run_loop (socket_write_step wr mem) (0, n, s)") auto
qed

end

text \<open>
  A connection that takes a prefix of what it is given, a non-empty one when it reports success.
\<close>

definition socket_sends :: "('w, 'z) apr_scheme \<Rightarrow> sock \<Rightarrow> ('w \<Rightarrow> string) \<Rightarrow> bool" where
  "socket_sends os fd sent \<longleftrightarrow> (\<forall>bytes w rc k w'. apr_socket_send os fd bytes w = (rc, k, w') \<longrightarrow>
     k \<le> length bytes \<and> sent w' = sent w @ take k bytes \<and> (rc = APR_SUCCESS \<and> bytes \<noteq> [] \<longrightarrow> 0 < k))"

lemma socket_send_spec:
  assumes "socket_sends os fd sent" and "unat off + unat n \<le> length mem"
  shows "wp (\<lambda>_. False) (\<lambda>(rc, k, w'). unat k \<le> unat n
      \<and> sent w' = sent w @ take (unat k) (drop (unat off) mem)
      \<and> (0 < n \<longrightarrow> rc = APR_SUCCESS \<longrightarrow> 0 < k)) (socket_send os fd mem off n w)"
proof -
  let ?bytes = "take (unat n) (drop (unat off) mem)"
  obtain rc k w' where s: "apr_socket_send os fd ?bytes w = (rc, k, w')"
    by (cases "apr_socket_send os fd ?bytes w") auto
  have len: "length ?bytes = unat n" using assms(2) by simp
  from s assms(1) have k: "k \<le> length ?bytes" "sent w' = sent w @ take k ?bytes"
    "rc = APR_SUCCESS \<and> ?bytes \<noteq> [] \<longrightarrow> 0 < k" unfolding socket_sends_def by blast+
  have "unat n < 2 ^ 64" using unsigned_less [of n] by simp
  with k(1) len have uk: "unat (of_nat k :: apr_size_t) = k"
    unfolding unat_of_nat by (intro mod_less) simp
  have "?bytes \<noteq> []" if "0 < n"
  proof -
    have "0 < unat n" using that by (simp add: word_less_nat_alt)
    with len show ?thesis by (metis length_0_conv less_irrefl)
  qed
  moreover have "take k ?bytes = take k (drop (unat off) mem)" using k(1) len by (simp add: min_absorb1)
  ultimately show ?thesis
    using s k len assms(2) uk by (auto simp: socket_send_def word_less_nat_alt)
qed

interpretation socket_sink: progressing_writer "socket_send os fd" sent "\<lambda>_. socket_sends os fd sent"
  for os fd sent
proof (unfold_locales, goal_cases)
  case (1 s buf n mem)
  then show ?case by (intro wp_mono [OF socket_send_spec [where sent = sent]]) auto
next
  case (2 s buf n mem)
  then show ?case by (intro wp_mono [OF socket_send_spec [where sent = sent]]) auto
qed

section \<open>The send loop\<close>

text \<open>
  Reading the file does not touch what has been sent, and sending does not touch the file.
\<close>

definition reads_keep :: "('w, 'z) lkl_scheme \<Rightarrow> ('w \<Rightarrow> 'b) \<Rightarrow> bool" where
  "reads_keep os g \<longleftrightarrow> (\<forall>fd n w. g (snd (snd (lkl_sys_read os fd n w))) = g w)
     \<and> (\<forall>fd b t w. g (snd (lkl_sys_poll os fd b t w)) = g w)"

definition sends_keep :: "('w, 'z) apr_scheme \<Rightarrow> ('w \<Rightarrow> 'b) \<Rightarrow> bool" where
  "sends_keep os g \<longleftrightarrow> (\<forall>fd b w. g (snd (snd (apr_socket_send os fd b w))) = g w)"

lemma eintr_keeps:
  assumes "\<And>v. g (prj (snd (call v))) = g v"
  shows "wp (\<lambda>_. True) (\<lambda>r. g (prj (snd r)) = g w) (eintr_loop call prj w)"
proof (rule wp_eintr_loop [where J = "\<lambda>v. g v = g w"], goal_cases)
  case (3 v r)
  with assms [of v] show ?case by simp
next
  case (4 v rc r)
  with assms [of v] show ?case by simp
qed simp_all

lemma read_or_wait_keeps:
  assumes "reads_keep os g"
  shows "wp (\<lambda>_. True) (\<lambda>(r, w'). g w' = g w) (read_or_wait os f n w)"
proof -
  have read: "wp (\<lambda>_. True) (\<lambda>(rv, b, v'). g v' = g v)
      (eintr_loop (lkl_sys_read os (filedes f) n) snd v)" for v
    by (rule wp_mono [OF eintr_keeps [where g = g]]) (use assms in \<open>auto simp: reads_keep_def\<close>)
  have poll: "wp (\<lambda>_. True) (\<lambda>(rv, v'). g v' = g v)
      (eintr_loop (lkl_sys_poll os (filedes f) b t) id v)" for b t v
    by (rule wp_mono [OF eintr_keeps [where g = g]]) (use assms in \<open>auto simp: reads_keep_def\<close>)
  have wait: "wp (\<lambda>_. True) (\<lambda>(rv, v'). g v' = g v) (lkl_wait_for_io_or_timeout os f b v)" for b v
    unfolding lkl_wait_for_io_or_timeout_def Let_def wp_bnd by (rule wp_mono [OF poll]) auto
  have again: "wp (\<lambda>_. True) (\<lambda>(r, w'). g w' = g w)
      (bnd (eintr_loop (lkl_sys_read os (filedes f) n) snd v) (\<lambda>(rv, bytes, w). Inr (Inr (rv, bytes), w)))"
    if "g v = g w" for v
    unfolding wp_bnd by (rule wp_mono [OF read]) (use that in auto)
  show ?thesis
    unfolding read_or_wait_def Let_def wp_bnd
  proof (rule wp_mono [OF read], goal_cases)
    case (2 a)
    obtain rv b v where a: "a = (rv, b, v)" by (cases a) auto
    with 2 have v: "g v = g w" by simp
    show ?case
    proof (cases "rv = - EAGAIN \<and> timeout f \<noteq> 0")
      case True
      show ?thesis
        unfolding a prod.case if_P [OF True] wp_bnd
        by (rule wp_mono [OF wait]) (use v again in \<open>auto simp del: wp_bnd\<close>)
    next
      case False
      with v show ?thesis unfolding a prod.case if_not_P [OF False] by simp
    qed
  qed simp
qed

lemma read_keeps:
  assumes "\<not> buffered f" and "reads_keep os g"
  shows "wp (\<lambda>_. True) (\<lambda>(rc, k, b, f', w'). g w' = g w) (lkl_file_read os f n w)"
  using assms(1) unfolding lkl_file_read_def Let_def
  by (auto intro!: wp_mono [OF read_or_wait_keeps [OF assms(2)]] split: sum.splits)

lemma socket_full_keeps:
  assumes "sends_keep os g"
  shows "wp (\<lambda>_. True) (\<lambda>(rc, k, w'). g w' = g w) (lfd_socket_write_full os fd mem n w)"
  unfolding lfd_socket_write_full_def
proof (rule wp_run_loop [where I = "\<lambda>(p, m, v). g v = g w"], goal_cases)
  case (3 x)
  obtain p m v where x: "x = (p, m, v)" by (cases x) auto
  have "g (snd (snd (apr_socket_send os fd b v))) = g v" for b
    using assms by (simp add: sends_keep_def)
  then have "g w' = g v" if "apr_socket_send os fd b v = (rc, k, w')" for b rc k w'
    using that by (metis snd_conv)
  with 3 show ?case
    by (auto simp: x socket_write_step_def socket_send_def slice_def Let_def split: prod.splits)
qed auto

text \<open>What one chunk of the file becomes on the wire.\<close>

definition wire :: "bool \<Rightarrow> string \<Rightarrow> string" where
  "wire ascii ch = (if ascii then take (length ch) (to_dos ch) else ch)"

lemma length_wire [simp]: "length (wire ascii ch) = length ch"
  using length_to_dos_ge [of ch] by (simp add: wire_def)

text \<open>
  \<open>sent_chunks\<close> relates the start of a transfer to a later moment: the file has been read as the
  chunks \<open>chs\<close>, each non-empty and at most 4096 bytes long, and each has been sent.
\<close>

definition sent_chunks ::
    "bool \<Rightarrow> ('w \<Rightarrow> string) \<Rightarrow> ('w \<Rightarrow> string) \<Rightarrow> lkl_file \<Rightarrow> 'w \<Rightarrow> string list \<Rightarrow> lkl_file \<Rightarrow> 'w \<Rightarrow> bool" where
  "sent_chunks ascii rest sent f w chs f' w' \<longleftrightarrow>
     (\<forall>c\<in>set chs. c \<noteq> [] \<and> length c \<le> 4096) \<and> \<not> buffered f' \<and> filedes f' = filedes f
     \<and> rstream rest f w = concat chs @ rstream rest f' w'
     \<and> sent w' = sent w @ concat (map (wire ascii) chs)"

definition send_bufs :: "bool \<Rightarrow> string \<Rightarrow> string \<Rightarrow> bool" where
  "send_bufs ascii rb ab \<longleftrightarrow> length ab = VSFTP_DATA_BUFSIZE * 2
     \<and> length rb = (if ascii then VSFTP_DATA_BUFSIZE * 2 else VSFTP_DATA_BUFSIZE)"

lemma convert_chunk_eq:
  assumes "length bytes \<le> 4096" and "send_bufs ascii rb ab"
  defines "rb' \<equiv> bytes @ drop (length bytes) rb"
  shows "\<exists>from ab'. convert_chunk ascii rb' ab (length bytes) = Inr (from, ab')
      \<and> take (length bytes) from = wire ascii bytes
      \<and> length bytes \<le> length from \<and> length from < 2 ^ 31 \<and> send_bufs ascii rb' ab'"
proof (cases ascii)
  case True
  let ?d = "to_dos bytes"
  have rb: "length rb' = length rb" "take (length bytes) rb' = bytes"
    using assms(1,2) by (auto simp: rb'_def send_bufs_def VSFTP_DATA_BUFSIZE_def)
  have d: "length ?d \<le> length ab" "length bytes \<le> length ?d"
    using length_to_dos_le [of bytes] length_to_dos_ge [of bytes] assms(1,2)
    by (auto simp: send_bufs_def VSFTP_DATA_BUFSIZE_def)
  have "lfd_ascii_bin_to_ascii rb' ab (length bytes)
      = Inr (length ?d, ?d @ drop (length ?d) ab)"
    using bin_to_ascii_eq [of "length bytes" rb' ab] rb assms(1,2)
    by (auto simp: send_bufs_def VSFTP_DATA_BUFSIZE_def)
  with True d rb assms(2) show ?thesis
    by (auto simp: convert_chunk_def wire_def send_bufs_def VSFTP_DATA_BUFSIZE_def)
next
  case False
  with assms show ?thesis
    by (auto simp: convert_chunk_def wire_def send_bufs_def VSFTP_DATA_BUFSIZE_def)
qed

end
