(* ===== verification/TransferProps.thy ===== *)
theory TransferProps
  imports TransferContracts
begin

text \<open>
  What the two transfer loops do with a file and a connection that behave as documented: a binary
  download sends the file, an ASCII download as many bytes as the file has, an upload stores the
  stream or its conversion, however it is cut into chunks.
\<close>

section \<open>Sending\<close>

lemma chunk_sent:
  assumes "socket_sends os fd sent" and "sends_keep os rest"
    and "length from < 2 ^ 31" and "k \<le> length from" and "0 < k"
  shows "wp (\<lambda>_. False) (\<lambda>(rc, n, w'). rest w' = rest v
      \<and> (\<exists>t. t \<le> k \<and> sent w' = sent v @ take t from)
      \<and> (rc = APR_SUCCESS \<and> n = of_nat k \<longrightarrow> sent w' = sent v @ take k from))
    (lfd_socket_write_full os fd from (of_nat k) v)"
proof -
  have k: "unat (of_nat k :: apr_size_t) = k" "0 < (of_nat k :: apr_size_t)"
    using assms(3-5) by (simp_all add: unat_of_nat take_bit_eq_mod word_less_nat_alt)
  note full = socket_sink.socket_full_returns [where os = os and fd = fd and sent = sent and s = v
      and n = "of_nat k" and mem = "from", OF assms(1) _ assms(3) k(2), folded lfd_socket_write_full_def]
  from full socket_full_keeps [OF assms(2), where fd = fd and mem = "from" and n = "of_nat k" and w = v] assms(4) show ?thesis
    unfolding k(1) by (cases "lfd_socket_write_full os fd from (of_nat k) v") auto
qed


lemma send_step_spec:
  assumes "socket_sends os fd sent" and "sends_keep os rest" and "reads_keep os sent"
    and "kernel_reads os (filedes f) rest \<mu>"
    and "send_bufs ascii rb ab" and "sent_chunks ascii rest sent f w chs g v"
    and "t = of_nat (length (concat chs))"
  shows "wp (\<lambda>_. False) (\<lambda>c. case c of
      Again (rb', ab', t', g', v') \<Rightarrow> length (rstream rest g' v') < length (rstream rest g v)
        \<and> send_bufs ascii rb' ab'
        \<and> (\<exists>chs'. sent_chunks ascii rest sent f w chs' g' v' \<and> t' = of_nat (length (concat chs')))
    | Done (ret, f', w') \<Rightarrow>
        (retval ret = 0 \<longrightarrow> transferred ret = t \<and> sent_chunks ascii rest sent f w chs f' w'
           \<and> rstream rest f' w' = [])
        \<and> retval ret \<in> {0, - 1, - 2}
        \<and> (\<exists>chs' p. sent w' = sent w @ concat (map (wire ascii) chs') @ p \<and> (\<not> ascii \<longrightarrow>
             (\<exists>q. rstream rest f w = concat chs' @ p @ q))))
    (send_step os ascii (Some fd) (rb, ab, t, g, v))"
proof -
  have g: "\<not> buffered g" "filedes g = filedes f" "rstream rest f w = concat chs @ rstream rest g v"
    "sent v = sent w @ concat (map (wire ascii) chs)" "\<forall>c\<in>set chs. c \<noteq> [] \<and> length c \<le> 4096"
    using assms(6) by (auto simp: sent_chunks_def)
  have rd: "wp (\<lambda>_. False) (\<lambda>(rc, k, bytes, g', v'). (\<not> buffered g' \<and> filedes g' = filedes g
      \<and> k = length bytes \<and> k \<le> 4096 \<and> rstream rest g v = bytes @ rstream rest g' v'
      \<and> (rc = APR_SUCCESS \<longrightarrow> bytes \<noteq> []) \<and> (rc = APR_EOF \<longrightarrow> rstream rest g' v' = []))
      \<and> sent v' = sent v) (lkl_file_read os g 4096 v)"
    using read_unbuffered_spec [OF g(1), where rest = rest and \<mu> = \<mu> and os = os and n = 4096 and w = v]
      read_keeps [OF g(1) assms(3), where n = 4096 and w = v] assms(4) g(2)
    by (cases "lkl_file_read os g 4096 v") auto
  show ?thesis
    unfolding send_step_def prod.case wp_bnd
  proof (rule wp_mono [OF rd], goal_cases)
    case (2 r)
    obtain rc k bytes g' v' where r: "r = (rc, k, bytes, g', v')" by (cases r) auto
    with 2 have R: "\<not> buffered g'" "filedes g' = filedes g" "k = length bytes" "length bytes \<le> 4096"
      "rstream rest g v = bytes @ rstream rest g' v'" "rc = APR_SUCCESS \<longrightarrow> bytes \<noteq> []"
      "rc = APR_EOF \<longrightarrow> rstream rest g' v' = []" "sent v' = sent v" by auto
    have stop: "\<exists>chs' p. sent v' = sent w @ concat (map (wire ascii) chs') @ p \<and> (\<not> ascii \<longrightarrow>
        (\<exists>q. rstream rest f w = concat chs' @ p @ q))"
      using g(3,4) R(8) by (intro exI [where x = chs] exI [where x = "[]"]) auto
    show ?case
    proof (cases "rc \<noteq> APR_SUCCESS \<and> rc \<noteq> APR_EOF \<or> bytes = []")
      case True
      have "sent_chunks ascii rest sent f w chs g' v' \<and> rstream rest g' v' = []"
        if "rc = APR_SUCCESS \<or> rc = APR_EOF"
        using that True R g by (auto simp: sent_chunks_def)
      with True stop R(3) show ?thesis by (auto simp: r Let_def)
    next
      case False
      then have rc: "\<not> (rc \<noteq> APR_SUCCESS \<and> rc \<noteq> APR_EOF)" "k \<noteq> 0" "0 < k" using R(3) by auto
      obtain frm ab' where conv: "convert_chunk ascii (bytes @ drop (length bytes) rb) ab (length bytes)
          = Inr (frm, ab')" "take (length bytes) frm = wire ascii bytes"
          "length bytes \<le> length frm" "length frm < 2 ^ 31"
          "send_bufs ascii (bytes @ drop (length bytes) rb) ab'"
        using convert_chunk_eq [OF R(4) assms(5)] by auto
      have full: "wp (\<lambda>_. False) (\<lambda>(rc, n, w'). rest w' = rest v'
          \<and> (\<exists>t. t \<le> k \<and> sent w' = sent v' @ take t frm)
          \<and> (rc = APR_SUCCESS \<and> n = of_nat k \<longrightarrow> sent w' = sent v' @ take k frm))
        (lfd_socket_write_full os fd frm (of_nat k) v')"
        by (rule chunk_sent [OF assms(1,2) conv(4)]) (use conv(3) R(3) rc in auto)
      show ?thesis
        unfolding r prod.case Let_def if_not_P [OF rc(1)] if_not_P [OF rc(2) [unfolded R(3)]] R(3) conv(1) bnd_Inr
          option.case wp_bnd
      proof (rule wp_mono [OF full [unfolded R(3)]], goal_cases)
        case (2 a)
        obtain rc2 n w' where a: "a = (rc2, n, w')" by (cases a) auto
        with 2 have A: "rest w' = rest v'" "\<exists>t. t \<le> length bytes \<and> sent w' = sent v' @ take t frm"
          "rc2 = APR_SUCCESS \<and> n = of_nat (length bytes) \<longrightarrow> sent w' = sent v' @ take (length bytes) frm"
          by auto
        have st: "rstream rest g' w' = rstream rest g' v'" using A(1) by (simp add: rstream_def)
        show ?case
        proof (cases "rc2 \<noteq> APR_SUCCESS \<or> n \<noteq> of_nat (length bytes)")
          case True
          from A(2) obtain t where t: "t \<le> length bytes" "sent w' = sent v' @ take t frm" by blast
          have "take t frm = take t (wire ascii bytes)"
            using conv(2) t(1) by (metis min.absorb1 take_take)
          then have "\<exists>chs' p. sent w' = sent w @ concat (map (wire ascii) chs') @ p \<and> (\<not> ascii \<longrightarrow>
              (\<exists>q. rstream rest f w = concat chs' @ p @ q))"
            using t g(3,4) R(5,8)
            by (intro exI [where x = chs] exI [where x = "take t (wire ascii bytes)"])
              (auto simp: wire_def intro!: exI [where x = "drop t bytes @ rstream rest g' v'"])
          with True show ?thesis by (auto simp: a)
        next
          case ok: False
          have "sent_chunks ascii rest sent f w (chs @ [bytes]) g' w'"
            using ok A(3) R g st conv(2) False by (auto simp: sent_chunks_def)
          moreover have "length (rstream rest g' w') < length (rstream rest g v)"
            using R(5) st False by auto
          ultimately show ?thesis
            using ok conv(5) assms(7)
            by (auto simp: a intro!: exI [where x = "chs @ [bytes]"])
        qed
      qed simp
    qed
  qed simp
qed


lemma send_bufs_fresh:
  "send_bufs ascii (replicate (if ascii then VSFTP_DATA_BUFSIZE * 2 else VSFTP_DATA_BUFSIZE) NUL)
     (replicate (VSFTP_DATA_BUFSIZE * 2) NUL)"
  by (simp add: send_bufs_def)

lemma send_file_spec:
  assumes "data_sock (data_conn st) = Some fd" and "\<not> buffered f"
    and "kernel_reads os (filedes f) rest \<mu>" and "socket_sends os fd sent"
    and "reads_keep os sent" and "sends_keep os rest"
  shows "wp (\<lambda>_. False) (\<lambda>(ret, f', st').
      st' = st\<lparr>world := world st'\<rparr> \<and> retval ret \<in> {0, - 1, - 2}
    \<and> (retval ret = 0 \<longrightarrow> (\<exists>chs. concat chs = rstream rest f (world st)
         \<and> sent (world st') = sent (world st) @ concat (map (wire ascii) chs)
         \<and> transferred ret = of_nat (length (concat chs))))
    \<and> (\<not> ascii \<longrightarrow> (\<exists>p q. rstream rest f (world st) = p @ q \<and> sent (world st') = sent (world st) @ p)))
    (do_file_send_rwloop os f ascii st)"
proof -
  let ?I = "\<lambda>(rb, ab, t, g, v). send_bufs ascii rb ab \<and> (\<exists>chs. sent_chunks ascii rest sent f (world st) chs g v
      \<and> t = of_nat (length (concat chs)))"
  let ?Q = "\<lambda>(ret, f', w'). retval ret \<in> {0, - 1, - 2}
    \<and> (retval ret = 0 \<longrightarrow> (\<exists>chs. concat chs = rstream rest f (world st)
         \<and> sent w' = sent (world st) @ concat (map (wire ascii) chs)
         \<and> transferred ret = of_nat (length (concat chs))))
    \<and> (\<not> ascii \<longrightarrow> (\<exists>p q. rstream rest f (world st) = p @ q \<and> sent w' = sent (world st) @ p))"
  have "wp (\<lambda>_. False) ?Q (run_loop (send_step os ascii (Some fd))
      (replicate (if ascii then VSFTP_DATA_BUFSIZE * 2 else VSFTP_DATA_BUFSIZE) NUL,
       replicate (VSFTP_DATA_BUFSIZE * 2) NUL, 0, f, world st))"
  proof (rule wp_run_loop_total [where I = ?I and \<mu> = "\<lambda>(rb, ab, t, g, v). length (rstream rest g v)"],
      goal_cases)
    case 1
    show ?case
      using assms(2) send_bufs_fresh by (auto simp: sent_chunks_def intro!: exI [where x = "[]"])
  next
    case (2 x)
    obtain rb ab t g v where x: "x = (rb, ab, t, g, v)" by (cases x) auto
    with 2 obtain chs where I: "send_bufs ascii rb ab"
      "sent_chunks ascii rest sent f (world st) chs g v" "t = of_nat (length (concat chs))" by auto
    show ?case
      unfolding x
    proof (rule wp_mono [OF send_step_spec [OF assms(4,6,5,3) I]], goal_cases)
      case (2 c)
      show ?case
      proof (cases c)
        case (Done d)
        obtain ret f' w' where d: "d = (ret, f', w')" by (cases d) auto
        from 2 have D: "retval ret = 0 \<longrightarrow> transferred ret = t
            \<and> sent_chunks ascii rest sent f (world st) chs f' w' \<and> rstream rest f' w' = []"
          "retval ret \<in> {0, - 1, - 2}"
          "\<exists>chs' p. sent w' = sent (world st) @ concat (map (wire ascii) chs') @ p \<and> (\<not> ascii \<longrightarrow>
             (\<exists>q. rstream rest f (world st) = concat chs' @ p @ q))"
          by (auto simp: Done d)
        have "\<exists>p q. rstream rest f (world st) = p @ q \<and> sent w' = sent (world st) @ p" if "\<not> ascii"
        proof -
          from D(3) that obtain chs' p q where "sent w' = sent (world st) @ concat (map (wire ascii) chs') @ p"
            "rstream rest f (world st) = concat chs' @ p @ q" by blast
          moreover have "map (wire ascii) chs' = chs'" using that by (simp add: wire_def map_idI)
          ultimately show ?thesis by (intro exI [where x = "concat chs' @ p"] exI [where x = q]) simp
        qed
        moreover have "\<exists>chs. concat chs = rstream rest f (world st)
            \<and> sent w' = sent (world st) @ concat (map (wire ascii) chs)
            \<and> transferred ret = of_nat (length (concat chs))" if "retval ret = 0"
          using D(1) that I(3) by (intro exI [where x = chs]) (auto simp: sent_chunks_def)
        ultimately show ?thesis using D(2) by (simp add: Done d)
      qed (use 2 in auto)
    qed simp
  qed
  then show ?thesis
    unfolding do_file_send_rwloop_def wp_bnd assms(1)
  proof (rule wp_mono, goal_cases)
    case (2 a)
    then show ?case by (cases a) simp
  qed simp
qed

text \<open>
  C13. The binary download always returns. What it has sent is a prefix of what was left of the file,
  all of it when it reports success, with the number of bytes sent; nothing of the session but
  the world has changed.
\<close>
theorem binary_send:
  assumes "data_sock (data_conn st) = Some fd" and "\<not> buffered f"
    and "kernel_reads os (filedes f) rest \<mu>" and "socket_sends os fd sent"
    and "reads_keep os sent" and "sends_keep os rest"
  shows "wp (\<lambda>_. False) (\<lambda>(ret, f', st'). st' = st\<lparr>world := world st'\<rparr> \<and> retval ret \<in> {0, - 1, - 2}
    \<and> (\<exists>p q. rstream rest f (world st) = p @ q \<and> sent (world st') = sent (world st) @ p
      \<and> (retval ret = 0 \<longrightarrow> q = [] \<and> transferred ret = of_nat (length p))))
    (do_file_send_rwloop os f False st)"
proof (rule wp_mono [OF send_file_spec [OF assms, where ascii = False]], goal_cases)
  case (2 a)
  obtain ret f' st' where a: "a = (ret, f', st')" by (cases a) auto
  show ?case
  proof (cases "retval ret = 0")
    case True
    with 2 obtain chs where "concat chs = rstream rest f (world st)"
      "sent (world st') = sent (world st) @ concat (map (wire False) chs)"
      "transferred ret = of_nat (length (concat chs))" by (auto simp: a)
    with 2 show ?thesis
      by (simp add: a) (intro exI [where x = "concat chs"] exI [where x = "[]"], simp add: wire_def map_idI)
  qed (use 2 in \<open>simp add: a\<close>)
qed simp

section \<open>Receiving\<close>

text \<open>Writing a file does not touch what is still to arrive.\<close>

definition writes_keep :: "('w, 'z) lkl_scheme \<Rightarrow> ('w \<Rightarrow> 'b) \<Rightarrow> bool" where
  "writes_keep os g \<longleftrightarrow> (\<forall>fd b w. g (snd (lkl_sys_write os fd b w)) = g w)
     \<and> (\<forall>fd b t w. g (snd (lkl_sys_poll os fd b t w)) = g w)"

lemma sys_write_keeps:
  assumes "writes_keep os g"
  shows "wp (\<lambda>_. True) (\<lambda>(rv, w'). g w' = g w) (sys_write os f mem off n w)"
proof -
  have call: "wp (\<lambda>_. True) (\<lambda>(rv, v'). g v' = g v) (eintr_loop (lkl_sys_write os (filedes f) b) id v)" for b v
    by (rule wp_mono [OF eintr_keeps [where g = g]]) (use assms in \<open>auto simp: writes_keep_def\<close>)
  show ?thesis
    unfolding sys_write_def wp_bnd
    by (auto simp: slice_def intro!: wp_mono [OF call])
qed

lemma write_keeps:
  assumes "\<not> buffered f" and "writes_keep os g"
  shows "wp (\<lambda>_. True) (\<lambda>(rc, k, f', w'). g w' = g w) (lkl_file_write os mem off n (f, w))"
proof -
  have poll: "wp (\<lambda>_. True) (\<lambda>(rv, v'). g v' = g v)
      (eintr_loop (lkl_sys_poll os (filedes f) b t) id v)" for b t v
    by (rule wp_mono [OF eintr_keeps [where g = g]]) (use assms(2) in \<open>auto simp: writes_keep_def\<close>)
  have wait: "wp (\<lambda>_. True) (\<lambda>(rv, v'). g v' = g v) (lkl_wait_for_io_or_timeout os f b v)" for b v
    unfolding lkl_wait_for_io_or_timeout_def Let_def wp_bnd by (rule wp_mono [OF poll]) auto
  have halve: "wp (\<lambda>_. True) (\<lambda>(rv, v'). g v' = g v) (run_loop (halving_step os f mem off) (m, v))" for m v
  proof (rule wp_run_loop [where I = "\<lambda>(m, u). g u = g v"], goal_cases)
    case (3 x)
    then show ?case
      by (cases x, hypsubst, unfold halving_step_def prod.case wp_bnd,
          intro wp_mono [OF sys_write_keeps [OF assms(2)]]) auto
  qed auto
  have rest: "wp (\<lambda>_. True) (\<lambda>(r, w'). g w' = g w)
      (bnd (lkl_wait_for_io_or_timeout os f False v) (\<lambda>(arv, w).
         if arv \<noteq> APR_SUCCESS then Inr (Inl arv, w)
         else bnd (run_loop (halving_step os f mem off) (n, w)) (\<lambda>(rv, w). Inr (Inr rv, w))))"
    if "g v = g w" for v
    unfolding wp_bnd
  proof (rule wp_mono [OF wait], goal_cases)
    case (2 a)
    with that show ?case
      by (cases a) (auto intro!: wp_mono [OF halve])
  qed simp
  have mid: "wp (\<lambda>_. True) (\<lambda>(r, w'). g w' = g w)
      (if rv = word_of_int (- EAGAIN) \<and> timeout f \<noteq> 0 then
         bnd (lkl_wait_for_io_or_timeout os f False v) (\<lambda>(arv, w).
           if arv \<noteq> APR_SUCCESS then Inr (Inl arv, w)
           else bnd (run_loop (halving_step os f mem off) (n, w)) (\<lambda>(rv, w). Inr (Inr rv, w)))
       else Inr (Inr rv, v))" if "g v = g w" for rv v
    using rest [OF that] that by (simp del: wp_bnd)
  have finish: "wp (\<lambda>_. True) (\<lambda>(rc, k, f', w'). g w' = g w)
      (bnd m (\<lambda>(r, w). case r of Inl arv \<Rightarrow> Inr (arv, 0, f, w)
         | Inr rv \<Rightarrow> if rv < 0 then Inr (- uint rv, 0, f, w) else Inr (APR_SUCCESS, rv, f, w)))"
    if "wp (\<lambda>_. True) (\<lambda>(r, w'). g w' = g w) m" for m :: "((int + apr_size_t) \<times> 'a) res"
    unfolding wp_bnd by (rule wp_mono [OF that]) (auto split: sum.splits)
  show ?thesis
    unfolding lkl_file_write_def prod.case if_not_P [OF assms(1)]
  proof (subst wp_bnd, rule wp_mono [OF sys_write_keeps [OF assms(2)]], goal_cases)
    case (2 a)
    then have "g (snd a) = g w" by (cases a) simp
    from finish [OF mid [OF this, of "fst a"]] show ?case by (simp add: case_prod_unfold del: wp_bnd)
  qed simp
qed


lemma write_full_keeps:
  assumes "\<not> buffered f" and "writes_keep os g" and "kernel_writes os (filedes f) log \<mu>"
    and "unat buf + unat n \<le> length mem" and "length mem < 2 ^ 31"
  shows "wp (\<lambda>_. True) (\<lambda>(rc, k, f', w'). g w' = g w) (lkl_file_write_full os mem buf n (f, w))"
  unfolding lkl_file_write_full_def
proof (rule wp_run_loop [where I = "\<lambda>(b, m, t, h, v). h = f \<and> g v = g w
      \<and> unat b + unat m \<le> length mem"], goal_cases)
  case (3 x)
  obtain b m t v where x: "x = (b, m, t, f, v)" by (cases x) (use 3 in auto)
  with 3 have I: "g v = g w" "unat b + unat m \<le> length mem" by auto
  have one: "wp (\<lambda>_. True) (\<lambda>(rc, k, f', w'). f' = f \<and> g w' = g v \<and> unat k \<le> unat m)
      (lkl_file_write os mem b m (f, v))"
    using write_keeps [OF assms(1,2), where mem = mem and off = b and n = m and w = v]
      write_unbuffered_spec [OF assms(1,3) I(2) assms(5), where w = v]
    by (cases "lkl_file_write os mem b m (f, v)") auto
  show ?case
    unfolding x write_full_step_def prod.case wp_bnd
  proof (rule wp_mono [OF one], goal_cases)
    case (2 r)
    obtain rc k w' where r: "r = (rc, k, f, w')" "g w' = g v" "unat k \<le> unat m"
      using 2 by (cases r) auto
    have "unat (b + k) = unat b + unat k" "unat (m - k) = unat m - unat k"
      using r(3) I(2) assms(5)
      by (auto simp: unat_add_lem [THEN iffD1] unat_sub word_le_nat_alt)
    with r I show ?case by (auto simp: Let_def)
  qed simp
qed (use assms(4) in auto)

lemma write_full_any:
  assumes "\<not> buffered f" and "kernel_writes os (filedes f) log \<mu>"
    and "unat buf + unat n \<le> length mem" and "length mem < 2 ^ 31"
  shows "wp (\<lambda>_. False) (\<lambda>(rc, k, f', w'). rc = APR_SUCCESS \<and> k = n \<and> \<not> buffered f'
      \<and> kernel_writes os (filedes f') log \<mu>
      \<and> log w' = log w @ take (unat n) (drop (unat buf) mem)) (lkl_file_write_full os mem buf n (f, w))"
proof (cases "n = 0")
  case False
  then have "0 < n" by (simp add: word_greater_zero_iff)
  with file_sink.write_full_all [where os = os and log = log and \<mu> = \<mu> and s = "(f, w)"
      and buf = buf and n = n and mem = mem] assms
  show ?thesis by (auto simp: lkl_file_write_full_def)
next
  case True
  have "wp (\<lambda>_. False) (\<lambda>(rc, k, f', w'). rc = APR_SUCCESS \<and> k = 0 \<and> f' = f \<and> log w' = log w)
      (lkl_file_write os mem buf 0 (f, w))"
    by (rule wp_mono [OF write_unbuffered_spec [OF assms(1,2), where n = 0]])
      (use assms(3,4) True in \<open>auto simp: word_unat_eq_iff\<close>)
  then have "\<exists>w'. lkl_file_write os mem buf 0 (f, w) = Inr (0, 0, f, w') \<and> log w' = log w"
    by (cases "lkl_file_write os mem buf 0 (f, w)") auto
  then obtain w' where w': "lkl_file_write os mem buf 0 (f, w) = Inr (0, 0, f, w')" "log w' = log w" by blast
  then have "lkl_file_write_full os mem buf 0 (f, w) = Inr (0, 0, f, w')"
    unfolding lkl_file_write_full_def by (intro run_loop_Done) (simp add: write_full_step_def Let_def)
  with w'(2) True assms(1,2) show ?thesis by simp
qed


text \<open>
  The data connection as a source: a successful call brings bytes, and the end of the stream is
  reported when nothing is left.
\<close>

definition socket_recvs :: "('w, 'z) apr_scheme \<Rightarrow> sock \<Rightarrow> ('w \<Rightarrow> string) \<Rightarrow> bool" where
  "socket_recvs os sk incoming \<longleftrightarrow> (\<forall>n w rc bytes w'. apr_socket_recv os sk n w = (rc, bytes, w') \<longrightarrow>
     length bytes \<le> n
   \<and> (rc = APR_SUCCESS \<and> 0 < n \<longrightarrow> bytes \<noteq> [] \<and> incoming w = bytes @ incoming w')
   \<and> (rc = APR_EOF \<longrightarrow> bytes = [] \<and> incoming w = [] \<and> incoming w' = []))"

definition recvs_keep :: "('w, 'z) apr_scheme \<Rightarrow> ('w \<Rightarrow> 'b) \<Rightarrow> bool" where
  "recvs_keep os g \<longleftrightarrow> (\<forall>sk n w. g (snd (snd (apr_socket_recv os sk n w))) = g w)"

text \<open>What the file gets of a stream, after a chunk boundary that may have split CR from LF.\<close>

definition converted :: "bool \<Rightarrow> bool \<Rightarrow> string \<Rightarrow> string" where
  "converted ascii cr xs = (if ascii then to_unix (pending cr @ xs) else xs)"

lemma converted_False: "converted ascii False xs = (if ascii then to_unix xs else xs)"
  by (simp add: converted_def pending_def)

definition received :: "bool \<Rightarrow> ('w \<Rightarrow> string) \<Rightarrow> ('w \<Rightarrow> string) \<Rightarrow> 'w \<Rightarrow> bool \<Rightarrow> apr_size_t \<Rightarrow> 'w \<Rightarrow> bool" where
  "received ascii incoming log w cr cnt v \<longleftrightarrow> (cr \<longrightarrow> ascii)
     \<and> (\<exists>p. incoming w = p @ incoming v \<and> cnt = of_nat (length p))
     \<and> (\<exists>out. log v = log w @ out
          \<and> converted ascii False (incoming w) = out @ converted ascii cr (incoming v))"

lemma converted_chunk:
  assumes "chunk_conv cr xs = (out, cr')" and "xs \<noteq> [] \<or> ys = []"
  shows "converted True cr (xs @ ys) = out @ converted True cr' ys"
proof (cases "xs = []")
  case True
  with assms show ?thesis by (auto simp: converted_def chunk_conv_def ends_cr_def pending_def)
next
  case False
  with to_unix_chunk [OF False assms(1), of ys] show ?thesis by (simp add: converted_def)
qed

text \<open>The buffer after the bytes have arrived and, in ASCII mode, been converted.\<close>

lemma recv_converted:
  assumes "length rb = VSFTP_DATA_BUFSIZE + 1" and "length bytes \<le> VSFTP_DATA_BUFSIZE"
    and "cr \<longrightarrow> ascii" and "bytes \<noteq> [] \<or> ys = []"
  defines "buf \<equiv> take 1 rb @ bytes @ drop (1 + length bytes) rb"
  shows "\<exists>buf' n cr' start.
      (if ascii then bnd (lfd_ascii_ascii_to_bin buf (length bytes) cr) (\<lambda>(r, p_recvbuf).
           Inr (p_recvbuf, stored r, last_was_cr r, p_buf r))
       else Inr (buf, length bytes, cr, 1)) = Inr (buf', n, cr', start)
    \<and> length buf' = VSFTP_DATA_BUFSIZE + 1 \<and> start + n \<le> length buf' \<and> (cr' \<longrightarrow> ascii)
    \<and> (bytes = [] \<longrightarrow> \<not> cr')
    \<and> converted ascii cr (bytes @ ys) = take n (drop start buf') @ converted ascii cr' ys"
proof -
  have buf: "length buf = VSFTP_DATA_BUFSIZE + 1" "take (length bytes) (drop 1 buf) = bytes"
    using assms(1,2) by (auto simp: buf_def min_def)
  show ?thesis
  proof (cases ascii)
    case False
    with buf assms(2,3) show ?thesis by (auto simp: converted_def)
  next
    case True
    obtain ret buf' where r: "lfd_ascii_ascii_to_bin buf (length bytes) cr = Inr (ret, buf')"
      "length buf' = length buf" "p_buf ret + stored ret \<le> length buf"
      "(take (stored ret) (drop (p_buf ret) buf'), last_was_cr ret) = chunk_conv cr bytes"
      using ascii_to_bin_eq [of "length bytes" buf cr] buf assms(2) by auto
    have "\<not> last_was_cr ret" if "bytes = []"
      using r(4) that by (simp add: chunk_conv_Nil)
    with r buf(1) True converted_chunk [OF r(4) [symmetric] assms(4)] show ?thesis by auto
  qed
qed


lemma recv_step_spec:
  assumes "socket_recvs os sk incoming" and "recvs_keep os log" and "writes_keep os incoming"
    and "\<not> buffered g" and "kernel_writes os (filedes g) log \<mu>"
    and "length rb = VSFTP_DATA_BUFSIZE + 1" and "received ascii incoming log w cr cnt v"
  shows "wp (\<lambda>_. False) (\<lambda>c. case c of
      Again (rb', cr', cnt', g', v') \<Rightarrow> length rb' = VSFTP_DATA_BUFSIZE + 1 \<and> \<not> buffered g'
        \<and> kernel_writes os (filedes g') log \<mu> \<and> received ascii incoming log w cr' cnt' v'
        \<and> 2 * length (incoming v') + length (pending cr') < 2 * length (incoming v) + length (pending cr)
    | Done (ret, f', w') \<Rightarrow> transferred ret = cnt
        \<and> (if retval ret = 0 then \<not> cr \<and> incoming w' = [] \<and> received ascii incoming log w cr cnt w'
           else retval ret = - 2 \<and> log w' = log v))
    (recv_step os ascii sk (rb, cr, cnt, g, v))"
proof -
  obtain rc bytes v1 where rv: "apr_socket_recv os sk VSFTP_DATA_BUFSIZE v = (rc, bytes, v1)"
    by (cases "apr_socket_recv os sk VSFTP_DATA_BUFSIZE v") auto
  with assms(1) have s: "length bytes \<le> VSFTP_DATA_BUFSIZE"
    "rc = APR_SUCCESS \<Longrightarrow> bytes \<noteq> [] \<and> incoming v = bytes @ incoming v1"
    "rc = APR_EOF \<Longrightarrow> bytes = [] \<and> incoming v = [] \<and> incoming v1 = []"
    unfolding socket_recvs_def by (auto simp: VSFTP_DATA_BUFSIZE_def)
  have "log (snd (snd (apr_socket_recv os sk VSFTP_DATA_BUFSIZE v))) = log v"
    using assms(2) unfolding recvs_keep_def by blast
  with rv have log: "log v1 = log v" by simp
  obtain p out where rcv: "cr \<longrightarrow> ascii" "incoming w = p @ incoming v" "cnt = of_nat (length p)"
    "log v = log w @ out" "converted ascii False (incoming w) = out @ converted ascii cr (incoming v)"
    using assms(7) by (auto simp: received_def)
  define buf where "buf = take 1 rb @ bytes @ drop (1 + length bytes) rb"
  consider (fail) "rc \<noteq> APR_SUCCESS" "rc \<noteq> APR_EOF"
    | (stop) "rc = APR_EOF" "\<not> cr"
    | (more) "rc = APR_SUCCESS \<or> rc = APR_EOF \<and> cr" by blast
  then show ?thesis
  proof cases
    case fail
    with rv log show ?thesis by (simp add: recv_step_def Let_def)
  next
    case stop
    with s(3) rv log rcv have "received ascii incoming log w cr cnt v1"
      by (auto simp: received_def)
    with stop s(3) rv show ?thesis by (simp add: recv_step_def Let_def APR_EOF_def)
  next
    case more
    then have inc: "incoming v = bytes @ incoming v1" "bytes \<noteq> [] \<or> incoming v1 = []"
      "bytes = [] \<longrightarrow> cr" "\<not> (rc \<noteq> APR_SUCCESS \<and> rc \<noteq> APR_EOF)"
      "\<not> (length bytes = 0 \<and> \<not> cr \<and> rc = APR_EOF)"
      using s(2,3) by (auto simp: APR_EOF_def)
    obtain buf' n cr' start where conv:
      "(if ascii then bnd (lfd_ascii_ascii_to_bin buf (length bytes) cr) (\<lambda>(r, p_recvbuf).
           Inr (p_recvbuf, stored r, last_was_cr r, p_buf r))
       else Inr (buf, length bytes, cr, 1)) = Inr (buf', n, cr', start)"
      "length buf' = VSFTP_DATA_BUFSIZE + 1" "start + n \<le> length buf'" "cr' \<longrightarrow> ascii"
      "bytes = [] \<longrightarrow> \<not> cr'"
      "converted ascii cr (bytes @ incoming v1) = take n (drop start buf') @ converted ascii cr' (incoming v1)"
      using recv_converted [OF assms(6) s(1) rcv(1) inc(2)] unfolding buf_def by blast
    have small: "unat (of_nat start :: apr_size_t) = start" "unat (of_nat n :: apr_size_t) = n"
      "length buf' < 2 ^ 31"
      using conv(2,3) by (simp_all add: VSFTP_DATA_BUFSIZE_def unat_of_nat take_bit_eq_mod)
    have wr: "wp (\<lambda>_. False) (\<lambda>(rc, k, f', w'). (rc = APR_SUCCESS \<and> k = of_nat n \<and> \<not> buffered f'
        \<and> kernel_writes os (filedes f') log \<mu> \<and> log w' = log v1 @ take n (drop start buf'))
        \<and> incoming w' = incoming v1)
      (lkl_file_write_full os buf' (of_nat start) (of_nat n) (g, v1))"
      using write_full_any [OF assms(4,5), where buf = "of_nat start" and n = "of_nat n" and mem = buf' and w = v1]
        write_full_keeps [OF assms(4,3,5), where buf = "of_nat start" and n = "of_nat n" and mem = buf' and w = v1]
        small conv(3)
      by (cases "lkl_file_write_full os buf' (of_nat start) (of_nat n) (g, v1)") auto
    show ?thesis
      unfolding recv_step_def prod.case rv Let_def if_not_P [OF inc(4)] if_not_P [OF inc(5)]
        buf_def [symmetric] conv(1) bnd_Inr wp_bnd
    proof (rule wp_mono [OF wr], goal_cases)
      case (2 a)
      obtain rc2 k f' w' where a: "a = (rc2, k, f', w')" by (cases a) auto
      with 2 have A: "rc2 = APR_SUCCESS" "k = of_nat n" "\<not> buffered f'"
        "kernel_writes os (filedes f') log \<mu>" "log w' = log v1 @ take n (drop start buf')"
        "incoming w' = incoming v1" by auto
      have "received ascii incoming log w cr' (cnt + of_nat (length bytes)) w'"
        unfolding received_def
      proof (intro conjI exI)
        show "incoming w = (p @ bytes) @ incoming w'" using rcv(2) inc(1) A(6) by simp
        show "log w' = log w @ (out @ take n (drop start buf'))" using A(5) log rcv(4) by simp
        show "converted ascii False (incoming w) = (out @ take n (drop start buf')) @ converted ascii cr' (incoming w')"
          using rcv(5) inc(1) conv(6) A(6) by simp
      qed (use rcv(3) conv(4) in auto)
      moreover have "2 * length (incoming w') + length (pending cr') < 2 * length (incoming v) + length (pending cr)"
        using inc(1,3) A(6) conv(5) by (cases bytes) (auto simp: pending_def)
      ultimately show ?case using A conv(2) by (simp add: a)
    qed simp
  qed
qed


lemma recv_file_spec:
  assumes "data_sock (data_conn st) = Some sk" and "\<not> buffered f"
    and "kernel_writes os (filedes f) log \<mu>" and "socket_recvs os sk incoming"
    and "recvs_keep os log" and "writes_keep os incoming"
  shows "wp (\<lambda>_. False) (\<lambda>(ret, f', st'). st' = st\<lparr>world := world st'\<rparr>
    \<and> (\<exists>out. log (world st') = log (world st) @ out
        \<and> (if retval ret = 0 then out = converted ascii False (incoming (world st))
             \<and> incoming (world st') = []
             \<and> transferred ret = of_nat (length (incoming (world st)))
           else retval ret = - 2 \<and> (\<exists>q. converted ascii False (incoming (world st)) = out @ q))))
    (do_file_recv os f ascii st)"
proof -
  let ?w = "world st"
  have "wp (\<lambda>_. False) (\<lambda>(ret, f', w').
      \<exists>out. log w' = log ?w @ out
        \<and> (if retval ret = 0 then out = converted ascii False (incoming ?w)
             \<and> incoming w' = [] \<and> transferred ret = of_nat (length (incoming ?w))
           else retval ret = - 2 \<and> (\<exists>q. converted ascii False (incoming ?w) = out @ q)))
    (run_loop (recv_step os ascii sk) (replicate (VSFTP_DATA_BUFSIZE + 1) NUL, False, 0, f, ?w))"
  proof (rule wp_run_loop_total [where
      I = "\<lambda>(rb, cr, cnt, g, v). length rb = VSFTP_DATA_BUFSIZE + 1 \<and> \<not> buffered g
        \<and> kernel_writes os (filedes g) log \<mu> \<and> received ascii incoming log ?w cr cnt v" and
      \<mu> = "\<lambda>(rb, cr, cnt, g, v). 2 * length (incoming v) + length (pending cr)"], goal_cases)
    case 1
    show ?case using assms(2,3) by (auto simp: received_def)
  next
    case (2 x)
    obtain rb cr cnt g v where x: "x = (rb, cr, cnt, g, v)" by (cases x) auto
    with 2 have I: "\<not> buffered g" "kernel_writes os (filedes g) log \<mu>"
      "length rb = VSFTP_DATA_BUFSIZE + 1" "received ascii incoming log ?w cr cnt v" by auto
    show ?case
      unfolding x
    proof (rule wp_mono [OF recv_step_spec [OF assms(4-6) I]], goal_cases)
      case (2 c)
      show ?case
      proof (cases c)
        case (Done d)
        obtain ret f' w' where d: "d = (ret, f', w')" by (cases d) auto
        show ?thesis
        proof (cases "retval ret = 0")
          case True
          with 2 have "received ascii incoming log ?w False cnt w'" "incoming w' = []"
            "transferred ret = cnt" by (auto simp: Done d)
          with True show ?thesis by (auto simp: Done d received_def converted_def pending_def)
        next
          case False
          with 2 have "retval ret = - 2" "log w' = log v" by (auto simp: Done d)
          with I(4) False show ?thesis by (auto simp: Done d received_def)
        qed
      qed (use 2 in auto)
    qed simp
  qed
  then show ?thesis
    unfolding do_file_recv_def assms(1) option.case wp_bnd
  proof (rule wp_mono, goal_cases)
    case (2 a)
    then show ?case by (cases a) (simp split del: if_split cong: if_cong)
  qed simp
qed

text \<open>
  C12. As long as no write to the file fails, though writes may be short or interrupted a bounded number of
  times, the loop of an upload to an unbuffered file returns. On success the file has got exactly the stream
  that arrived, in ASCII mode its conversion, whatever the chunks the network cut it into; after a network error
  what was stored is a prefix of that.
\<close>
theorem upload_stores_stream:
  assumes "data_sock (data_conn st) = Some sk" and "\<not> buffered f"
    and "kernel_writes os (filedes f) log \<mu>" and "socket_recvs os sk incoming"
    and "recvs_keep os log" and "writes_keep os incoming"
  shows "wp (\<lambda>_. False) (\<lambda>(ret, f', st'). st' = st\<lparr>world := world st'\<rparr>
    \<and> (\<exists>out. log (world st') = log (world st) @ out
        \<and> (if retval ret = 0
           then out = (if ascii then to_unix (incoming (world st)) else incoming (world st))
             \<and> incoming (world st') = []
             \<and> transferred ret = of_nat (length (incoming (world st)))
           else retval ret = - 2 \<and> (\<exists>q. (if ascii then to_unix (incoming (world st))
             else incoming (world st)) = out @ q))))
    (do_file_recv os f ascii st)"
  using recv_file_spec [OF assms] by (simp only: converted_False)

end
