(* ===== verification/TransferOps.thy ===== *)
theory TransferOps
  imports TransferProps
begin

text \<open>
  RETR, STOR, APPE and STOU as operations on the session: whatever the kernel and the network do,
  a transfer does not run into \<open>bug\<close>, leaves the session as the next command expects it, and
  answers the client whenever the session goes on.
\<close>

section \<open>No file operation ends the process\<close>

lemma served_world [simp]:
  "served (st\<lparr>world := w\<rparr>) st' = served st st'" "answered (st\<lparr>world := w\<rparr>) st' = answered st st'"
  by (simp_all add: served_def answered_def)

definition safe :: "'a res \<Rightarrow> bool" where
  "safe m \<longleftrightarrow> wp nobug (\<lambda>_. True) m"

lemma safe_simps [simp]: "safe (Inr a)" "safe (Inl e) = nobug e"
  by (simp_all add: safe_def)

lemma safe_bnd: "safe m \<Longrightarrow> (\<And>a. safe (k a)) \<Longrightarrow> safe (bnd m k)"
  by (cases m) (auto simp: safe_def)

lemma safe_run_loop:
  assumes "\<And>s. safe (body s)"
  shows "safe (run_loop body s)"
  unfolding safe_def
proof (rule wp_run_loop [where I = "\<lambda>_. True"], goal_cases)
  case (3 t)
  show ?case by (rule wp_mono [OF assms [unfolded safe_def]]) (auto split: ctl.splits)
qed simp_all

lemma safe_eintr: "safe (eintr_loop call prj w)"
  unfolding safe_def by (rule wp_eintr_loop [where J = "\<lambda>_. True"]) auto

lemma safe_memory: "safe (slice xs i n)" "safe (load xs i)" "safe (store xs i x)"
  by (simp_all add: slice_def load_def store_def)

lemmas safe_intros = safe_bnd safe_run_loop safe_eintr safe_memory

lemma safe_flush_locked: "safe (lkl_file_flush_locked os f w)"
  by (auto simp: lkl_file_flush_locked_def intro!: safe_intros)

lemma safe_file_cleanup: "safe (lkl_unix_file_cleanup os f w)"
  by (auto simp: lkl_unix_file_cleanup_def lkl_file_flush_def split: prod.splits
      intro!: safe_bnd safe_flush_locked)

lemma safe_wait: "safe (lkl_wait_for_io_or_timeout os f r w)"
  by (auto simp: lkl_wait_for_io_or_timeout_def Let_def intro!: safe_intros)

lemma safe_read: "safe (lkl_file_read os f n w)"
  by (auto simp: lkl_file_read_def file_read_buffered_def read_buffered_step_def read_or_wait_def Let_def
      split: prod.splits sum.splits intro!: safe_intros safe_wait safe_flush_locked)

lemma safe_write: "safe (lkl_file_write os mem off n s)"
  by (auto simp: lkl_file_write_def write_buffered_step_def halving_step_def sys_write_def Let_def
      split: prod.splits sum.splits intro!: safe_intros safe_wait safe_flush_locked)

lemma safe_write_full: "safe (lkl_file_write_full os mem off n s)"
  by (auto simp: lkl_file_write_full_def write_full_step_def Let_def split: prod.splits
      intro!: safe_intros safe_write)

lemma safe_seek: "safe (lkl_file_seek os fi f whence off w)"
  by (auto simp: lkl_file_seek_def setptr_def lkl_file_info_get_locked_def Let_def
      split: prod.splits apr_seek_where_t.splits intro!: safe_intros safe_flush_locked)

lemma safe_bin_to_ascii: "safe (bin_to_ascii_loop p_in in_len i n p_out)"
proof (induction "in_len - i" arbitrary: i n p_out rule: less_induct)
  case less
  show ?case
    by (subst bin_to_ascii_loop.simps)
      (auto split: prod.splits intro!: safe_bnd safe_memory less)
qed

lemma safe_ascii_to_bin: "safe (ascii_to_bin_loop in_len i n l p buf)"
proof (induction "in_len - i" arbitrary: i n l p buf rule: less_induct)
  case less
  show ?case
    by (subst ascii_to_bin_loop.simps)
      (auto split: prod.splits intro!: safe_bnd safe_memory less)
qed

lemma safe_send_loop: "safe (run_loop (send_step os ascii sk) s)"
  by (auto simp: send_step_def convert_chunk_def lfd_ascii_bin_to_ascii_def
      lfd_socket_write_full_def socket_write_step_def socket_send_def Let_def
      split: prod.splits option.splits intro!: safe_intros safe_read safe_bin_to_ascii)

lemma safe_recv_loop: "safe (run_loop (recv_step os ascii sk) s)"
  by (auto simp: recv_step_def lfd_ascii_ascii_to_bin_def Let_def
      split: prod.splits option.splits intro!: safe_intros safe_write_full safe_ascii_to_bin)

lemma safe_unique: "safe (get_unique_filename os base w)"
  by (auto simp: get_unique_filename_def unique_step_def split: prod.splits option.splits
      intro!: safe_intros)

text \<open>The two loops change nothing of the session but the world.\<close>

lemma wp_send_loop:
  assumes "\<And>ret f' w'. Q (ret, f', st\<lparr>world := w'\<rparr>)"
  shows "wp nobug Q (do_file_send_rwloop os f ascii st)"
  unfolding do_file_send_rwloop_def wp_bnd
  by (rule wp_mono [OF safe_send_loop [unfolded safe_def]]) (use assms in auto)

lemma wp_recv_loop:
  assumes "\<And>ret f' w'. Q (ret, f', st\<lparr>world := w'\<rparr>)"
  shows "wp nobug Q (do_file_recv os f ascii st)"
  unfolding do_file_recv_def
  by (auto simp: assms split: option.splits intro!: wp_mono [OF safe_recv_loop [unfolded safe_def]])

text \<open>APR runs a registered clean-up by calling it.\<close>

definition env_doc :: "('w, 'z) apr_scheme \<Rightarrow> bool" where
  "env_doc os \<longleftrightarrow> accept_doc os \<and> (\<forall>f w. apr_pool_cleanup_run os f w = f w)"

lemma safe_close: "env_doc os \<Longrightarrow> safe (lkl_file_close os f w)"
  by (auto simp: lkl_file_close_def env_doc_def intro!: safe_bnd safe_file_cleanup)

lemma wp_close:
  assumes "env_doc os" and "\<And>r. Q r"
  shows "wp nobug Q (lkl_file_close os f w)"
  using safe_close [OF assms(1), of f w] assms(2) by (cases "lkl_file_close os f w") (auto simp: safe_def)

lemma wp_data_checks:
  assumes "exclusive st"
    and "p_port_sockaddr st \<noteq> None \<or> pasv_listen_fd st \<noteq> None \<Longrightarrow> Q (True, st)"
    and "\<And>w'. Q (False, st\<lparr>world := w', replies := replies st
      @ [Reply FTP_BADSENDCONN ''Use PORT or PASV first.'' []]\<rparr>)"
  shows "wp nobug Q (data_transfer_checks_ok os st)"
  unfolding data_transfer_checks_ok_def active_one [OF assms(1) [unfolded exclusive_def]]
  using assms(2,3) by (auto intro!: wp_write)

text \<open>What both transfers do last.\<close>

lemma wp_transfer_reply:
  assumes "\<And>rc w' r. Q (rc, st\<lparr>world := w', replies := replies st @ [r]\<rparr>)"
  shows "wp nobug Q (transfer_reply os a b c ret st)"
  using assms by (auto simp: transfer_reply_def intro!: wp_write)

lemma wp_finish:
  assumes "env_doc os" and "abor_received (data_conn st) = 0"
    and "\<And>w'. Q (APR_SUCCESS, st\<lparr>world := w', p_port_sockaddr := None, pasv_listen_fd := None\<rparr>)"
  shows "wp nobug Q (finish_transfer os f st)"
proof -
  have "finish_transfer os f st = bnd (lkl_file_close os f (world (lfd_communication_cleanup os st)))
      (\<lambda>(_, w). Inr (APR_SUCCESS, lfd_communication_cleanup os st\<lparr>world := w\<rparr>))"
    using assms(2) by (simp add: finish_transfer_def check_abor_def Let_def)
  moreover obtain w where c: "lfd_communication_cleanup os st
      = st\<lparr>world := w, p_port_sockaddr := None, pasv_listen_fd := None\<rparr>"
    by (rule exE [OF cleanup_fields [of os st]]) (rule that)
  ultimately have f: "finish_transfer os f st = bnd (lkl_file_close os f w)
      (\<lambda>(_, w). Inr (APR_SUCCESS, st\<lparr>world := w, p_port_sockaddr := None, pasv_listen_fd := None\<rparr>))"
    by (simp only: c) (cases st, simp)
  show ?thesis
    unfolding f wp_bnd
  proof (rule wp_close [OF assms(1)])
    fix r :: "int \<times> 'a"
    show "wp nobug Q (case r of (_, w) \<Rightarrow> Inr (APR_SUCCESS,
        st\<lparr>world := w, p_port_sockaddr := None, pasv_listen_fd := None\<rparr>))"
      using assms(3) by (cases r) simp
  qed
qed


lemma wp_transfer_fd:
  assumes "env_doc os" and "idle (data_conn st)" and "exclusive st"
    and "p_port_sockaddr st \<noteq> None \<or> pasv_listen_fd st \<noteq> None"
    and "\<And>fd st'. opened st fd st' \<Longrightarrow> Q (fd, st')"
  shows "wp nobug Q (lfd_get_remote_transfer_fd os msg st)"
  by (rule wp_mono [OF wp_get_remote [OF assms(2,3)]]) (use assms(1,4,5) in \<open>auto simp: env_doc_def\<close>)

text \<open>
  A transfer over an open connection: after the loop the connection is closed, a reply is given
  and the agreement on the connection is forgotten.
\<close>

lemma wp_after_loop:
  assumes "env_doc os" and "wf_sess st" and "opened st (Some fd) st1"
    and "\<And>d. data_sock (g d) = data_sock d \<and> in_progress (g d) = in_progress d
      \<and> abor_received (g d) = abor_received d"
  shows "wp nobug (\<lambda>(rc, st'). served st st' \<and> answered st st')
    (bnd (lfd_dispose_transfer_fd os (st1\<lparr>world := w\<rparr>)) (\<lambda>st2.
     bnd (transfer_reply os a b c ret (st2\<lparr>data_conn := g (data_conn st2)\<rparr>)) (\<lambda>(_, st3).
       finish_transfer os f st3)))"
proof -
  have o: "kept st st1" "answered st st1" "data_sock (data_conn st1) \<noteq> None"
    "in_progress (data_conn st1) = 0" "abor_received (data_conn st1) = 0"
    using assms(3) by (simp_all add: opened_def)
  show ?thesis
    unfolding wp_bnd
    by (rule wp_dispose, use o(3) in simp, rule wp_transfer_reply, simp only: prod.case,
        rule wp_finish [OF assms(1)])
      (use o assms(2,4) in \<open>auto simp: sess_defs\<close>)
qed

lemma opened_None:
  assumes "wf_sess st" and "opened st None st1"
  shows "served st (st1\<lparr>world := w\<rparr>)" and "answered st (st1\<lparr>world := w\<rparr>)"
    and "wf_sess (st1\<lparr>world := w, p_port_sockaddr := None, pasv_listen_fd := None\<rparr>)"
  using assms by (auto simp: sess_defs opened_def)

lemma wp_upload_opened:
  assumes "env_doc os" and "wf_sess st"
    and "p_port_sockaddr st \<noteq> None \<or> pasv_listen_fd st \<noteq> None"
  shows "wp nobug (\<lambda>(rc, st'). served st st' \<and> (rc = APR_SUCCESS \<longrightarrow> answered st st'))
    (upload_opened os filename is_unique f st)"
proof -
  have main: "wp nobug (\<lambda>(rc, st'). served st0 st' \<and> (rc = APR_SUCCESS \<longrightarrow> answered st0 st'))
      (bnd (lfd_get_remote_transfer_fd os msg st0) (\<lambda>(remote_fd, st).
        if remote_fd = None then Inr (APR_EINVAL, st)
        else
          bnd (do_file_recv os f (is_ascii st \<noteq> 0) st) (\<lambda>(ret, file, st).
          bnd (lfd_dispose_transfer_fd os st) (\<lambda>st.
            let st = st\<lparr>data_conn := (data_conn st)\<lparr>transfer_size := transferred ret\<rparr>\<rparr> in
            bnd (transfer_reply os a b c ret st) (\<lambda>(_, st). finish_transfer os file st)))))"
    if st0: "wf_sess st0" "p_port_sockaddr st0 \<noteq> None \<or> pasv_listen_fd st0 \<noteq> None" for st0 msg a b c
  proof (subst wp_bnd, rule wp_transfer_fd [OF assms(1) _ _ st0(2)], goal_cases)
    case (3 fd st1)
    show ?case
    proof (cases fd)
      case None
      with 3 opened_None [OF st0(1), of st1 "world st1"] show ?thesis by (simp add: APR_EINVAL_def)
    next
      case (Some d)
      show ?thesis
        unfolding Some Let_def prod.case if_not_P [OF option.distinct(2)]
      proof (subst wp_bnd, rule wp_recv_loop, simp only: prod.case, goal_cases)
        case (1 ret f' w')
        show ?case
          by (rule wp_mono [OF wp_after_loop [OF assms(1) st0(1) 3 [unfolded Some],
            where g = "transfer_size_update (\<lambda>_. transferred ret)"]]) auto
      qed
    qed
  qed (use st0 in \<open>auto simp: sess_defs\<close>)
  show ?thesis
  proof (cases is_unique)
    case False
    then show ?thesis using main [OF assms(2,3)] by (simp add: upload_opened_def del: wp_bnd)
  next
    case True
    show ?thesis
      unfolding upload_opened_def Let_def if_P [OF True] wp_bnd [of _ _ "lfd_cmdio_write _ _ _ _ _"]
    proof (rule wp_write, simp, simp only: prod.case, goal_cases)
      case (1 rc w')
      let ?st = "st\<lparr>world := w', replies := replies st @ [Reply FTP_DATACONN
        (''FILE: '' @ (case filename of None \<Rightarrow> [] | Some f \<Rightarrow> f)) []]\<rparr>"
      have "wf_sess ?st" using assms(2) by (simp add: sess_defs)
      moreover have "served st ?st" using calculation(1) by (simp add: served_def)
      moreover have "p_port_sockaddr ?st \<noteq> None \<or> pasv_listen_fd ?st \<noteq> None" using assms(3) by simp
      ultimately show ?case
      proof (cases "rc = APR_SUCCESS")
        case True
        have fin: "served st st'" "answered st st'" if "served ?st st'" for st'
          using that by (auto simp: served_def answered_def)
        show ?thesis
          unfolding True if_not_P [OF not_not [THEN iffD2, OF refl]]
          by (rule wp_mono [OF main [unfolded Let_def, of ?st]])
            (use \<open>wf_sess ?st\<close> assms(3) fin in auto)
      qed simp
    qed
  qed
qed


lemma wp_handle_upload:
  assumes "env_doc os" and "wf_sess st"
  shows "wp nobug (\<lambda>(rc, st'). served st st' \<and> (rc = APR_SUCCESS \<longrightarrow> answered st st'))
    (handle_upload_common os is_append is_unique st)"
proof (cases "ftp_arg_str st = None")
  case True
  with assms(2) show ?thesis
    by (auto simp: handle_upload_common_def Let_def sess_defs intro!: wp_write)
next
  case False
  have off: "restart_pos st = 0" "st\<lparr>restart_pos := 0\<rparr> = st" and ex: "exclusive st"
    using assms(2) by (simp_all add: wf_sess_def)
  have eq: "handle_upload_common os is_append is_unique st =
      bnd (data_transfer_checks_ok os st) (\<lambda>(ok, st).
        if \<not> ok then Inr (APR_EINVAL, st)
        else bnd (if is_unique then get_unique_filename os (get_abs_path (ftp_arg_str st) st) (world st)
                  else Inr (get_abs_path (ftp_arg_str st) st, world st)) (\<lambda>(filename, w).
          case lkl_file_open os filename (if is_append then UPLOAD_FLAGS else UPLOAD_FLAGS OR APR_TRUNCATE)
            APR_OS_DEFAULT w of
            (rc, file, w) \<Rightarrow>
              (case file of
                 None \<Rightarrow>
                   bnd (lfd_cmdio_write os FTP_UPLOADFAIL ''Could not create file.'' [] (st\<lparr>world := w\<rparr>))
                     (\<lambda>(_, st). Inr (rc, st))
               | Some file \<Rightarrow> upload_opened os filename is_unique file (st\<lparr>world := w\<rparr>))))"
    unfolding handle_upload_common_def Let_def off if_not_P [OF False] by (simp cong: if_cong option.case_cong)
  show ?thesis
    unfolding eq
  proof (subst wp_bnd, rule wp_data_checks [OF ex], goal_cases)
    case 1
    have safe: "wp nobug (\<lambda>_. True) (if is_unique
        then get_unique_filename os (get_abs_path (ftp_arg_str st) st) (world st)
        else Inr (get_abs_path (ftp_arg_str st) st, world st))"
      using safe_unique [where os = os and base = "get_abs_path (ftp_arg_str st) st" and w = "world st"]
      by (simp add: safe_def)
    show ?case
      unfolding prod.case if_not_P [OF not_not [THEN iffD2, OF TrueI]]
    proof (subst wp_bnd, rule wp_mono [OF safe], simp, goal_cases)
      case (1 a)
      obtain filename w where a: "a = (filename, w)" by (cases a)
      obtain rc fo w' where o: "lkl_file_open os filename (if is_append then UPLOAD_FLAGS
          else UPLOAD_FLAGS OR APR_TRUNCATE) APR_OS_DEFAULT w = (rc, fo, w')"
        by (cases "lkl_file_open os filename (if is_append then UPLOAD_FLAGS
          else UPLOAD_FLAGS OR APR_TRUNCATE) APR_OS_DEFAULT w") auto
      have wf: "wf_sess (st\<lparr>world := w'\<rparr>)" using assms(2) by (simp add: sess_defs)
      show ?case
      proof (cases fo)
        case None
        with assms(2) show ?thesis by (auto simp: a o sess_defs intro!: wp_write)
      next
        case (Some f)
        show ?thesis
          unfolding a o prod.case Some option.case
          by (rule wp_mono [OF wp_upload_opened [OF assms(1) wf]])
            (use \<open>p_port_sockaddr st \<noteq> None \<or> pasv_listen_fd st \<noteq> None\<close> in
              \<open>auto simp: served_def answered_def\<close>)
      qed
    qed
  qed (use assms(2) in \<open>auto simp: sess_defs APR_EINVAL_def\<close>)
qed


lemma wp_reply_close:
  assumes "env_doc os" and "wf_sess st"
  shows "wp nobug (\<lambda>(rc, st'). served st st' \<and> answered st st')
    (bnd (lfd_cmdio_write os cmd msg [] st) (\<lambda>(_, st).
       bnd (lkl_file_close os f (world st)) (\<lambda>(_, w). Inr (rc, st\<lparr>world := w\<rparr>))))"
  unfolding wp_bnd
  by (rule wp_write, simp, simp only: prod.case, subst wp_bnd, rule wp_close [OF assms(1)])
    (use assms(2) in \<open>auto simp: sess_defs split: prod.splits\<close>)

lemma wp_retr_opened:
  assumes "env_doc os" and "wf_sess st"
    and "p_port_sockaddr st \<noteq> None \<or> pasv_listen_fd st \<noteq> None"
  shows "wp nobug (\<lambda>(rc, st'). served st st' \<and> (rc = APR_SUCCESS \<longrightarrow> answered st st'))
    (retr_opened os path 0 f st)"
proof -
  have main: "wp nobug (\<lambda>(rc, st'). served st0 st' \<and> (rc = APR_SUCCESS \<longrightarrow> answered st0 st'))
      (bnd (lfd_get_remote_transfer_fd os msg st0) (\<lambda>(remote_fd, st).
        if remote_fd = None then
          bnd (lkl_file_close os f (world (lfd_communication_cleanup os st))) (\<lambda>(_, w).
            Inr (APR_EINVAL, lfd_communication_cleanup os st\<lparr>world := w\<rparr>))
        else
          bnd (do_file_send_rwloop os f (is_ascii st \<noteq> 0) st) (\<lambda>(ret, file, st).
          bnd (lfd_dispose_transfer_fd os st) (\<lambda>st.
            bnd (transfer_reply os a b c ret st) (\<lambda>(_, st). finish_transfer os file st)))))"
    if st0: "wf_sess st0" "p_port_sockaddr st0 \<noteq> None \<or> pasv_listen_fd st0 \<noteq> None" for st0 msg a b c
  proof (subst wp_bnd, rule wp_transfer_fd [OF assms(1) _ _ st0(2)], goal_cases)
    case (3 fd st1)
    show ?case
    proof (cases fd)
      case None
      obtain w where c: "lfd_communication_cleanup os st1
          = st1\<lparr>world := w, p_port_sockaddr := None, pasv_listen_fd := None\<rparr>"
        by (rule exE [OF cleanup_fields [of os st1]]) (rule that)
      show ?thesis
        unfolding None prod.case if_P [OF refl] c wp_bnd
        by (rule wp_close [OF assms(1)])
          (use 3 None st0(1) in \<open>auto simp: sess_defs opened_def APR_EINVAL_def split: prod.splits\<close>)
    next
      case (Some d)
      show ?thesis
        unfolding Some prod.case if_not_P [OF option.distinct(2)]
      proof (subst wp_bnd, rule wp_send_loop, simp only: prod.case, goal_cases)
        case (1 ret f' w')
        show ?case
          using wp_after_loop [OF assms(1) st0(1) 3 [unfolded Some], where g = id and w = w'
            and a = a and b = b and c = c and ret = ret and f = f']
          by (simp del: wp_bnd) (erule wp_mono, auto)
      qed
    qed
  qed (use st0 in \<open>auto simp: sess_defs\<close>)
  obtain rc fi w where s: "lkl_stat os (stack_finfo os) path (APR_FINFO_TYPE OR APR_FINFO_SIZE) (world st)
      = (rc, fi, w)"
    by (cases "lkl_stat os (stack_finfo os) path (APR_FINFO_TYPE OR APR_FINFO_SIZE) (world st)") auto
  let ?st = "st\<lparr>world := w\<rparr>"
  have wf: "wf_sess ?st" using assms(2) by (simp add: sess_defs)
  show ?thesis
  proof (cases "rc \<noteq> APR_SUCCESS \<or> fi_filetype fi \<noteq> APR_REG")
    case True
    show ?thesis
      unfolding retr_opened_def Let_def s prod.case if_P [OF True]
      by (rule wp_mono [OF wp_reply_close [OF assms(1) wf]]) auto
  next
    case False
    show ?thesis
      unfolding retr_opened_def Let_def s prod.case if_not_P [OF False]
        if_not_P [OF not_not [THEN iffD2, OF refl]] bnd_Inr
    proof (cases "apr_pvsprintf os ''Opening %s %s %s %s %u %s''
        [Str (if is_ascii ?st \<noteq> 0 then ''ASCII'' else ''BINARY''),
         Str '' mode data connection for '', cstr_arg path, Str '' ( '',
         Uns (nat (fi_size fi mod 2 ^ 32)), Str '' bytes).'']", goal_cases)
      case (2 msg)
      show ?case
        using main [OF wf, of msg "''Failure reading local file.''" "''Failure writing network stream.''"
          "''File send OK.''"] assms(3) 2
        by (auto simp del: wp_bnd elim!: wp_mono)
    qed simp
  qed
qed


lemma wp_handle_retr:
  assumes "env_doc os" and "wf_sess st"
  shows "wp nobug (\<lambda>(rc, st'). served st st' \<and> (rc = APR_SUCCESS \<longrightarrow> answered st st'))
    (handle_retr os st)"
proof (cases "ftp_arg_str st = None")
  case True
  with assms(2) show ?thesis by (auto simp: handle_retr_def Let_def sess_defs intro!: wp_write)
next
  case False
  have off: "restart_pos st = 0" "st\<lparr>restart_pos := 0\<rparr> = st" "is_ascii st = 0" and ex: "exclusive st"
    using assms(2) by (simp_all add: wf_sess_def)
  show ?thesis
    unfolding handle_retr_def Let_def off if_not_P [OF False]
  proof (subst wp_bnd, rule wp_data_checks [OF ex], goal_cases)
    case 1
    obtain rc fo w where o: "lkl_file_open os (get_abs_path (ftp_arg_str st) st) RETR_FLAGS 0 (world st)
        = (rc, fo, w)"
      by (cases "lkl_file_open os (get_abs_path (ftp_arg_str st) st) RETR_FLAGS 0 (world st)") auto
    have wf: "wf_sess (st\<lparr>world := w\<rparr>)" using assms(2) by (simp add: sess_defs)
    show ?case
    proof (cases fo)
      case None
      with assms(2) show ?thesis by (auto simp: o off sess_defs intro!: wp_write)
    next
      case (Some f)
      with wp_retr_opened [OF assms(1) wf, of _ f] 1 show ?thesis
        by (simp add: o off del: wp_bnd)
    qed
  qed (use assms(2) in \<open>auto simp: sess_defs APR_EINVAL_def\<close>)
qed

section \<open>The contracts\<close>

interpretation retr: answering_op "handle_retr os" nobug "env_doc os" for os
  by (rule answering_opI, rule wp_handle_retr)

interpretation stor: answering_op "handle_stor os" nobug "env_doc os" for os
  unfolding handle_stor_def by (rule answering_opI, rule wp_handle_upload)

interpretation appe: answering_op "handle_appe os" nobug "env_doc os" for os
  unfolding handle_appe_def by (rule answering_opI, rule wp_handle_upload)

interpretation stou: answering_op "handle_stou os" nobug "env_doc os" for os
  unfolding handle_stou_def by (rule answering_opI, rule wp_handle_upload)

end
