(* ===== verification/Listing.thy ===== *)
theory Listing
  imports TransferOps
begin

text \<open>
  LIST of cmdhandler.c: the text of a directory listing and the handler that sends it.
\<close>

section \<open>The text of a listing\<close>

definition LIST_FLAG_A :: flags where "LIST_FLAG_A = 0x01"
definition LIST_FLAG_L :: flags where "LIST_FLAG_L = 0x02"

definition perm_char :: "32 word \<Rightarrow> apr_finfo \<Rightarrow> char \<Rightarrow> farg" where
  "perm_char p finfo c = Chr (if fi_protection finfo AND p \<noteq> 0 then c else CHR ''-'')"

definition LIST_FORMAT :: string where
  "LIST_FORMAT = ''%c%c%c%c%c%c%c%c%c%c ftp ftp %d %s %s''"

text \<open>
  The line of one entry, or nothing for a hidden one. The buffer has 1024 bytes and
  \<open>time_string\<close> 13; the size is cut to an \<open>int\<close>. When no entry has been looked up yet the line is made of
  uninitialised memory.
\<close>

definition list_args :: "apr_finfo \<Rightarrow> string \<Rightarrow> string \<Rightarrow> farg list" where
  "list_args finfo time_string name =
     [Chr (if fi_filetype finfo = APR_DIR then CHR ''d'' else CHR ''-''),
      perm_char APR_UREAD finfo (CHR ''r''), perm_char APR_UWRITE finfo (CHR ''w''),
      perm_char APR_UEXECUTE finfo (CHR ''x''),
      perm_char APR_GREAD finfo (CHR ''r''), perm_char APR_GWRITE finfo (CHR ''w''),
      perm_char APR_GEXECUTE finfo (CHR ''x''),
      perm_char APR_WREAD finfo (CHR ''r''), perm_char APR_WWRITE finfo (CHR ''w''),
      perm_char APR_WEXECUTE finfo (CHR ''x''),
      Dec (to_int32 (fi_size finfo)), Str time_string, Str name]"

definition list_entry ::
    "('w, 'z) server_scheme \<Rightarrow> flags \<Rightarrow> apr_finfo \<Rightarrow> 'w \<Rightarrow> (string option \<times> 'w) res" where
  "list_entry os list_flags finfo w =
     (case fi_name finfo of
        None \<Rightarrow> Inl Null_Deref
      | Some name \<Rightarrow>
          if list_flags AND LIST_FLAG_A = 0 \<and> name \<noteq> [] \<and> hd name = CHR ''.'' then Inr (None, w)
          else if \<not> fi_set finfo then Inl Uninitialised
          else if list_flags AND LIST_FLAG_L \<noteq> 0 then
            let exp_time = apr_time_exp_lt os (fi_mtime finfo) in
            case apr_time_now os w of
              (now, w) \<Rightarrow>
                let exp_now = apr_time_exp_lt os now;
                    time_fmt = (if tm_year exp_now = tm_year exp_time then ''%b %d %H:%M''
                                else ''%b %d %Y'');
                    time_string = apr_strftime os 13 time_fmt exp_time
                in case apr_pvsprintf os LIST_FORMAT (list_args finfo time_string name) of
                     None \<Rightarrow> Inl Bad_Format
                   | Some buffer \<Rightarrow> Inr (Some (take 1023 buffer), w)
          else
            case apr_pvsprintf os ''%s%s''
                [Str name, Str (if fi_filetype finfo = APR_DIR then ''/'' else [])] of
              None \<Rightarrow> Inl Bad_Format
            | Some buffer \<Rightarrow> Inr (Some (take 1023 buffer), w))"

text \<open>
  The loop: \<open>finfo\<close> is one variable for all entries, not initialised, so what \<open>lkl_dir_read\<close> does not set of
  an entry keeps the value of the entry before.
\<close>

definition list_step ::
    "('w, 'z) server_scheme \<Rightarrow> flags \<Rightarrow> string \<times> apr_finfo \<times> lkl_dir \<times> 'w
      \<Rightarrow> (string \<times> apr_finfo \<times> lkl_dir \<times> 'w, string \<times> lkl_dir \<times> 'w) ctl res" where
  "list_step os list_flags = (\<lambda>(dest, finfo, dir, w).
     bnd (lkl_dir_read os finfo LIST_WANTED dir w) (\<lambda>(apr_err, finfo, dir, w).
       if apr_err = APR_SUCCESS \<or> apr_err = APR_INCOMPLETE then
         bnd (list_entry os list_flags finfo w) (\<lambda>(line, w).
           Inr (Again (case line of None \<Rightarrow> dest | Some buffer \<Rightarrow> dest @ buffer @ FTP_ENDCOMMAND_SEQUENCE,
             finfo, dir, w)))
       else Inr (Done (dest, dir, w))))"

definition list_dir ::
    "('w, 'z) server_scheme \<Rightarrow> cstr \<Rightarrow> flags \<Rightarrow> 'w \<Rightarrow> (int \<times> string \<times> 'w) res" where
  "list_dir os directory list_flags w =
     (case lkl_dir_open os directory w of
        (apr_err, dir, w) \<Rightarrow>
          (case dir of
             None \<Rightarrow> Inr (apr_err, FTP_ENDCOMMAND_SEQUENCE, w)
           | Some dir \<Rightarrow>
               bnd (run_loop (list_step os list_flags) ([], (stack_finfo os)\<lparr>fi_set := False\<rparr>, dir, w)) (\<lambda>(dest, dir, w).
               bnd (lkl_dir_close os dir w) (\<lambda>(_, w). Inr (APR_SUCCESS, dest, w)))))"

section \<open>LIST\<close>

text \<open>The path and the flags: an argument that begins with a dash is a set of options.\<close>

definition list_path :: "'w st \<Rightarrow> cstr \<times> flags" where
  "list_path st =
     (case ftp_arg_str st of
        None \<Rightarrow> (Some (cwd_path st), LIST_FLAG_L)
      | Some arg \<Rightarrow>
          if arg \<noteq> [] \<and> hd arg = CHR ''-'' then
            (Some (cwd_path st),
             if strchr (tl arg) (CHR ''a'') then LIST_FLAG_L OR LIST_FLAG_A else LIST_FLAG_L)
          else (get_abs_path (Some arg) st, LIST_FLAG_L))"

definition handle_list :: "('w, 'z) server_scheme \<Rightarrow> 'w st \<Rightarrow> (int \<times> 'w st) res" where
  "handle_list os st =
     (case list_path st of
        (path, list_flags) \<Rightarrow>
          if path = None then
            bnd (lfd_cmdio_write os FTP_BADOPTS ''The server has encountered an error.'' [] st)
              (\<lambda>(_, st). Inr (APR_EINVAL, st))
          else
            bnd (list_dir os path list_flags (world st)) (\<lambda>(rc, file_list, w).
              let st = st\<lparr>world := w\<rparr> in
              if rc \<noteq> APR_SUCCESS then lfd_cmdio_write os FTP_BADOPTS ''Cannot list files.'' [] st
              else
                bnd (lfd_get_remote_transfer_fd os ''Here comes the directory listing'' st)
                  (\<lambda>(remote_fd, st).
                    case remote_fd of
                      None \<Rightarrow> Inr (APR_EINVAL, st)
                    | Some fd \<Rightarrow>
                        case apr_socket_send os fd file_list (world st) of
                          (rc, bytes_written, w) \<Rightarrow>
                            let st = st\<lparr>world := w\<rparr> in
                            bnd (if rc = APR_SUCCESS \<and> bytes_written = length file_list
                                 then lfd_cmdio_write os FTP_TRANSFEROK ''Directory sent OK'' [] st
                                 else lfd_cmdio_write os FTP_BADSENDNET ''Error sendind data'' [] st)
                              (\<lambda>(rc, st).
                                bnd (lfd_dispose_transfer_fd os st) (\<lambda>st. Inr (rc, st))))))"

section \<open>The contract\<close>

text \<open>
  The one call of \<open>bug\<close> that a session can reach: LIST does not ask whether PORT or PASV was given.
\<close>

definition no_connection :: fault where
  "no_connection = Bug ''neither PORT nor PASV active in get_remote_transfer_fd''"

definition list_faults :: "fault \<Rightarrow> bool" where
  "list_faults e \<longleftrightarrow> nobug e \<or> e = no_connection"

lemma nobug_list_faults: "nobug e \<Longrightarrow> list_faults e"
  by (simp add: list_faults_def)

lemma safe_dirent_at: "safe (dirent_at ds off)"
  by (induction ds off rule: dirent_at.induct) simp_all

lemma safe_readdir: "safe (lkl_readdir os d w)"
  by (auto simp: lkl_readdir_def Let_def split: prod.splits intro!: safe_bnd safe_dirent_at)

lemma safe_entry_fspec: "safe (entry_fspec d name)"
  by (simp add: entry_fspec_def Let_def)

lemma safe_dir_read: "safe (lkl_dir_read os fi wanted d w)"
  unfolding lkl_dir_read_def Let_def
  by (rule safe_bnd [OF safe_readdir])
    (auto simp: case_prod_unfold split: option.splits intro!: safe_bnd safe_entry_fspec)

lemma safe_list_entry: "safe (list_entry os fl fi w)"
  by (auto simp: list_entry_def Let_def split: option.splits prod.splits)

lemma safe_list_dir:
  assumes "env_doc os"
  shows "safe (list_dir os path fl w)"
proof -
  have "safe (run_loop (list_step os fl) s)" for s
    by (auto simp: list_step_def split: prod.splits intro!: safe_intros safe_dir_read safe_list_entry)
  moreover have "safe (lkl_dir_close os d v)" for d v
    using assms by (simp add: lkl_dir_close_def env_doc_def dir_cleanup_def)
  ultimately show ?thesis
    by (auto simp: list_dir_def split: prod.splits option.splits intro!: safe_bnd)
qed

lemma wp_list_connection:
  assumes "env_doc os" and "idle (data_conn st)" and "exclusive st"
    and "\<And>fd st'. opened st fd st' \<Longrightarrow> Q (fd, st')"
  shows "wp list_faults Q (lfd_get_remote_transfer_fd os msg st)"
proof (cases "p_port_sockaddr st = None \<and> pasv_listen_fd st = None")
  case True
  with active_one [of st] show ?thesis
    by (simp add: lfd_get_remote_transfer_fd_def bug_def list_faults_def no_connection_def)
next
  case False
  show ?thesis
    by (rule wp_mono [OF wp_transfer_fd [OF assms(1-3), where Q = Q]])
      (use False assms(4) in \<open>auto intro: nobug_list_faults\<close>)
qed

lemma wp_handle_list:
  assumes "env_doc os" and "wf_sess st"
  shows "wp list_faults (\<lambda>(rc, st'). served st st' \<and> (rc = APR_SUCCESS \<longrightarrow> answered st st'))
    (handle_list os st)"
proof -
  obtain path fl where p: "list_path st = (path, fl)" by (cases "list_path st")
  show ?thesis
  proof (cases "path = None")
    case True
    with assms(2) p show ?thesis
      by (auto simp: handle_list_def sess_defs list_faults_def APR_EINVAL_def intro!: wp_write)
  next
    case False
    show ?thesis
      unfolding handle_list_def p prod.case if_not_P [OF False]
    proof (subst wp_bnd, rule wp_mono [OF safe_list_dir [OF assms(1), unfolded safe_def]],
        erule nobug_list_faults, goal_cases)
      case (1 a)
      obtain rc files w where a: "a = (rc, files, w)" by (cases a) auto
      let ?st = "st\<lparr>world := w\<rparr>"
      have st: "idle (data_conn ?st)" "exclusive ?st" using assms(2) by (simp_all add: sess_defs)
      show ?case
      proof (cases "rc = APR_SUCCESS")
        case False
        with assms(2) show ?thesis by (auto simp: a sess_defs list_faults_def intro!: wp_write)
      next
        case True
        show ?thesis
          unfolding a prod.case Let_def True if_not_P [OF not_not [THEN iffD2, OF refl]]
        proof (subst wp_bnd, rule wp_list_connection [OF assms(1) st], goal_cases)
          case (1 fd st1)
          show ?case
          proof (cases fd)
            case None
            with 1 assms(2) show ?thesis by (auto simp: sess_defs opened_def APR_EINVAL_def)
          next
            case (Some k)
            obtain src n w2 where s: "apr_socket_send os k files (world st1) = (src, n, w2)"
              by (cases "apr_socket_send os k files (world st1)") auto
            from 1 Some assms(2) show ?thesis
              by (auto simp: s sess_defs opened_def list_faults_def intro!: wp_write wp_dispose)
          qed
        qed
      qed
    qed
  qed
qed

interpretation list': answering_op "handle_list os" list_faults "env_doc os" for os
  by (rule answering_opI, rule wp_handle_list)

end
