(* ===== verification/ListProps.thy ===== *)
theory ListProps
  imports Listing
begin

text \<open>
  What LIST shows of a directory, and what it does without a data connection.
\<close>

section \<open>The line of an entry\<close>

text \<open>
  The line of an entry that could be looked up, by its mode and size as the kernel gives them.
\<close>

definition mode_char :: "32 word \<Rightarrow> 32 word \<Rightarrow> char \<Rightarrow> char" where
  "mode_char mode b c = (if mode AND b \<noteq> 0 then c else CHR ''-'')"

definition mode_string :: "32 word \<Rightarrow> string" where
  "mode_string mode =
     [if filetype_from_mode mode = APR_DIR then CHR ''d'' else CHR ''-'',
      mode_char mode S_IRUSR (CHR ''r''), mode_char mode S_IWUSR (CHR ''w''),
      mode_char mode S_IXUSR (CHR ''x''), mode_char mode S_IRGRP (CHR ''r''),
      mode_char mode S_IWGRP (CHR ''w''), mode_char mode S_IXGRP (CHR ''x''),
      mode_char mode S_IROTH (CHR ''r''), mode_char mode S_IWOTH (CHR ''w''),
      mode_char mode S_IXOTH (CHR ''x'')]"

definition list_time :: "('w, 'z) apr_scheme \<Rightarrow> int \<Rightarrow> kernel_stat \<Rightarrow> string" where
  "list_time os now info =
     (let t = apr_time_exp_lt os (st_mtime info * APR_USEC_PER_SEC)
      in apr_strftime os 13 (if tm_year (apr_time_exp_lt os now) = tm_year t then ''%b %d %H:%M''
                             else ''%b %d %Y'') t)"

definition list_line :: "('w, 'z) apr_scheme \<Rightarrow> int \<Rightarrow> kernel_stat \<Rightarrow> string \<Rightarrow> string" where
  "list_line os now info name =
     take 1023 (mode_string (st_mode info) @ '' ftp ftp '' @ dec_int (to_int32 (st_size info))
       @ '' '' @ list_time os now info @ '' '' @ name) @ CRLF"

definition hidden :: "string \<Rightarrow> bool" where
  "hidden name \<longleftrightarrow> name \<noteq> [] \<and> hd name = CHR ''.''"

definition listing ::
    "('w, 'z) apr_scheme \<Rightarrow> int \<Rightarrow> (string \<Rightarrow> kernel_stat) \<Rightarrow> flags \<Rightarrow> kernel_dirent list \<Rightarrow> string" where
  "listing os now info list_flags es =
     concat (map (\<lambda>e. list_line os now (info (d_name e)) (d_name e))
       (filter (\<lambda>e. list_flags AND LIST_FLAG_A \<noteq> 0 \<or> \<not> hidden (d_name e)) es))"

lemma and_bit: "(w AND 2 ^ i \<noteq> 0) = bit w i" for w :: "32 word"
  by (auto simp: and_exp_eq_0_iff_not_bit)

lemma perm_char_mode:
  "perm_char APR_UREAD fi c = Chr (mode_char m S_IRUSR c)"
  "perm_char APR_UWRITE fi c = Chr (mode_char m S_IWUSR c)"
  "perm_char APR_UEXECUTE fi c = Chr (mode_char m S_IXUSR c)"
  "perm_char APR_GREAD fi c = Chr (mode_char m S_IRGRP c)"
  "perm_char APR_GWRITE fi c = Chr (mode_char m S_IWGRP c)"
  "perm_char APR_GEXECUTE fi c = Chr (mode_char m S_IXGRP c)"
  "perm_char APR_WREAD fi c = Chr (mode_char m S_IROTH c)"
  "perm_char APR_WWRITE fi c = Chr (mode_char m S_IWOTH c)"
  "perm_char APR_WEXECUTE fi c = Chr (mode_char m S_IXOTH c)"
  if "fi_protection fi = lkl_unix_mode2perms m"
  unfolding perm_char_def mode_char_def that masks_as_bits and_bit bit_mode2perms by simp_all

lemma list_format_out:
  assumes "printf_doc p"
  shows "p LIST_FORMAT [Chr a, Chr b, Chr c, Chr d, Chr e, Chr f, Chr g, Chr h, Chr i, Chr j, Dec n, Str t, Str s]
    = Some ([a, b, c, d, e, f, g, h, i, j] @ '' ftp ftp '' @ dec_int n @ '' '' @ t @ '' '' @ s)"
  by (simp add: LIST_FORMAT_def printf_docD(1-5,7) [OF assms])


lemma list_entry_line:
  assumes "printf_doc (apr_pvsprintf os)" and "apr_time_now os v = (now, v1)"
    and "list_flags AND LIST_FLAG_L \<noteq> 0"
    and "fi_name fi = Some name" and "fi_protection fi = lkl_unix_mode2perms (st_mode info)"
    and "fi_filetype fi = filetype_from_mode (st_mode info)" and "fi_size fi = st_size info"
    and "fi_mtime fi = st_mtime info * APR_USEC_PER_SEC" and "fi_set fi"
  shows "list_entry os list_flags fi v =
    Inr (if list_flags AND LIST_FLAG_A = 0 \<and> hidden name then (None, v)
      else (Some (take 1023 (mode_string (st_mode info) @ '' ftp ftp '' @ dec_int (to_int32 (st_size info))
        @ '' '' @ list_time os now info @ '' '' @ name)), v1))"
  using assms(2-4)
  by (simp add: list_entry_def hidden_def list_args_def perm_char_mode [OF assms(5)] assms(6-9)
      list_format_out [OF assms(1)] mode_string_def list_time_def Let_def)

text \<open>
  What LIST asks of its environment: a directory that the kernel lists as \<open>es\<close>, entries that can be
  looked up, a clock.
\<close>

definition listable ::
    "('w, 'z) apr_scheme \<Rightarrow> string \<Rightarrow> (string \<Rightarrow> kernel_stat) \<Rightarrow> int \<Rightarrow> ('w \<Rightarrow> kernel_dirent list) \<Rightarrow> bool" where
  "listable os path info now todo \<longleftrightarrow>
     (\<forall>name p v. entry_fspec (Some path) name = Inr p \<longrightarrow>
        fst (lkl_sys_newlstat os (Some p) v) = 0
      \<and> fst (snd (lkl_sys_newlstat os (Some p) v)) = info name
      \<and> todo (snd (snd (lkl_sys_newlstat os (Some p) v))) = todo v)
   \<and> (\<forall>v. fst (apr_time_now os v) = now \<and> todo (snd (apr_time_now os v)) = todo v)"

lemma list_loop:
  assumes "printf_doc (apr_pvsprintf os)" and "list_flags AND LIST_FLAG_L \<noteq> 0"
    and "kernel_lists os fd todo" and "listable os path info now todo" and "path \<noteq> []"
    and "dir_ok d" and "dir_fd d = fd" and "dirname d = Some path"
  shows "wp (\<lambda>_. False) (\<lambda>(dest', d', w'). dir_fd d' = fd
      \<and> dest' = dest @ listing os now info list_flags (dir_left todo d w))
    (run_loop (list_step os list_flags) (dest, fi, d, w))"
proof (rule wp_run_loop_total [where \<mu> = "\<lambda>(t, g, e, v). length (dir_left todo e v)" and
    I = "\<lambda>(t, g, e, v). dir_ok e \<and> dir_fd e = fd \<and> dirname e = Some path
      \<and> t @ listing os now info list_flags (dir_left todo e v)
        = dest @ listing os now info list_flags (dir_left todo d w)"], goal_cases)
  case (2 x)
  obtain t g e v where x: "x = (t, g, e, v)" by (cases x) auto
  with 2 have I: "dir_ok e" "dir_fd e = fd" "dirname e = Some path"
    "t @ listing os now info list_flags (dir_left todo e v)
       = dest @ listing os now info list_flags (dir_left todo d w)" by auto
  obtain r e' v' where rd: "lkl_readdir os e v = Inr (r, e', v')"
    and e': "dir_ok e'" "dir_fd e' = fd" "dirname e' = Some path"
      "case r of None \<Rightarrow> dir_left todo e v = [] \<and> dir_left todo e' v' = []
         | Some x \<Rightarrow> dir_left todo e v = x # dir_left todo e' v'"
    using wp_returns [OF readdir_spec [OF I(1), where os = os and todo = todo and w = v]] I assms(3)
    by auto
  show ?case
  proof (cases r)
    case None
    with rd e' I show ?thesis
      by (simp add: x list_step_def lkl_dir_read_def APR_ENOENT_def APR_INCOMPLETE_def listing_def)
  next
    case (Some y)
    obtain p where p: "entry_fspec (Some path) (d_name y) = Inr p"
      using assms(5) by (auto simp: entry_fspec_def Let_def APR_PATH_MAX_def)
    obtain v2 where st: "lkl_sys_newlstat os (Some p) v' = (0, info (d_name y), v2)" "todo v2 = todo v'"
      using assms(4) p unfolding listable_def
      by (cases "lkl_sys_newlstat os (Some p) v'") (metis fst_conv snd_conv)
    obtain v3 where clock: "apr_time_now os v2 = (now, v3)" "todo v3 = todo v2"
      using assms(4) unfolding listable_def by (cases "apr_time_now os v2") (metis fst_conv snd_conv)
    define fi1 where "fi1 = (fill_out_finfo (g\<lparr>fi_fname := None\<rparr>) (info (d_name y)) 0)
      \<lparr>fi_name := Some (d_name y),
        fi_valid := fi_valid (fill_out_finfo (g\<lparr>fi_fname := None\<rparr>) (info (d_name y)) 0) OR APR_FINFO_NAME\<rparr>"
    have fi1: "fi_name fi1 = Some (d_name y)"
      "fi_protection fi1 = lkl_unix_mode2perms (st_mode (info (d_name y)))"
      "fi_filetype fi1 = filetype_from_mode (st_mode (info (d_name y)))"
      "fi_size fi1 = st_size (info (d_name y))"
      "fi_mtime fi1 = st_mtime (info (d_name y)) * APR_USEC_PER_SEC" "fi_set fi1"
      by (simp_all add: fi1_def fill_out_finfo_def)
    have "lkl_dir_read os g LIST_WANTED e v = Inr (APR_SUCCESS, fi1, e'\<lparr>dir_entry := Some y\<rparr>, v2)"
      using dir_read_eq [of os e v y e' v' p g] rd p e'(3) st(1) Some
      by (simp add: entry_info_def fi1_def APR_INCOMPLETE_def Let_def)
    then have step: "list_step os list_flags (t, g, e, v) =
      Inr (Again (if list_flags AND LIST_FLAG_A = 0 \<and> hidden (d_name y) then t
        else t @ list_line os now (info (d_name y)) (d_name y), fi1, e'\<lparr>dir_entry := Some y\<rparr>,
        if list_flags AND LIST_FLAG_A = 0 \<and> hidden (d_name y) then v2 else v3))"
      using list_entry_line [OF assms(1) clock(1) assms(2) fi1]
      by (simp add: list_step_def list_line_def FTP_ENDCOMMAND_SEQUENCE_def)
    have left: "dir_left todo e v = y # dir_left todo e' v'" using e'(4) Some by simp
    have todo: "dir_left todo e' u = dir_left todo e' v'" if "u = v2 \<or> u = v3" for u
      using that st(2) clock(2) by (auto simp: dir_left_def)
    show ?thesis
      using I(4) e'(1-3) todo left by (auto simp: x step listing_def)
  qed
qed (use assms in auto)


text \<open>
  The listing of a directory whose entries can be looked up has one line for each entry that the
  kernel reports, in the kernel's order and without the hidden ones unless they are asked for,
  with its type, permission bits, size and time.
\<close>
theorem list_shows_directory:
  assumes "printf_doc (apr_pvsprintf os)" and "env_doc os" and "list_flags AND LIST_FLAG_L \<noteq> 0"
    and "path \<noteq> []" and "listable os path info now todo" and "kernel_lists os fd todo"
    and "lkl_sys_open os (Some path) (O_RDONLY OR O_DIRECTORY OR O_LARGEFILE) 0 w = (fd, w1)"
    and "0 \<le> fd" and "todo (apr_pool_cleanup_register os fd w1) = es"
  shows "\<exists>w'. list_dir os (Some path) list_flags w
    = Inr (APR_SUCCESS, listing os now info list_flags es, w')"
proof -
  let ?d = "\<lparr>dirname = Some path, dir_fd = fd, dir_data = [], dir_offset = 0, dir_size = 0, dir_entry = None\<rparr>"
  let ?w = "apr_pool_cleanup_register os fd w1" and ?fi = "(stack_finfo os)\<lparr>fi_set := False\<rparr>"
  have "lkl_dir_open os (Some path) w = (APR_SUCCESS, Some ?d, ?w)"
    using assms(7,8) by (simp add: lkl_dir_open_def)
  moreover have "dir_ok ?d" "dir_left todo ?d ?w = es"
    using assms(9) by (simp_all add: dir_ok_def dir_left_def)
  moreover obtain d' w' where
    "run_loop (list_step os list_flags) ([], ?fi, ?d, ?w)
       = Inr (listing os now info list_flags es, d', w')"
    using wp_returns [OF list_loop [OF assms(1,3,6,5,4) calculation(2), where dest = "[]"
        and fi = ?fi and w = ?w]] calculation(3) by auto
  ultimately show ?thesis
    using assms(2) by (simp add: list_dir_def lkl_dir_close_def env_doc_def dir_cleanup_def case_prod_unfold)
qed

text \<open>
  C35. LIST does not look at what the lookup of an entry says: when the first entry of a directory that can be
  opened is one that it shows, and cannot be looked up, having vanished since, say, its line is made of a
  variable that was never set, which is undefined.
\<close>
theorem list_shows_unset_memory:
  assumes "list_path st = (Some path, list_flags)" and "path \<noteq> []"
    and "lkl_sys_open os (Some path) (O_RDONLY OR O_DIRECTORY OR O_LARGEFILE) 0 (world st) = (fd, w1)" and "0 \<le> fd"
    and "lkl_sys_getdents os fd BUF_SIZE (apr_pool_cleanup_register os fd w1) = (r, e # es, w2)" and "0 < r"
    and "\<And>p. fst (lkl_sys_newlstat os p w2) < 0 \<and> - 4095 \<le> fst (lkl_sys_newlstat os p w2)"
    and "list_flags AND LIST_FLAG_A \<noteq> 0 \<or> \<not> hidden (d_name e)"
  shows "handle_list os st = Inl Uninitialised"
proof -
  let ?w = "apr_pool_cleanup_register os fd w1"
  let ?d = "\<lparr>dirname = Some path, dir_fd = fd, dir_data = [], dir_offset = 0, dir_size = 0, dir_entry = None\<rparr>"
  let ?d' = "?d\<lparr>dir_data := e # es, dir_size := nat r, dir_offset := d_reclen e\<rparr>"
  let ?fi = "(stack_finfo os)\<lparr>fi_set := False\<rparr>"
  have opened: "lkl_dir_open os (Some path) (world st) = (APR_SUCCESS, Some ?d, ?w)"
    using assms(3,4) by (simp add: lkl_dir_open_def)
  have entry: "lkl_readdir os ?d ?w = Inr (Some e, ?d', w2)"
    using assms(5,6) by (simp add: lkl_readdir_def)
  obtain p where p: "entry_fspec (Some path) (d_name e) = Inr p"
    using assms(2) by (auto simp: entry_fspec_def Let_def APR_PATH_MAX_def)
  obtain srv info w3 where st: "lkl_sys_newlstat os (Some p) w2 = (srv, info, w3)"
    by (cases "lkl_sys_newlstat os (Some p) w2") auto
  with assms(7) [of "Some p"] have srv: "srv < 0" "- 4095 \<le> srv" by simp_all
  then have "srv \<noteq> - APR_INCOMPLETE" by (simp add: APR_INCOMPLETE_def)
  then have read: "lkl_dir_read os ?fi LIST_WANTED ?d ?w = (case entry_info os p e ?fi w2 of
      (rc, fi, w) \<Rightarrow> Inr (rc, fi, ?d'\<lparr>dir_entry := Some e\<rparr>, w))"
    using dir_read_eq [OF entry, of p ?fi] p st by simp
  have info: "entry_info os p e ?fi w2 = (APR_INCOMPLETE, fi, w3) \<Longrightarrow> fi_name fi = Some (d_name e) \<and> \<not> fi_set fi"
    for fi using st srv by (cases "has_ino e") (auto simp: entry_info_def Let_def)
  obtain fi where "entry_info os p e ?fi w2 = (APR_INCOMPLETE, fi, w3)"
    using st srv by (simp add: entry_info_def Let_def)
  with info [OF this] read assms(8) have "list_step os list_flags ([], ?fi, ?d, ?w) = Inl Uninitialised"
    by (auto simp: list_step_def list_entry_def hidden_def)
  with opened assms(1) show ?thesis
    by (simp add: handle_list_def list_dir_def run_loop_unfold)
qed

lemma list_no_connection:
  assumes "p_port_sockaddr st = None" and "pasv_listen_fd st = None"
    and "list_path st = (Some path, list_flags)"
    and "list_dir os (Some path) list_flags (world st) = Inr (APR_SUCCESS, files, w)"
  shows "handle_list os st = Inl no_connection"
  using assms active_one [of "st\<lparr>world := w\<rparr>"]
  by (simp add: handle_list_def lfd_get_remote_transfer_fd_def bug_def no_connection_def)

text \<open>
  C33. LIST is the one transfer that does not ask for PORT or PASV: without either, of a directory that can be
  listed, it ends in \<open>bug\<close>, which ends the process and with it the sessions of all clients.
\<close>
theorem list_without_connection_is_fatal:
  assumes "p_port_sockaddr st = None" and "pasv_listen_fd st = None"
    and "list_path st = (Some path, list_flags)"
    and "list_dir os (Some path) list_flags (world st) = Inr (APR_SUCCESS, files, w)"
  shows "handle_list os st = Inl no_connection"
  using assms by (rule list_no_connection)

end
