(* ===== verification/Worker.thy ===== *)
theory Worker
  imports ListProps
begin

text \<open>
  worker.c: the greeting, the command loop and the life of a session's thread.
\<close>

section \<open>The command loop\<close>

definition emit_greeting :: "('w, 'z) server_scheme \<Rightarrow> 'w st \<Rightarrow> (int \<times> 'w st) res" where
  "emit_greeting os st =
     (if length (lfd_config_banner_string (config os)) \<noteq> 0
      then lfd_cmdio_write os FTP_GREET (lfd_config_banner_string (config os)) [] st
      else Inr (APR_SUCCESS, st))"

definition lfd_cmdio_cmd_equals :: "('w, 'z) server_scheme \<Rightarrow> 'w st \<Rightarrow> string \<Rightarrow> bool" where
  "lfd_cmdio_cmd_equals os st cmd =
     (case ftp_cmd_str st of None \<Rightarrow> False | Some s \<Rightarrow> apr_strnatcasecmp os s cmd = 0)"

text \<open>
  The variables of the loop are \<open>rnfrto\<close>, \<open>temp_name\<close> and the session. A handler's result goes to
  the test of the loop: after an error the loop ends with it.
\<close>

type_synonym 'w loop_vars = "bool \<times> cstr \<times> 'w st"

definition loop_test ::
    "bool \<Rightarrow> cstr \<Rightarrow> int \<times> 'w st \<Rightarrow> ('w loop_vars, int \<times> 'w st) ctl res" where
  "loop_test rnfrto temp_name =
     (\<lambda>(rc, st). Inr (if rc = APR_SUCCESS then Again (rnfrto, temp_name, st) else Done (rc, st)))"

definition dispatch ::
    "('w, 'z) server_scheme \<Rightarrow> cstr \<Rightarrow> 'w st \<Rightarrow> ('w loop_vars, int \<times> 'w st) ctl res" where
  "dispatch os temp_name st =
     (let eq = lfd_cmdio_cmd_equals os st;
          run = (\<lambda>handler. bnd (handler os st) (loop_test False temp_name));
          say = (\<lambda>code msg. bnd (lfd_cmdio_write os code msg [] st) (loop_test False temp_name))
      in
      if eq ''PASV'' then run handle_pasv
      else if eq ''SYST'' then run handle_syst
      else if eq ''USER'' then run handle_user
      else if eq ''PASS'' then run handle_pass
      else if eq ''QUIT'' then bnd (handle_quit os st) (\<lambda>r. Inr (Done r))
      else if eq ''ABOR'' then run handle_abort
      else if eq ''PORT'' then run handle_port
      else if eq ''RMD'' then run handle_dir_remove
      else if eq ''MKD'' then run handle_dir_create
      else if eq ''PWD'' then run handle_pwd
      else if eq ''CWD'' then run handle_cwd
      else if eq ''CDUP'' then run handle_cdup
      else if eq ''RNFR'' then
        bnd (handle_rnfr os st) (\<lambda>(rc, temp_name, st).
          loop_test (rc = APR_SUCCESS \<and> temp_name \<noteq> None) temp_name (rc, st))
      else if eq ''TYPE'' then run handle_type
      else if eq ''RETR'' then run handle_retr
      else if eq ''STOR'' then run handle_stor
      else if eq ''DELE'' then run handle_dele
      else if eq ''STOU'' then run handle_stou
      else if eq ''LIST'' then run handle_list
      else if eq ''FEAT'' then run handle_feat
      else if eq ''APPE'' then run handle_appe
      else if eq ''SITE'' then run handle_site
      else if eq ''ALLO'' then say FTP_ALLOOK ''ALLO command ignored.''
      else if eq ''REIN'' then say FTP_COMMANDNOTIMPL ''REIN not implemented.''
      else if eq ''ACCT'' then say FTP_COMMANDNOTIMPL ''ACCT not implemented.''
      else if eq ''SMNT'' then say FTP_COMMANDNOTIMPL ''SMNT not implemented.''
      else bnd (lfd_cmdio_write os FTP_COMMANDNOTIMPL ''Command not implemented.'' [] st)
             (\<lambda>(_, st). Inr (Again (False, temp_name, st))))"

definition protocol_step ::
    "('w, 'z) server_scheme \<Rightarrow> 'w loop_vars \<Rightarrow> ('w loop_vars, int \<times> 'w st) ctl res" where
  "protocol_step os = (\<lambda>(rnfrto, temp_name, st).
     bnd (lfd_cmdio_get_cmd_and_arg os (st\<lparr>world := apr_pool_clear os (world st)\<rparr>)) (\<lambda>(rc, st).
       if rc \<noteq> APR_SUCCESS then Inr (Done (rc, st))
       else if lfd_cmdio_cmd_equals os st ''RNTO'' then
         if rnfrto then bnd (handle_rnto os temp_name st) (loop_test False temp_name)
         else bnd (handle_bad_rnto os st) (loop_test rnfrto temp_name)
       else if rnfrto then bnd (handle_bad_rnto os st) (loop_test False temp_name)
       else dispatch os temp_name st))"

definition ftp_protocol_loop :: "('w, 'z) server_scheme \<Rightarrow> 'w st \<Rightarrow> (int \<times> 'w st) res" where
  "ftp_protocol_loop os st = run_loop (protocol_step os) (False, None, st)"

section \<open>The thread of a session\<close>

text \<open>
  When the session cannot be created the socket is closed and the failure logged, with a conversion that has
  no argument: this is undefined (\<open>report_create_failure\<close> in theory Logging).
\<close>

definition lfd_worker_protocol_main_impl ::
    "('w, 'z) server_scheme \<Rightarrow> sock \<Rightarrow> 'w \<Rightarrow> 'w res" where
  "lfd_worker_protocol_main_impl os sk w =
     (case lfd_sess_create os sk w of
        (rc, None, w) \<Rightarrow> let w = snd (apr_socket_close os sk w) in Inl Bad_Format
      | (rc, Some st, w) \<Rightarrow>
          bnd (emit_greeting os st) (\<lambda>(rc, st).
          bnd (if rc = APR_SUCCESS then ftp_protocol_loop os st else Inr (rc, st)) (\<lambda>(rc, st).
            Inr (lfd_sess_destroy os st))))"

definition lfd_worker_protocol_main :: "('w, 'z) server_scheme \<Rightarrow> sock \<Rightarrow> 'w \<Rightarrow> 'w res" where
  "lfd_worker_protocol_main os sk w =
     bnd (lfd_worker_protocol_main_impl os sk w) (\<lambda>w. Inl Thread_Exit)"

end
