(* ===== verification/Listen.thy ===== *)
theory Listen
  imports Worker
begin

text \<open>
  listen.c: the listening socket, the loop that accepts clients and starts a thread for each, and
  the outgoing connection.
\<close>

section \<open>What the listener asks of APR besides\<close>

text \<open>
  \<open>apr_poll\<close> waits for one socket and also gives the events that it found; \<open>apr_thread_create\<close>
  starts \<open>lfd_worker_protocol_main\<close> on the socket of a client. \<open>ftp_must_exit\<close> is a variable that
  a signal may set at any time, so that it belongs to the world; it is read and written only
  through \<open>apr_atomic_read32\<close> and \<open>apr_atomic_set32\<close>.
\<close>

record 'w daemon = "'w server" +
  apr_threadattr_create :: "'w \<Rightarrow> int \<times> 'w"
  apr_thread_create :: "sock option \<Rightarrow> 'w \<Rightarrow> int \<times> 'w"
  apr_poll :: "sock \<Rightarrow> flags \<Rightarrow> int \<Rightarrow> 'w \<Rightarrow> int \<times> flags \<times> 'w"
  apr_atomic_read32 :: "'w \<Rightarrow> 32 word"
  apr_atomic_set32 :: "32 word \<Rightarrow> 'w \<Rightarrow> 'w"

definition APR_POLLIN :: flags where "APR_POLLIN = 0x1"
definition APR_POLLERR :: flags where "APR_POLLERR = 0x10"
definition APR_POLLHUP :: flags where "APR_POLLHUP = 0x20"

section \<open>The listening socket\<close>

text \<open>The addresses are tried in order until one can be bound and listened on.\<close>

fun try_addresses ::
    "('w, 'z) server_scheme \<Rightarrow> apr_sockaddr list \<Rightarrow> 'w \<Rightarrow> sock option \<times> 'w" where
  "try_addresses os [] w = (None, w)"
| "try_addresses os (saddr # next) w =
     (case apr_socket_create os (family saddr) w of
        (rc, listen_sock, w) \<Rightarrow>
          if rc \<noteq> APR_SUCCESS then try_addresses os next w
          else
            let w = snd (apr_socket_opt_set os listen_sock ''REUSEADDR'' 1 w) in
            case apr_socket_bind os listen_sock saddr w of
              (rc, w) \<Rightarrow>
                if rc \<noteq> APR_SUCCESS
                then try_addresses os next (snd (apr_socket_close os listen_sock w))
                else
                  case apr_socket_listen os listen_sock (lfd_config_backlog (config os)) w of
                    (rc, w) \<Rightarrow>
                      if rc \<noteq> APR_SUCCESS
                      then try_addresses os next (snd (apr_socket_close os listen_sock w))
                      else (Some listen_sock, w))"

definition create_listen_socket :: "('w, 'z) server_scheme \<Rightarrow> 'w \<Rightarrow> sock option \<times> 'w" where
  "create_listen_socket os w =
     (case apr_sockaddr_info_get os (Some (lfd_config_listen_host (config os)))
         (word_of_int (lfd_config_listen_port (config os))) w of
        (rc, saddrs, w) \<Rightarrow>
          if rc \<noteq> APR_SUCCESS then (None, w)
          else if saddrs = [] then (None, w)
          else try_addresses os saddrs w)"

section \<open>The accept loop\<close>

record pollfd =
  reqevents :: flags
  rtnevents :: flags
  desc :: sock

definition create_pollfd_from_socket :: "sock \<Rightarrow> pollfd" where
  "create_pollfd_from_socket sk =
     \<lparr>reqevents = APR_POLLIN OR APR_POLLHUP OR APR_POLLERR, rtnevents = 0, desc = sk\<rparr>"

definition APR_STATUS_IS_TIMEUP :: "int \<Rightarrow> bool" where
  "APR_STATUS_IS_TIMEUP s \<longleftrightarrow> s = APR_TIMEUP"

definition APR_STATUS_IS_EINTR :: "int \<Rightarrow> bool" where
  "APR_STATUS_IS_EINTR s \<longleftrightarrow> s = EINTR"

text \<open>
  The first half of an iteration waits: it makes the pool for the next thread, of which \<open>thd_pool\<close> says
  whether it exists yet, polls, and looks at the flag. It leaves the loop, starts it over, or goes on to
  accept a client.
\<close>

datatype 'w awaited = Shut 'w | Idle bool 'w | Ready 'w

definition await_client ::
    "('w, 'z) daemon_scheme \<Rightarrow> sock \<Rightarrow> bool \<times> 'w \<Rightarrow> 'w awaited" where
  "await_client os listen_sock = (\<lambda>(thd_pool, w).
     (case if thd_pool then (APR_SUCCESS, w) else apr_pool_create os w of
        (rc, w) \<Rightarrow>
          if rc \<noteq> APR_SUCCESS then Idle False w
          else
            let pfd = create_pollfd_from_socket listen_sock in
            case apr_poll os (desc pfd) (reqevents pfd)
                (lfd_config_max_acceptloop_timeout (config os)) w of
              (rc, events, w) \<Rightarrow>
                let pfd = pfd\<lparr>rtnevents := events\<rparr> in
                if rc \<noteq> APR_SUCCESS \<and> \<not> APR_STATUS_IS_TIMEUP rc \<and> \<not> APR_STATUS_IS_EINTR rc
                then Shut w
                else if apr_atomic_read32 os w \<noteq> 0 then Shut w
                else if APR_STATUS_IS_TIMEUP rc \<or> APR_STATUS_IS_EINTR rc
                    \<or> APR_POLLIN \<noteq> rtnevents pfd
                then Idle True w
                else Ready w))"

text \<open>
  The second half accepts the client and starts its thread; besides the variables of the loop it says for
  which socket a thread was started, if for any.
\<close>

definition accept_client ::
    "('w, 'z) daemon_scheme \<Rightarrow> sock \<Rightarrow> 'w \<Rightarrow> (sock option option \<times> bool \<times> 'w) res" where
  "accept_client os listen_sock w =
     (case apr_socket_accept os listen_sock w of
        (rc, client_sock, w) \<Rightarrow>
          if rc \<noteq> APR_SUCCESS then Inr (None, True, w)
          else
            case apr_thread_create os client_sock w of
              (rc, w) \<Rightarrow>
                if rc \<noteq> APR_SUCCESS then
                  (case client_sock of
                     None \<Rightarrow> Inl Null_Deref
                   | Some sk \<Rightarrow> Inr (None, True, snd (apr_socket_close os sk w)))
                else Inr (Some client_sock, False, w))"

definition listen_step ::
    "('w, 'z) daemon_scheme \<Rightarrow> sock \<Rightarrow> bool \<times> 'w \<Rightarrow> (bool \<times> 'w, 'w) ctl res" where
  "listen_step os listen_sock s =
     (case await_client os listen_sock s of
        Shut w \<Rightarrow> Inr (Done w)
      | Idle thd_pool w \<Rightarrow> Inr (Again (thd_pool, w))
      | Ready w \<Rightarrow>
          bnd (accept_client os listen_sock w) (\<lambda>(_, thd_pool, w). Inr (Again (thd_pool, w))))"

text \<open>What comes before the loop: the listening socket and the attributes of the threads.\<close>

definition open_listener :: "('w, 'z) daemon_scheme \<Rightarrow> 'w \<Rightarrow> sock option \<times> 'w" where
  "open_listener os w =
     (case create_listen_socket os w of
        (None, w) \<Rightarrow> (None, w)
      | (Some listen_sock, w) \<Rightarrow>
          case apr_threadattr_create os w of
            (rc, w) \<Rightarrow> (if rc \<noteq> APR_SUCCESS then None else Some listen_sock, w))"

definition lfd_listen :: "('w, 'z) daemon_scheme \<Rightarrow> 'w \<Rightarrow> 'w res" where
  "lfd_listen os w =
     (case open_listener os w of
        (None, w) \<Rightarrow> Inr w
      | (Some listen_sock, w) \<Rightarrow> run_loop (listen_step os listen_sock) (False, w))"

section \<open>An outgoing connection\<close>

definition lfd_connect :: "('w, 'z) server_scheme \<Rightarrow> apr_sockaddr \<Rightarrow> 'w \<Rightarrow> sock option \<times> 'w" where
  "lfd_connect os saddr w =
     (case apr_socket_create os (family saddr) w of
        (rc, connect_sock, w) \<Rightarrow>
          if rc \<noteq> APR_SUCCESS then (None, w)
          else
            case apr_socket_connect os connect_sock saddr w of
              (rc, w) \<Rightarrow>
                if rc \<noteq> APR_SUCCESS then (None, snd (apr_socket_close os connect_sock w))
                else (Some connect_sock, w))"

section \<open>The listening socket is bound and listening\<close>

text \<open>
  What a server that starts up can rely on: the socket was created for one of the addresses, and
  binding it to that address and listening on it succeeded.
\<close>

lemma try_addresses_Some:
  "try_addresses os addrs w = (Some sk, w') \<Longrightarrow>
     \<exists>a \<in> set addrs. \<exists>w0 w1 w2. apr_socket_create os (family a) w0 = (APR_SUCCESS, sk, w1)
       \<and> apr_socket_bind os sk a (snd (apr_socket_opt_set os sk ''REUSEADDR'' 1 w1)) = (APR_SUCCESS, w2)
       \<and> apr_socket_listen os sk (lfd_config_backlog (config os)) w2 = (APR_SUCCESS, w')"
proof (induction os addrs w rule: try_addresses.induct)
  case (2 os a as w)
  then show ?case
    by (auto simp: Let_def split: prod.splits if_splits)
qed simp

text \<open>
  An address that cannot be used leaves nothing behind but its closed socket, and the next one is
  tried.
\<close>

lemma try_addresses_skips:
  assumes "apr_socket_create os (family a) w = (APR_SUCCESS, sk, w1)"
    and "apr_socket_bind os sk a (snd (apr_socket_opt_set os sk ''REUSEADDR'' 1 w1)) = (rc, w2)"
    and "rc \<noteq> APR_SUCCESS"
  shows "try_addresses os (a # as) w = try_addresses os as (snd (apr_socket_close os sk w2))"
  using assms by simp

text \<open>
  When a listening socket is created, it is bound to one of the addresses of the configured
  host and listens with the configured backlog.
\<close>
theorem listen_socket_listens:
  assumes "create_listen_socket os w = (Some sk, w')"
  shows "\<exists>addrs w0 a w1 w2 w3.
      apr_sockaddr_info_get os (Some (lfd_config_listen_host (config os)))
        (word_of_int (lfd_config_listen_port (config os))) w = (APR_SUCCESS, addrs, w0)
    \<and> a \<in> set addrs \<and> apr_socket_create os (family a) w1 = (APR_SUCCESS, sk, w2)
    \<and> fst (apr_socket_bind os sk a (snd (apr_socket_opt_set os sk ''REUSEADDR'' 1 w2))) = APR_SUCCESS
    \<and> apr_socket_listen os sk (lfd_config_backlog (config os)) w3 = (APR_SUCCESS, w')"
proof -
  obtain rc addrs w0 where g: "apr_sockaddr_info_get os (Some (lfd_config_listen_host (config os)))
      (word_of_int (lfd_config_listen_port (config os))) w = (rc, addrs, w0)"
    by (cases "apr_sockaddr_info_get os (Some (lfd_config_listen_host (config os)))
      (word_of_int (lfd_config_listen_port (config os))) w") auto
  with assms have rc: "rc = APR_SUCCESS" and t: "try_addresses os addrs w0 = (Some sk, w')"
    by (auto simp: create_listen_socket_def split: if_splits)
  from try_addresses_Some [OF t] obtain a w1 w2 w3 where "a \<in> set addrs"
    "apr_socket_create os (family a) w1 = (APR_SUCCESS, sk, w2)"
    "apr_socket_bind os sk a (snd (apr_socket_opt_set os sk ''REUSEADDR'' 1 w2)) = (APR_SUCCESS, w3)"
    "apr_socket_listen os sk (lfd_config_backlog (config os)) w3 = (APR_SUCCESS, w')" by blast
  with g rc show ?thesis by (metis fst_conv)
qed

section \<open>Shutting down\<close>

text \<open>
  A shutdown: \<open>ticks\<close> counts the turns of the loop until the flag is set. Each poll brings the signal nearer,
  and so does each failure to create a memory pool, which keeps the loop from polling; nothing else that the
  loop calls puts it off.
\<close>

definition signalled :: "('w, 'z) daemon_scheme \<Rightarrow> ('w \<Rightarrow> nat) \<Rightarrow> bool" where
  "signalled os ticks \<longleftrightarrow>
     (\<forall>sk ev t w. let w' = snd (snd (apr_poll os sk ev t w))
        in apr_atomic_read32 os w' \<noteq> 0 \<or> ticks w' < ticks w)
   \<and> (\<forall>w. ticks (snd (apr_pool_create os w)) \<le> ticks w)
   \<and> (\<forall>w. fst (apr_pool_create os w) \<noteq> APR_SUCCESS \<longrightarrow> ticks (snd (apr_pool_create os w)) < ticks w)
   \<and> (\<forall>sk w. ticks (snd (snd (apr_socket_accept os sk w))) \<le> ticks w)
   \<and> (\<forall>sk w. ticks (snd (apr_thread_create os sk w)) \<le> ticks w)
   \<and> (\<forall>sk w. ticks (snd (apr_socket_close os sk w)) \<le> ticks w)"

lemma signalledD:
  assumes "signalled os ticks"
  shows "apr_poll os sk ev t w = (rc, es, w') \<Longrightarrow> apr_atomic_read32 os w' \<noteq> 0 \<or> ticks w' < ticks w"
    and "apr_pool_create os w = (rc, w') \<Longrightarrow> ticks w' \<le> ticks w \<and> (rc \<noteq> APR_SUCCESS \<longrightarrow> ticks w' < ticks w)"
    and "apr_socket_accept os sk w = (rc, c, w') \<Longrightarrow> ticks w' \<le> ticks w"
    and "apr_thread_create os c w = (rc, w') \<Longrightarrow> ticks w' \<le> ticks w"
    and "ticks (snd (apr_socket_close os sk w)) \<le> ticks w"
  using assms unfolding signalled_def Let_def by (metis fst_conv snd_conv)+

lemma listen_step_ticks:
  assumes "signalled os ticks" and "accept_doc os"
  shows "wp (\<lambda>_. False) (\<lambda>c. case c of Again (_, w') \<Rightarrow> ticks w' < ticks w | Done _ \<Rightarrow> True)
    (listen_step os listen_sock (thd_pool, w))"
proof -
  obtain rc w1 where pool: "(if thd_pool then (APR_SUCCESS, w) else apr_pool_create os w) = (rc, w1)"
    by fastforce
  then have w1: "ticks w1 \<le> ticks w" "rc \<noteq> APR_SUCCESS \<Longrightarrow> ticks w1 < ticks w"
    using signalledD(2) [OF assms(1), of w rc w1] by (auto split: if_splits)
  show ?thesis
  proof (cases "rc = APR_SUCCESS")
    case False
    with pool w1 show ?thesis by (simp add: listen_step_def await_client_def)
  next
    case True
  let ?pfd = "create_pollfd_from_socket listen_sock"
  obtain prc es w2 where poll: "apr_poll os (desc ?pfd) (reqevents ?pfd)
      (lfd_config_max_acceptloop_timeout (config os)) w1 = (prc, es, w2)"
    by (cases "apr_poll os (desc ?pfd) (reqevents ?pfd) (lfd_config_max_acceptloop_timeout (config os)) w1") auto
  note w2 = signalledD(1) [OF assms(1) poll]
  obtain arc client w3 where acc: "apr_socket_accept os listen_sock w2 = (arc, client, w3)"
    by (cases "apr_socket_accept os listen_sock w2") auto
  note w3 = signalledD(3) [OF assms(1) acc]
  obtain trc w4 where thr: "apr_thread_create os client w3 = (trc, w4)"
    by (cases "apr_thread_create os client w3") auto
  note w4 = signalledD(4) [OF assms(1) thr]
  have c: "client \<noteq> None" if "arc = APR_SUCCESS"
    using assms(2) acc that unfolding accept_doc_def by blast
  have w5: "ticks (snd (apr_socket_close os sk w4)) < ticks w" if "ticks w2 < ticks w1" for sk
    using that w1 True w3 w4 signalledD(5) [OF assms(1), of sk w4] by simp
  show ?thesis
    using w1 True w2 w3 w4 c w5
    by (auto simp: listen_step_def await_client_def accept_client_def pool poll acc thr Let_def
        split: option.splits intro: le_less_trans)
  qed
qed

lemma listener_returns:
  assumes "signalled os ticks" and "accept_doc os"
  shows "\<exists>w'. lfd_listen os w = Inr w'"
proof -
  have "wp (\<lambda>_. False) (\<lambda>_. True) (run_loop (listen_step os sk) (False, w))" for sk w
  proof (rule wp_run_loop_total [where I = "\<lambda>_. True" and \<mu> = "\<lambda>(_, w). ticks w"], goal_cases)
    case (2 t)
    show ?case
      by (cases t) (auto intro!: wp_mono [OF listen_step_ticks [OF assms]] split: ctl.splits)
  qed simp
  from this [THEN wp_returns] show ?thesis
    by (auto simp: lfd_listen_def split: prod.splits option.splits)
qed

text \<open>
  C27. The server stops when it is told to: if every poll, and every failure to create a memory pool, brings
  the shutdown signal nearer, and a successful accept gives a socket, the accept loop ends, however many
  clients connect and whichever other calls of the loop fail.
\<close>
theorem listener_shuts_down:
  assumes "signalled os ticks" and "accept_doc os"
  shows "\<exists>w'. lfd_listen os w = Inr w'"
  by (rule listener_returns [OF assms])

text \<open>A loop that never leaves its invariant runs forever.\<close>

lemma run_loop_diverges:
  assumes "I s" and "\<And>t. I t \<Longrightarrow> \<exists>t'. body t = Inr (Again t') \<and> I t'"
  shows "run_loop body s = Inl Diverge"
proof -
  have "wp (\<lambda>e. e = Diverge) (\<lambda>_. False) (run_loop body s)"
    by (rule wp_run_loop [where I = I]) (use assms in \<open>force+\<close>)
  then show ?thesis by (cases "run_loop body s") auto
qed

text \<open>
  C36. When no memory pool can be created the loop starts over before it polls: it spins, accepts
  nobody and never looks at the flag, so that no signal stops the server.
\<close>
theorem listener_spins_without_pool:
  assumes "create_listen_socket os w = (Some sk, w1)" and "apr_threadattr_create os w1 = (APR_SUCCESS, w2)"
    and "\<And>w. fst (apr_pool_create os w) \<noteq> APR_SUCCESS"
  shows "lfd_listen os w = Inl Diverge"
proof -
  have "\<exists>v'. listen_step os sk (False, v) = Inr (Again (False, v'))" for v
    using assms(3) [of v] by (cases "apr_pool_create os v") (simp add: listen_step_def await_client_def)
  then have "\<exists>t'. listen_step os sk t = Inr (Again t') \<and> \<not> fst t'" if "\<not> fst t" for t
    using that by (cases t) fastforce
  then have "run_loop (listen_step os sk) (False, w2) = Inl Diverge"
    by (intro run_loop_diverges [where I = "\<lambda>t. \<not> fst t"]) auto
  with assms(1,2) show ?thesis by (simp add: lfd_listen_def open_listener_def)
qed

end
