(* ===== verification/MainProg.thy ===== *)
theory MainProg
  imports Listen
begin

text \<open>
  main.c: the command line, the disk that the kernel serves, the signals and the life of the
  server from start to shutdown.
\<close>

section \<open>What the program asks of its host besides\<close>

text \<open>
  \<open>apr_getopt_long argv k\<close> is the \<open>k\<close>th call for the given arguments: its status, the option
  character and the argument of the option. A file of the host is an opaque handle, \<open>None\<close> the null
  pointer; \<open>apr_file_seek\<close> gives the offset it ends at. \<open>apr_signal\<close> installs \<open>sig_func\<close> or, when told
  so, ignores the signal.
\<close>

type_synonym host_file = "nat option"

record 'w host = "'w daemon" +
  apr_app_initialize :: "'w \<Rightarrow> int \<times> 'w"
  apr_getopt_long :: "string list \<Rightarrow> nat \<Rightarrow> int \<times> char \<times> cstr"
  apr_atomic_init :: "'w \<Rightarrow> int \<times> 'w"
  apr_signal :: "int \<Rightarrow> bool \<Rightarrow> 'w \<Rightarrow> 'w"
  apr_file_open :: "cstr \<Rightarrow> flags \<Rightarrow> flags \<Rightarrow> 'w \<Rightarrow> int \<times> host_file \<times> 'w"
  apr_file_seek :: "host_file \<Rightarrow> int \<Rightarrow> int \<Rightarrow> 'w \<Rightarrow> int \<times> int \<times> 'w"
  apr_file_close :: "host_file \<Rightarrow> 'w \<Rightarrow> int \<times> 'w"
  lkl_env_init :: "int \<Rightarrow> 'w \<Rightarrow> int \<times> 'w"
  lkl_disk_add_disk :: "host_file \<Rightarrow> int \<Rightarrow> 'w \<Rightarrow> 32 word \<times> 'w"
  lkl_mount_dev :: "32 word \<Rightarrow> cstr \<Rightarrow> flags \<Rightarrow> 'w \<Rightarrow> int \<times> string \<times> 'w"
  lkl_sys_chdir :: "string \<Rightarrow> 'w \<Rightarrow> int \<times> 'w"
  lkl_sys_chroot :: "string \<Rightarrow> 'w \<Rightarrow> int \<times> 'w"
  lkl_sys_umount :: "string \<Rightarrow> int \<Rightarrow> 'w \<Rightarrow> int \<times> 'w"
  lkl_sys_halt :: "'w \<Rightarrow> 'w"

definition sig_func :: "('w, 'z) daemon_scheme \<Rightarrow> int \<Rightarrow> 'w \<Rightarrow> 'w" where
  "sig_func os sigid w = apr_atomic_set32 os 1 w"

section \<open>The command line\<close>

text \<open>The variables of main.c that an option sets, and the configuration.\<close>

record options =
  disk_image :: cstr
  fs_type :: cstr
  ro :: int
  settings :: lfd_config

definition default_options :: "lfd_config \<Rightarrow> options" where
  "default_options cfg = \<lparr>disk_image = Some ''disk'', fs_type = None, ro = 0, settings = cfg\<rparr>"

text \<open>
  C's \<open>atoi\<close>: white space, a sign, digits; glibc reads a \<open>long\<close>, at its bounds when the number is
  outside them, and narrows it to \<open>int\<close>.
\<close>

definition c_isspace :: "char \<Rightarrow> bool" where
  "c_isspace c \<longleftrightarrow> (of_char c :: nat) = 32 \<or> 9 \<le> (of_char c :: nat) \<and> (of_char c :: nat) \<le> 13"

definition c_atoi :: "string \<Rightarrow> int" where
  "c_atoi s =
     (let s = dropWhile c_isspace s;
          neg = (s \<noteq> [] \<and> hd s = CHR ''-'');
          s = (if s \<noteq> [] \<and> hd s \<in> {CHR ''-'', CHR ''+''} then tl s else s);
          v = int (dec_value (takeWhile is_digit s))
      in to_int32 (max (- (2 ^ 63)) (min (2 ^ 63 - 1) (if neg then - v else v))))"

definition opt_option :: "(string \<times> char \<times> bool \<times> string) list" where
  "opt_option =
     [(''read-only'', CHR ''r'', False, ''read-only mode''),
      (''fs-type'', CHR ''t'', True, ''filesystem type (ext3, etc.)''),
      (''filename'', CHR ''f'', True, ''path to disk (image) to use''),
      (''port'', CHR ''p'', True, ''port to listen on''),
      (''debug'', CHR ''d'', True, ''debug level''),
      (''help'', CHR ''h'', False, ''display this help and exit'')]"

definition show_help :: "string \<Rightarrow> 'a res" where
  "show_help name = Inl (Process_Exit 0)"

text \<open>What one option sets. \<open>atoi\<close> reads its argument, so that it must not be null.\<close>

definition apply_option :: "string list \<Rightarrow> char \<Rightarrow> cstr \<Rightarrow> options \<Rightarrow> options res" where
  "apply_option argv optch optarg opts =
     (if optch = CHR ''r'' then Inr (opts\<lparr>ro := 1\<rparr>)
      else if optch = CHR ''t'' then Inr (opts\<lparr>fs_type := optarg\<rparr>)
      else if optch = CHR ''f'' then Inr (opts\<lparr>disk_image := optarg\<rparr>)
      else if optch = CHR ''p'' then
        (case optarg of
           None \<Rightarrow> Inl Null_Deref
         | Some s \<Rightarrow> Inr (opts\<lparr>settings := (settings opts)
             \<lparr>lfd_config_listen_port := c_atoi s, lfd_config_data_port := 0\<rparr>\<rparr>))
      else if optch = CHR ''d'' then
        (case optarg of
           None \<Rightarrow> Inl Null_Deref
         | Some s \<Rightarrow> Inr (opts\<lparr>settings := (settings opts)\<lparr>lfd_config_debug := c_atoi s\<rparr>\<rparr>))
      else if optch = CHR ''h'' then show_help (argv ! 0)
      else Inr opts)"

definition parse_command_line ::
    "('w, 'z) host_scheme \<Rightarrow> string list \<Rightarrow> options \<Rightarrow> (int \<times> options) res" where
  "parse_command_line os argv opts =
     bnd (run_loop (\<lambda>(k, opts).
            case apr_getopt_long os argv k of
              (rv, optch, optarg) \<Rightarrow>
                if rv \<noteq> APR_SUCCESS then Inr (Done (rv, opts))
                else bnd (apply_option argv optch optarg opts) (\<lambda>opts. Inr (Again (k + 1, opts))))
          (0, opts)) (\<lambda>(rv, opts).
       Inr (if rv \<noteq> APR_EOF then - 1 else 0, opts))"

section \<open>The disk\<close>

definition APR_END :: int where "APR_END = 2"

text \<open>\<open>disk_file\<close> and \<open>devno\<close> are variables of main.c, handed out besides the result.\<close>

definition lkl_add_disk ::
    "('w, 'z) host_scheme \<Rightarrow> options \<Rightarrow> 'w \<Rightarrow> int \<times> host_file \<times> 32 word \<times> 'w" where
  "lkl_add_disk os opts w =
     (case apr_file_open os (disk_image opts)
         (APR_READ OR (if ro opts \<noteq> 0 then 0 else APR_WRITE) OR APR_BINARY) APR_OS_DEFAULT w of
        (rc, disk_file, w) \<Rightarrow>
          if rc \<noteq> APR_SUCCESS then (- 1, disk_file, 0, w)
          else
            case apr_file_seek os disk_file APR_END 0 w of
              (rc, off, w) \<Rightarrow>
                if rc \<noteq> APR_SUCCESS then (- 1, disk_file, 0, w)
                else
                  case lkl_disk_add_disk os disk_file (off sdiv 512) w of
                    (devno, w) \<Rightarrow>
                      if devno = 0 then (- 1, disk_file, devno, snd (apr_file_close os disk_file w))
                      else (0, disk_file, devno, w))"

text \<open>The chain of conditions that makes the disk the root directory; each needs the one before.\<close>

definition mount_disk :: "('w, 'z) host_scheme \<Rightarrow> options \<Rightarrow> 'w \<Rightarrow> int \<times> host_file \<times> 'w" where
  "mount_disk os opts w =
     (case lkl_add_disk os opts w of
        (rc, disk_file, devno, w) \<Rightarrow>
          if rc < 0 then (rc, disk_file, w)
          else
            case lkl_mount_dev os devno (fs_type opts) 0 w of
              (rc, mount_point, w) \<Rightarrow>
                if rc < 0 then (rc, disk_file, w)
                else
                  case lkl_sys_chdir os mount_point w of
                    (rc, w) \<Rightarrow>
                      if rc < 0 then (rc, disk_file, w)
                      else case lkl_sys_chroot os ''.'' w of (rc, w) \<Rightarrow> (rc, disk_file, w))"

section \<open>From start to shutdown\<close>

definition SIGHUP :: int where "SIGHUP = 1"
definition SIGINT :: int where "SIGINT = 2"
definition SIGKILL :: int where "SIGKILL = 9"
definition SIGPIPE :: int where "SIGPIPE = 13"
definition SIGTERM :: int where "SIGTERM = 15"

definition install_signals :: "('w, 'z) host_scheme \<Rightarrow> 'w \<Rightarrow> 'w" where
  "install_signals os w =
     (let w = apr_signal os SIGTERM False w; w = apr_signal os SIGKILL False w;
          w = apr_signal os SIGHUP False w; w = apr_signal os SIGINT False w
      in apr_signal os SIGPIPE True w)"

text \<open>
  Up to the call of \<open>lfd_listen\<close>: an exit status, or the options and the handle of the disk that is now
  the root directory.
\<close>

definition start_up ::
    "('w, 'z) host_scheme \<Rightarrow> string list \<Rightarrow> 'w \<Rightarrow> ((int + options \<times> host_file) \<times> 'w) res" where
  "start_up os argv w =
     (case apr_app_initialize os w of (rc, w) \<Rightarrow>
      if rc \<noteq> APR_SUCCESS then Inr (Inl 1, w) else
      case apr_pool_create os w of (rc, w) \<Rightarrow>
      if rc \<noteq> APR_SUCCESS then Inr (Inl 2, w) else
      bnd (parse_command_line os argv (default_options (config os))) (\<lambda>(rc, opts).
      if rc \<noteq> 0 then Inr (Inl 3, w) else
      case lfd_config_load w of (rc, w) \<Rightarrow>
      if rc \<noteq> APR_SUCCESS then Inr (Inl 4, w) else
      let w = snd (apr_atomic_init os w);
          w = apr_atomic_set32 os 0 w;
          w = install_signals os w
      in case lkl_env_init os (16 * 1024 * 1024) w of (rc, w) \<Rightarrow>
      if rc \<noteq> 0 then Inr (Inl (- 1), w) else
      case mount_disk os opts w of (rc, disk_file, w) \<Rightarrow>
      if rc < 0 then
        let w = lkl_sys_halt os w
        in Inr (Inl (- 1), if disk_file \<noteq> None then snd (apr_file_close os disk_file w) else w)
      else Inr (Inr (opts, disk_file), w)))"

text \<open>The result is the exit status of the process.\<close>

definition main :: "('w, 'z) host_scheme \<Rightarrow> string list \<Rightarrow> 'w \<Rightarrow> (int \<times> 'w) res" where
  "main os argv w =
     bnd (start_up os argv w) (\<lambda>(started, w).
       case started of
         Inl status \<Rightarrow> Inr (status, w)
       | Inr (opts, disk_file) \<Rightarrow>
           bnd (lfd_listen (os\<lparr>config := settings opts\<rparr>) w) (\<lambda>w.
             let w = snd (lkl_sys_umount os ''/'' 0 w);
                 w = lkl_sys_halt os w
             in Inr (0, snd (apr_file_close os disk_file w))))"

section \<open>The command line sets the port\<close>

lemma dec_nat_nonempty: "dec_nat n \<noteq> []"
  by (subst dec_nat.simps) auto

lemma atoi_dec_nat:
  assumes "n < 2 ^ 31"
  shows "c_atoi (dec_nat n) = int n"
proof -
  have d: "\<forall>c \<in> set (dec_nat n). is_digit c" by (auto dest: dec_nat_digits)
  obtain c cs where cs: "dec_nat n = c # cs" using dec_nat_nonempty [of n] by (cases "dec_nat n") auto
  then have "is_digit c" using d by simp
  then have c: "\<not> c_isspace c" "c \<noteq> CHR ''-''" "c \<noteq> CHR ''+''"
    by (auto simp: is_digit_def c_isspace_def)
  then have "dropWhile c_isspace (dec_nat n) = dec_nat n" "hd (dec_nat n) = c" using cs by simp_all
  moreover have "dec_value (takeWhile is_digit (dec_nat n)) = n"
    by (simp only: takeWhile_eq_all_conv [THEN iffD2, OF d] dec_value_dec_nat)
  moreover have "int n < 2 ^ 31" using assms by simp
  ultimately show ?thesis
    using c by (simp add: c_atoi_def Let_def to_int32_id)
qed

text \<open>
  The option \<open>-p\<close> with a number below 2 ^ 31 makes that number the control port and turns the
  fixed data port off.
\<close>
theorem port_option_sets_port:
  assumes "apr_getopt_long os argv 0 = (APR_SUCCESS, CHR ''p'', Some (dec_nat n))"
    and "fst (apr_getopt_long os argv 1) = APR_EOF" and "n < 2 ^ 31"
  shows "parse_command_line os argv opts = Inr (0, opts\<lparr>settings := (settings opts)
    \<lparr>lfd_config_listen_port := int n, lfd_config_data_port := 0\<rparr>\<rparr>)"
proof -
  obtain c a where "apr_getopt_long os argv 1 = (APR_EOF, c, a)"
    using assms(2) by (cases "apr_getopt_long os argv 1") auto
  with assms(1) show ?thesis
    by (simp add: parse_command_line_def run_loop_Again run_loop_Done apply_option_def
        atoi_dec_nat [OF assms(3)])
qed

section \<open>The life of the process\<close>

lemma start_up_status:
  "start_up os argv w = Inr (Inl code, w') \<Longrightarrow> code \<in> {1, 2, 3, - 1}"
  by (auto simp: start_up_def lfd_config_load_def Let_def bnd_eq_Inr split: prod.splits if_splits)

lemma start_up_options:
  "start_up os argv w = Inr (Inr (opts, disk_file), w') \<Longrightarrow>
    parse_command_line os argv (default_options (config os)) = Inr (0, opts)"
  by (auto simp: start_up_def lfd_config_load_def Let_def bnd_eq_Inr split: prod.splits if_splits)

lemma start_up_returns:
  "parse_command_line os argv (default_options (config os)) = Inr r \<Longrightarrow>
    \<exists>r' w'. start_up os argv w = Inr (r', w')"
  by (auto simp: start_up_def lfd_config_load_def Let_def bnd_def split: prod.splits sum.splits)

text \<open>
  C26. The process ends: after a command line that can be read, and with a shutdown signal that comes nearer
  with every poll and with every failure to create a memory pool, \<open>main\<close> returns one of its statuses, 0
  when it has served and shut down.
\<close>
theorem server_returns:
  assumes "parse_command_line os argv (default_options (config os)) = Inr r"
    and "signalled os ticks" and "accept_doc os"
  shows "\<exists>code w'. main os argv w = Inr (code, w') \<and> code \<in> {0, 1, 2, 3, - 1}"
proof -
  have "\<exists>v'. lfd_listen (os\<lparr>config := cfg\<rparr>) v = Inr v'" for cfg v
    by (rule listener_returns [where ticks = ticks])
      (use assms(2,3) in \<open>simp_all add: signalled_def accept_doc_def\<close>)
  moreover obtain r' v where start: "start_up os argv w = Inr (r', v)"
    using start_up_returns [OF assms(1)] by blast
  ultimately show ?thesis
  proof (cases r')
    case (Inl code)
    with start start_up_status [of os argv w code v] show ?thesis by (simp add: main_def)
  next
    case (Inr s)
    then obtain opts disk_file where s: "r' = Inr (opts, disk_file)" by (cases s) auto
    obtain v' where "lfd_listen (os\<lparr>config := settings opts\<rparr>) v = Inr v'"
      using \<open>\<And>cfg v. \<exists>v'. lfd_listen (os\<lparr>config := cfg\<rparr>) v = Inr v'\<close> by blast
    with start show ?thesis by (simp add: main_def s Let_def)
  qed
qed

text \<open>
  When \<open>main\<close> returns 0 it has started up with what the command line says, the accept loop has ended, and
  after it the file system was unmounted, then the kernel halted, then the disk closed.
\<close>
theorem clean_exit_unmounts:
  assumes "main os argv w = Inr (0, w')"
  shows "\<exists>opts disk_file v1 v2. start_up os argv w = Inr (Inr (opts, disk_file), v1)
    \<and> lfd_listen (os\<lparr>config := settings opts\<rparr>) v1 = Inr v2
    \<and> w' = snd (apr_file_close os disk_file (lkl_sys_halt os (snd (lkl_sys_umount os ''/'' 0 v2))))"
proof -
  from assms obtain r v where r: "start_up os argv w = Inr (r, v)" by (auto simp: main_def bnd_eq_Inr)
  show ?thesis
  proof (cases r)
    case (Inl code)
    with assms r start_up_status [of os argv w code v] show ?thesis by (simp add: main_def)
  next
    case (Inr s)
    with assms r show ?thesis by (cases s) (auto simp: main_def Let_def bnd_eq_Inr)
  qed
qed

text \<open>
  When the kernel does not take the disk, its file is closed twice: by \<open>lkl_add_disk\<close> and by
  \<open>main\<close>, which still holds the handle.
\<close>
theorem refused_disk_closed_twice:
  assumes "apr_app_initialize os w = (0, w1)" and "apr_pool_create os w1 = (0, w2)"
    and "parse_command_line os argv (default_options (config os)) = Inr (0, opts)"
    and "lkl_env_init os (16 * 1024 * 1024) (install_signals os (apr_atomic_set32 os 0
      (snd (apr_atomic_init os w2)))) = (0, w3)"
    and "apr_file_open os (disk_image opts)
      (APR_READ OR (if ro opts \<noteq> 0 then 0 else APR_WRITE) OR APR_BINARY) APR_OS_DEFAULT w3 = (0, Some f, w4)"
    and "apr_file_seek os (Some f) APR_END 0 w4 = (0, off, w5)"
    and "lkl_disk_add_disk os (Some f) (off sdiv 512) w5 = (0, w6)"
  shows "main os argv w = Inr (- 1, snd (apr_file_close os (Some f)
    (lkl_sys_halt os (snd (apr_file_close os (Some f) w6)))))"
  using assms
  by (simp add: main_def start_up_def lfd_config_load_def mount_disk_def lkl_add_disk_def Let_def)

end
