(* ===== verification/WorkerProps.thy ===== *)
theory WorkerProps
  imports Worker
begin

text \<open>
  The contract of a whole session: what the command loop keeps, the states it goes through, the
  rename protocol and how a session ends.
\<close>

section \<open>The contract of one iteration\<close>

text \<open>
  After an iteration the session is still well-formed, and \<open>rnfrto\<close> is only set when \<open>temp_name\<close>
  holds the path that the last reply, 350, was about.
\<close>

definition rename_pending :: "'w loop_vars \<Rightarrow> bool" where
  "rename_pending = (\<lambda>(rnfrto, temp_name, st). rnfrto \<longrightarrow>
     temp_name \<noteq> None \<and> replies st \<noteq> [] \<and> reply_code (last (replies st)) = 350)"

definition step_ok :: "'w st \<Rightarrow> ('w loop_vars, int \<times> 'w st) ctl \<Rightarrow> bool" where
  "step_ok st c = (case c of
       Again s' \<Rightarrow> served st (snd (snd s')) \<and> rename_pending s'
     | Done (rc, st') \<Rightarrow> served st st')"

lemma step_ok_test: "served st st' \<Longrightarrow> wp E (step_ok st) (loop_test False temp (rc, st'))"
  by (simp add: loop_test_def step_ok_def rename_pending_def)

lemma run_ok:
  assumes "wp list_faults (\<lambda>(rc, st'). served st st') m"
  shows "wp list_faults (step_ok st) (bnd m (loop_test False temp))"
  unfolding wp_bnd by (rule wp_mono [OF assms]) (auto intro: step_ok_test)

lemma run_ok_nobug:
  assumes "wp nobug (\<lambda>(rc, st'). served st st') m"
  shows "wp list_faults (step_ok st) (bnd m (loop_test False temp))"
  by (rule run_ok, rule wp_mono [OF assms]) (auto intro: nobug_list_faults)

lemma wp_say: "wf_sess st \<Longrightarrow> wp nobug (\<lambda>(rc, st'). served st st') (lfd_cmdio_write os cmd msg args st)"
  by (auto simp: sess_defs intro!: wp_write)

lemma wp_rnfr_pending:
  assumes "wf_sess st"
  shows "wp nobug (\<lambda>(rc, temp, st'). served st st' \<and> rename_pending (temp \<noteq> None, temp, st'))
    (handle_rnfr os st)"
  using assms
  by (auto simp: handle_rnfr_def rename_pending_def sess_defs FTP_RNFROK_def Let_def
      split: option.splits prod.splits intro!: wp_write)

lemma wp_ifI: "(b \<Longrightarrow> wp E Q m) \<Longrightarrow> (\<not> b \<Longrightarrow> wp E Q n) \<Longrightarrow> wp E Q (if b then m else n)"
  by simp

lemma wp_quit_branch:
  assumes "wf_sess st"
  shows "wp list_faults (step_ok st) (bnd (handle_quit os st) (\<lambda>r. Inr (Done r)))"
  unfolding wp_bnd
  by (rule wp_mono [OF wp_handle_quit [OF assms]]) (auto simp: step_ok_def intro: nobug_list_faults)

lemma wp_rnfr_branch:
  assumes "wf_sess st"
  shows "wp list_faults (step_ok st) (bnd (handle_rnfr os st) (\<lambda>(rc, temp, st').
    loop_test (rc = APR_SUCCESS \<and> temp \<noteq> None) temp (rc, st')))"
  unfolding wp_bnd
  by (rule wp_mono [OF wp_rnfr_pending [OF assms]])
    (auto simp: step_ok_def loop_test_def rename_pending_def intro: nobug_list_faults)

lemma wp_default_branch:
  assumes "wf_sess st"
  shows "wp list_faults (step_ok st) (bnd (lfd_cmdio_write os cmd msg args st)
    (\<lambda>(_, st'). Inr (Again (False, temp, st'))))"
  unfolding wp_bnd
  by (rule wp_mono [OF wp_say [OF assms]])
    (auto simp: step_ok_def rename_pending_def intro: nobug_list_faults)

lemmas status_served = syst.opr_served user.opr_served pass.opr_served abor.opr_served
  type'.opr_served feat.opr_served site.opr_served
lemmas file_served = rmd.opr_served mkd.opr_served pwd.opr_served cwd.opr_served cdup.opr_served
  dele.opr_served bad_rnto.opr_served rnto.opr_served
lemmas connection_served = pasv.opr_served port.opr_served
lemmas transfer_served = retr.opr_served stor.opr_served appe.opr_served stou.opr_served

lemmas plain_served = status_served [OF TrueI] file_served [OF TrueI] connection_served [OF TrueI]

lemma wp_dispatch:
  assumes "env_doc os" and "wf_sess st"
  shows "wp list_faults (step_ok st) (dispatch os temp st)"
  unfolding dispatch_def Let_def
  by ((rule wp_ifI, (rule run_ok_nobug, (rule plain_served [OF assms(2)]
          | rule transfer_served [OF assms] | rule wp_say [OF assms(2)])
        | rule run_ok, rule list'.opr_served [OF assms]
        | rule wp_quit_branch [OF assms(2)] | rule wp_rnfr_branch [OF assms(2)]))+,
      rule wp_default_branch [OF assms(2)])

section \<open>Reading a command keeps the contract\<close>

lemma strtok_arg:
  assumes "strtok_doc tok" and "tok seps s = Some (sk, t, rest)"
  shows "t \<noteq> [] \<and> set t \<subseteq> set s \<and> set rest \<subseteq> set s"
  by (rule strtok_doc_cases [OF assms(1), where seps = seps and s = s]) (use assms(2) in auto)

lemma wp_parse_command:
  assumes "strtok_doc (apr_strtok os)"
  shows "wp (\<lambda>e. e = Out_Of_Bounds) (\<lambda>(rc, cmd, arg). wf_arg arg) (parse_command os buffer)"
proof (cases "c_string buffer")
  case (Inl e)
  then show ?thesis by (simp add: parse_command_def c_string_def split: if_splits)
next
  case (Inr line)
  with c_string_no_NUL [OF Inr] show ?thesis
    by (auto simp: parse_command_def wf_arg_def split: option.splits dest!: strtok_arg [OF assms])
qed

lemma wp_get_cmd:
  assumes "strtok_doc (apr_strtok os)" and "wf_sess st"
  shows "wp nobug (\<lambda>(rc, st'). served st st') (lfd_cmdio_get_cmd_and_arg os st)"
proof -
  obtain rc bytes w where r: "apr_socket_recv os (comm_sock st) cmd_input_buffer_len (world st) = (rc, bytes, w)"
    by (cases "apr_socket_recv os (comm_sock st) cmd_input_buffer_len (world st)") auto
  have "wp nobug (\<lambda>(rc, cmd, arg). wf_arg arg) (parse_command os buffer)" for buffer
    by (rule wp_mono [OF wp_parse_command [OF assms(1)]]) auto
  note parse = this [of "bytes @ replicate (cmd_input_buffer_len - length bytes) NUL"]
  show ?thesis
    using assms(2)
    by (auto simp: lfd_cmdio_get_cmd_and_arg_def r sess_defs Let_def intro!: wp_mono [OF parse])
qed

lemma served_wf: "served st st' \<Longrightarrow> wf_sess st'"
  by (simp add: served_def)

lemma step_ok_trans: "served st st1 \<Longrightarrow> step_ok st1 c \<Longrightarrow> step_ok st c"
  by (auto simp: step_ok_def split: ctl.splits intro: served_trans)

lemma wp_step:
  assumes "env_doc os" and "strtok_doc (apr_strtok os)" and "wf_sess st"
  shows "wp list_faults (step_ok st) (protocol_step os (rnfrto, temp, st))"
  unfolding protocol_step_def prod.case wp_bnd
proof (rule wp_mono [OF wp_get_cmd [OF assms(2)]], goal_cases)
  case 1
  show ?case using assms(3) by (simp add: sess_defs)
next
  case (3 r)
  obtain rc st1 where r: "r = (rc, st1)" by (cases r)
  with 3 have s: "served st st1" by simp
  note plain = plain_served [OF served_wf [OF s]]
  have ok: "wp list_faults (step_ok st) (bnd m (loop_test False temp))"
    if "wp nobug (\<lambda>(rc, st'). served st1 st') m" for m
    by (rule wp_mono [OF run_ok_nobug [OF that]]) (auto intro: step_ok_trans [OF s])
  have rnto: "wp list_faults (step_ok st) (bnd (handle_rnto os temp st1) (loop_test False temp))"
    by (rule ok) (rule plain)
  have bad: "wp list_faults (step_ok st) (bnd (handle_bad_rnto os st1) (loop_test False temp))"
    by (rule ok) (rule plain)
  have other: "wp list_faults (step_ok st) (dispatch os temp st1)"
    by (rule wp_mono [OF wp_dispatch [OF assms(1) served_wf [OF s]]])
      (auto intro: step_ok_trans [OF s])
  have stop: "step_ok st (Done (rc, st1))" using s by (simp add: step_ok_def)
  show ?case using rnto bad other stop by (simp add: r)
qed (rule nobug_list_faults)

section \<open>Whole sessions\<close>

lemma session_loop:
  assumes "env_doc os" and "strtok_doc (apr_strtok os)" and "wf_sess st"
  shows "wp list_faults (\<lambda>(rc, st'). served st st') (ftp_protocol_loop os st)"
    unfolding ftp_protocol_loop_def
proof (rule wp_run_loop [where I = "\<lambda>(rnfrto, temp, st'). served st st'"], goal_cases)
  case (3 t)
  obtain rnfrto temp st1 where t: "t = (rnfrto, temp, st1)" by (cases t)
  with 3 have s: "served st st1" by simp
  show ?case
    unfolding t
    by (rule wp_mono [OF wp_step [OF assms(1,2) served_wf [OF s]]])
      (auto simp: step_ok_def split: ctl.splits intro: served_trans [OF s])
qed (use assms(3) in \<open>simp_all add: served_def list_faults_def\<close>)

text \<open>
  C1. The command loop keeps the invariant of a session, whatever the client sends. Among the ends
  that take the whole process with them, \<open>bug\<close>, \<open>exit\<close> and the end of the thread, a session can
  only reach the one of LIST without a data connection.
\<close>
theorem session_keeps_invariant:
  assumes "env_doc os" and "strtok_doc (apr_strtok os)" and "wf_sess st"
  shows "wp (\<lambda>e. e \<in> {Null_Deref, Out_Of_Bounds, Bad_Format, Uninitialised, Div_By_Zero, Diverge}
        \<or> e = no_connection)
      (\<lambda>(rc, st'). wf_sess st' \<and> comm_sock st' = comm_sock st \<and> (\<exists>new. replies st' = replies st @ new))
    (ftp_protocol_loop os st)"
  by (rule wp_mono [OF session_loop [OF assms]]) (auto simp: list_faults_def served_def elim: nobug.elims)

inductive reachable :: "('w, 'z) server_scheme \<Rightarrow> 'w st \<Rightarrow> 'w loop_vars \<Rightarrow> bool"
  for os st where
  start: "reachable os st (False, None, st)"
| iterate: "reachable os st s \<Longrightarrow> protocol_step os s = Inr (Again s') \<Longrightarrow> reachable os st s'"

inductive_cases reachableE: "reachable os st s"

lemma reachable_served:
  assumes "reachable os st s" and "env_doc os" and "strtok_doc (apr_strtok os)" and "wf_sess st"
  shows "served st (snd (snd s)) \<and> rename_pending s"
  using assms(1)
proof induction
  case start
  with assms(4) show ?case by (simp add: served_def rename_pending_def)
next
  case (iterate s s')
  obtain rnfrto temp st1 where s: "s = (rnfrto, temp, st1)" by (cases s)
  with iterate have st1: "served st st1" by simp
  from wp_step [OF assms(2,3) served_wf [OF st1], of rnfrto temp] iterate st1
  show ?case by (auto simp: s step_ok_def intro: served_trans)
qed

text \<open>
  Whenever the loop waits for the new name of a RNFR, the last reply was 350 and the old name
  is known, so that RNTO renames the file the client was told about.
\<close>
theorem rename_waits_after_350:
  assumes "reachable os st (True, temp, st')"
    and "env_doc os" and "strtok_doc (apr_strtok os)" and "wf_sess st"
  shows "\<exists>old before text args. temp = Some old \<and> replies st' = before @ [Reply 350 text args]"
  using reachable_served [OF assms] append_butlast_last_id [of "replies st'"]
  by (cases "last (replies st')") (auto simp: rename_pending_def, metis)

lemma loop_ends_reachable:
  "ftp_protocol_loop os st = Inr r \<Longrightarrow> \<exists>s. reachable os st s \<and> protocol_step os s = Inr (Done r)"
proof -
  have "wp (\<lambda>_. True) (\<lambda>r. \<exists>s. reachable os st s \<and> protocol_step os s = Inr (Done r))
    (ftp_protocol_loop os st)"
    unfolding ftp_protocol_loop_def
  proof (rule wp_run_loop [where I = "reachable os st"], goal_cases)
    case (3 t)
    then show ?case
      by (cases "protocol_step os t", simp, case_tac b)
        (auto intro: reachable.iterate simp del: split_paired_Ex)
  qed (simp_all add: reachable.start)
  then show "ftp_protocol_loop os st = Inr r \<Longrightarrow> ?thesis" by simp
qed


text \<open>What a single iteration does, by the command it receives.\<close>

definition receives :: "('w, 'z) server_scheme \<Rightarrow> 'w st \<Rightarrow> string \<Rightarrow> cstr \<Rightarrow> 'w st \<Rightarrow> bool" where
  "receives os st cmd arg st' \<longleftrightarrow>
     lfd_cmdio_get_cmd_and_arg os (st\<lparr>world := apr_pool_clear os (world st)\<rparr>) = Inr (APR_SUCCESS, st')
   \<and> ftp_cmd_str st' = Some cmd \<and> ftp_arg_str st' = arg"

lemma step_receives:
  "receives os st cmd arg st1 \<Longrightarrow> protocol_step os (rnfrto, temp, st) =
     (if lfd_cmdio_cmd_equals os st1 ''RNTO'' then
         if rnfrto then bnd (handle_rnto os temp st1) (loop_test False temp)
         else bnd (handle_bad_rnto os st1) (loop_test rnfrto temp)
       else if rnfrto then bnd (handle_bad_rnto os st1) (loop_test False temp)
       else dispatch os temp st1)"
  by (simp add: protocol_step_def receives_def)

text \<open>
  RNTO without RNFR is answered 503, and so is any other command that follows a RNFR: that
  command is not run, even when it is QUIT, and the loop goes on without a pending rename.
\<close>
theorem bad_sequence_answered:
  assumes "receives os st cmd arg st1"
    and "apr_strnatcasecmp os cmd ''RNTO'' = 0 \<longleftrightarrow> \<not> rnfrto"
    and "lfd_cmdio_write os 503 ''Bad sequence of commands.'' [] st1 = Inr (APR_SUCCESS, st2)"
  shows "protocol_step os (rnfrto, temp, st) = Inr (Again (False, temp, st2))"
  using assms(1,2,3)
  by (auto simp: step_receives [OF assms(1)] receives_def lfd_cmdio_cmd_equals_def handle_bad_rnto_def
      FTP_BADPROT_def loop_test_def)

text \<open>
  \<open>apr_strnatcasecmp\<close> tells two upper-case words apart, and ignores the white space after one.
\<close>

definition upper_word :: "string \<Rightarrow> bool" where
  "upper_word s \<longleftrightarrow> (\<forall>c \<in> set s. c \<in> set ''ABCDEFGHIJKLMNOPQRSTUVWXYZ'')"

definition natcasecmp_doc :: "(string \<Rightarrow> string \<Rightarrow> int) \<Rightarrow> bool" where
  "natcasecmp_doc f \<longleftrightarrow> (\<forall>a b. upper_word a \<and> upper_word b \<longrightarrow>
     (f a b = 0 \<longleftrightarrow> a = b) \<and> (f (a @ CRLF) b = 0 \<longleftrightarrow> a = b))"

lemma cmd_equals_word:
  assumes "natcasecmp_doc (apr_strnatcasecmp os)" and "ftp_cmd_str st \<in> {Some c, Some (c @ CRLF)}"
    and "upper_word c" and "upper_word b"
  shows "lfd_cmdio_cmd_equals os st b \<longleftrightarrow> c = b"
  using assms unfolding lfd_cmdio_cmd_equals_def natcasecmp_doc_def by fastforce

lemma rnfr_iteration:
  assumes "natcasecmp_doc (apr_strnatcasecmp os)"
    and "receives os st ''RNFR'' (Some a) st1" and "get_abs_path (Some a) st1 = Some p"
    and "lkl_sys_newstat os (Some p) (world st1) = (0, info, w)"
    and "filetype_from_mode (st_mode info) \<in> {APR_REG, APR_DIR}"
    and "lfd_cmdio_write os 350 ''Requested file action pending further information.'' []
      (st1\<lparr>world := w\<rparr>) = Inr (APR_SUCCESS, st2)"
  shows "protocol_step os (False, temp, st) = Inr (Again (True, Some p, st2))"
proof -
  have "ftp_arg_str st1 = Some a" using assms(2) by (simp add: receives_def)
  moreover have eq: "lfd_cmdio_cmd_equals os st1 x \<longleftrightarrow> ''RNFR'' = x" if "upper_word x" for x
    by (rule cmd_equals_word [OF assms(1) _ _ that])
      (use assms(2) in \<open>simp_all add: receives_def upper_word_def\<close>)
  ultimately show ?thesis
    using assms(3,5,6) lkl_stat_type [OF assms(4), of APR_FINFO_TYPE]
    by (auto simp: step_receives [OF assms(2)] eq upper_word_def dispatch_def handle_rnfr_def
        fill_out_finfo_def FTP_RNFROK_def loop_test_def Let_def)
qed

text \<open>
  C15. RNFR and RNTO together rename, in the kernel, the file of the first to the name of the
  second, both taken relative to the working directory, and are answered 350 and 250.
\<close>
theorem rename_pair:
  assumes "natcasecmp_doc (apr_strnatcasecmp os)"
    and "receives os st ''RNFR'' (Some a) st1" and "get_abs_path (Some a) st1 = Some p"
    and "lkl_sys_newstat os (Some p) (world st1) = (0, info, w)"
    and "filetype_from_mode (st_mode info) \<in> {APR_REG, APR_DIR}"
    and "lfd_cmdio_write os 350 ''Requested file action pending further information.'' []
      (st1\<lparr>world := w\<rparr>) = Inr (APR_SUCCESS, st2)"
    and "receives os st2 ''RNTO'' (Some b) st3" and "get_abs_path (Some b) st3 = Some q"
    and "lkl_sys_rename os (Some p) (Some q) (world st3) = (0, w')"
    and "lfd_cmdio_write os 250 ''Directory/file was succesfully renamed.'' []
      (st3\<lparr>world := w'\<rparr>) = Inr (APR_SUCCESS, st4)"
  shows "run_loop (protocol_step os) (False, temp, st)
    = run_loop (protocol_step os) (False, Some p, st4)"
proof -
  have arg: "ftp_arg_str st3 = Some b" using assms(7) by (simp add: receives_def)
  have eq: "lfd_cmdio_cmd_equals os st3 ''RNTO''"
    by (subst cmd_equals_word [OF assms(1), where c = "''RNTO''"])
      (use assms(7) in \<open>simp_all add: receives_def upper_word_def\<close>)
  have "protocol_step os (True, Some p, st2) = Inr (Again (False, Some p, st4))"
    using assms(8-10) arg
    by (simp add: step_receives [OF assms(7)] eq handle_rnto_def lkl_file_rename_def FTP_RENAMEOK_def
        loop_test_def)
  with rnfr_iteration [OF assms(1-6), of temp] show ?thesis by (simp add: run_loop_Again)
qed

section \<open>The end of a session\<close>

lemma quit_says_goodbye:
  "wp (\<lambda>_. True) (\<lambda>(rc, st'). rc = APR_SUCCESS
      \<and> (\<exists>before. replies st' = before @ [Reply 221 ''See you later, aligator.'' []]))
    (handle_quit os st)"
  by (auto simp: handle_quit_def lfd_data_sess_destroy_def FTP_GOODBYE_def split: option.splits
      intro!: wp_write)

definition goodbye :: "('w loop_vars, int \<times> 'w st) ctl \<Rightarrow> bool" where
  "goodbye c \<longleftrightarrow> (\<forall>st'. c = Done (APR_SUCCESS, st') \<longrightarrow>
     (\<exists>before. replies st' = before @ [Reply 221 ''See you later, aligator.'' []]))"

lemma goodbye_run: "wp (\<lambda>_. True) goodbye (bnd m (loop_test b temp))"
  by (cases m) (auto simp: loop_test_def goodbye_def)

lemma goodbye_rnfr:
  "wp (\<lambda>_. True) goodbye (bnd m (\<lambda>(rc, temp, st'). loop_test (P rc temp) temp (rc, st')))"
  by (cases m) (auto simp: loop_test_def goodbye_def)

lemma goodbye_default: "wp (\<lambda>_. True) goodbye (bnd m (\<lambda>(_, st'). Inr (Again (b, temp, st'))))"
  by (cases m) (auto simp: goodbye_def)

lemma goodbye_quit: "wp (\<lambda>_. True) goodbye (bnd (handle_quit os st) (\<lambda>r. Inr (Done r)))"
  unfolding wp_bnd by (rule wp_mono [OF quit_says_goodbye]) (auto simp: goodbye_def)

lemma goodbye_dispatch: "wp (\<lambda>_. True) goodbye (dispatch os temp st)"
  unfolding dispatch_def Let_def
  by (intro wp_ifI goodbye_run goodbye_quit goodbye_rnfr goodbye_default)

lemma goodbye_step: "wp (\<lambda>_. True) goodbye (protocol_step os s)"
proof -
  obtain rnfrto temp st where s: "s = (rnfrto, temp, st)" by (cases s)
  show ?thesis
  proof (cases "lfd_cmdio_get_cmd_and_arg os (st\<lparr>world := apr_pool_clear os (world st)\<rparr>)")
    case (Inl e)
    then show ?thesis by (simp add: protocol_step_def s)
  next
    case (Inr r)
    then show ?thesis
      by (cases r) (simp add: protocol_step_def s goodbye_run goodbye_dispatch goodbye_def [of "Done _"]
          del: wp_bnd)
  qed
qed

text \<open>
  The loop returns success only by way of QUIT, and then its last reply was 221.
\<close>
theorem normal_end_is_quit:
  assumes "ftp_protocol_loop os st = Inr (APR_SUCCESS, st')"
  shows "\<exists>before. replies st' = before @ [Reply 221 ''See you later, aligator.'' []]"
proof -
  obtain s where "protocol_step os s = Inr (Done (APR_SUCCESS, st'))"
    using loop_ends_reachable [OF assms] by blast
  with goodbye_step [of os s] show ?thesis by (simp add: goodbye_def)
qed

text \<open>
  C28. However a session ends, short of a fault, its last act is to close the control connection it
  was given: after QUIT, after an error of the connection, and when the greeting could not be sent. A session
  that could not be created is one of the faults, for the way in which that is logged.
\<close>
theorem session_closes_connection:
  assumes "env_doc os" and "strtok_doc (apr_strtok os)"
    and "lfd_worker_protocol_main_impl os sk w = Inr w'"
  shows "\<exists>v. w' = snd (apr_socket_close os sk v)"
proof -
  obtain rc m w1 where c: "lfd_sess_create os sk w = (rc, m, w1)" by (cases "lfd_sess_create os sk w")
  show ?thesis
  proof (cases m)
    case None
    with c assms(3) show ?thesis by (auto simp: lfd_worker_protocol_main_impl_def)
  next
    case (Some st)
    with sess_create_wf [of os sk w rc st w1] c have st: "wf_sess st" "comm_sock st = sk" by auto
    obtain rc1 st1 where g: "emit_greeting os st = Inr (rc1, st1)"
      using assms(3) c Some by (auto simp: lfd_worker_protocol_main_impl_def bnd_eq_Inr)
    have "wp nobug (\<lambda>(rc, st'). served st st') (emit_greeting os st)"
      using wp_say [OF st(1)] st(1) by (auto simp add: emit_greeting_def) (simp add: served_def)
    with g have s: "served st st1" by simp
    obtain rc2 st2 where l: "(if rc1 = APR_SUCCESS then ftp_protocol_loop os st1 else Inr (rc1, st1)) = Inr (rc2, st2)"
      and w': "w' = lfd_sess_destroy os st2"
      using assms(3) c Some g by (auto simp: lfd_worker_protocol_main_impl_def bnd_eq_Inr)
    have "wp (\<lambda>_. True) (\<lambda>(rc, st'). comm_sock st' = comm_sock st1) (ftp_protocol_loop os st1)"
      by (rule wp_mono [OF session_loop [OF assms(1,2) served_wf [OF s]]]) (auto simp: served_def)
    with l s st(2) have "comm_sock st2 = sk" by (auto simp: served_def split: if_splits)
    with w' show ?thesis by (auto simp: lfd_sess_destroy_def)
  qed
qed

end
