(* ===== verification/Conversation.thy ===== *)
theory Conversation
  imports WorkerProps
begin

text \<open>
  A session seen from outside: the abstract conversation of a client that sends words without
  arguments, and that the command loop implements it.
\<close>

section \<open>The abstract conversation\<close>

text \<open>
  What a session without file operations looks like from outside: the reply to each command, for a
  client that sends one upper-case word per line.
\<close>

definition status_words :: "string list" where
  "status_words = [''SYST'', ''USER'', ''PASS'', ''ABOR'', ''TYPE'', ''ALLO'', ''REIN'', ''ACCT'', ''SMNT'',
     ''RNTO'']"

definition file_words :: "string list" where
  "file_words = [''PASV'', ''PORT'', ''RMD'', ''MKD'', ''PWD'', ''CWD'', ''CDUP'', ''RNFR'', ''RETR'', ''STOR'',
     ''DELE'', ''STOU'', ''LIST'', ''FEAT'', ''APPE'', ''SITE'']"

definition answer :: "string \<Rightarrow> reply" where
  "answer c = (let r = \<lambda>code t. Reply code t [] in
     if c = ''USER'' \<or> c = ''PASS'' then r 230 ''Login successful.''
     else if c = ''SYST'' then r 215 ''UNIX Type: L8''
     else if c = ''TYPE'' then r 200 ''TYPE ok''
     else if c = ''ABOR'' then r 225 ''Nothing to abort.''
     else if c = ''ALLO'' then r 202 ''ALLO command ignored.''
     else if c = ''REIN'' then r 502 ''REIN not implemented.''
     else if c = ''ACCT'' then r 502 ''ACCT not implemented.''
     else if c = ''SMNT'' then r 502 ''SMNT not implemented.''
     else if c = ''RNTO'' then r 503 ''Bad sequence of commands.''
     else r 502 ''Command not implemented.'')"

fun conversation :: "string list \<Rightarrow> int \<times> reply list" where
  "conversation [] = (APR_EOF, [])"
| "conversation (c # cs) =
     (if c = ''QUIT'' then (APR_SUCCESS, [Reply 221 ''See you later, aligator.'' []])
      else apsnd (Cons (answer c)) (conversation cs))"

definition short_word :: "string \<Rightarrow> bool" where
  "short_word c \<longleftrightarrow> c \<noteq> [] \<and> length c < 98 \<and> upper_word c"

definition plain_word :: "string \<Rightarrow> bool" where
  "plain_word c \<longleftrightarrow> short_word c \<and> c \<notin> set file_words"

text \<open>A client that sends these lines one at a time and then closes, on a network that works.\<close>

definition client_lines :: "('w, 'z) apr_scheme \<Rightarrow> sock \<Rightarrow> ('w \<Rightarrow> string list) \<Rightarrow> bool" where
  "client_lines os sk todo \<longleftrightarrow>
     (\<forall>w. todo (apr_pool_clear os w) = todo w)
   \<and> (\<forall>w b. fst (apr_socket_send os sk b w) = APR_SUCCESS
        \<and> todo (snd (snd (apr_socket_send os sk b w))) = todo w)
   \<and> (\<forall>w n. todo w = [] \<longrightarrow> fst (snd (apr_socket_recv os sk n w)) = [])
   \<and> (\<forall>w n l ls. todo w = l # ls \<and> length l \<le> n \<longrightarrow>
        fst (apr_socket_recv os sk n w) = APR_SUCCESS \<and> fst (snd (apr_socket_recv os sk n w)) = l
      \<and> todo (snd (snd (apr_socket_recv os sk n w))) = ls)"

lemma upper_words [simp]:
  "upper_word ''PASV''" "upper_word ''SYST''" "upper_word ''USER''" "upper_word ''PASS''"
  "upper_word ''QUIT''" "upper_word ''ABOR''" "upper_word ''PORT''" "upper_word ''RMD''"
  "upper_word ''MKD''" "upper_word ''PWD''" "upper_word ''CWD''" "upper_word ''CDUP''"
  "upper_word ''RNFR''" "upper_word ''TYPE''" "upper_word ''RETR''" "upper_word ''STOR''"
  "upper_word ''DELE''" "upper_word ''STOU''" "upper_word ''LIST''" "upper_word ''FEAT''"
  "upper_word ''APPE''" "upper_word ''SITE''" "upper_word ''ALLO''" "upper_word ''REIN''"
  "upper_word ''ACCT''" "upper_word ''SMNT''" "upper_word ''RNTO''"
  by (simp_all add: upper_word_def)

lemma client_linesD:
  assumes "client_lines os sk todo"
  shows "todo (apr_pool_clear os w) = todo w"
    and "fst (apr_socket_send os sk b w) = APR_SUCCESS"
    and "todo (snd (snd (apr_socket_send os sk b w))) = todo w"
    and "todo w = [] \<Longrightarrow> fst (snd (apr_socket_recv os sk n w)) = []"
    and "todo w = l # ls \<Longrightarrow> length l \<le> n \<Longrightarrow> fst (apr_socket_recv os sk n w) = APR_SUCCESS
      \<and> fst (snd (apr_socket_recv os sk n w)) = l \<and> todo (snd (snd (apr_socket_recv os sk n w))) = ls"
  using assms unfolding client_lines_def by blast+

lemma plain_write:
  assumes "client_lines os (comm_sock st) todo" and "printf_doc (apr_pvsprintf os)"
    and "0 \<le> cmd" and "cmd < 1000" and "CHR ''%'' \<notin> set msg"
  shows "\<exists>w'. lfd_cmdio_write os cmd msg args st
      = Inr (APR_SUCCESS, st\<lparr>world := w', replies := replies st @ [Reply cmd msg args]\<rparr>)
    \<and> todo w' = todo (world st)"
  unfolding write_plain [OF assms(2-5)]
  by (auto simp: case_prod_unfold client_linesD [OF assms(1)])

lemma word_line:
  assumes "short_word c"
  shows "CHR '' '' \<notin> set (c @ CRLF)" "NUL \<notin> set (c @ CRLF)" "c @ CRLF \<noteq> []" "length (c @ CRLF) < 100"
proof -
  have "CHR '' '' \<notin> set c" "NUL \<notin> set c"
    using assms by (auto simp: short_word_def upper_word_def NUL_def)
  then show "CHR '' '' \<notin> set (c @ CRLF)" "NUL \<notin> set (c @ CRLF)" "c @ CRLF \<noteq> []" "length (c @ CRLF) < 100"
    using assms by (auto simp: short_word_def NUL_def CR_def LF_def)
qed

text \<open>The iteration that receives a line, by what the parser makes of the line.\<close>

lemma receives_line:
  assumes "client_lines os (comm_sock st) todo" and "todo (world st) = l # ls" and "l \<noteq> []"
    and "NUL \<notin> set l" and "length l < 100" and "apr_strtok os '' '' l = Some (sk, c, rest)"
    and "a = (case apr_strtok os CRLF rest of None \<Rightarrow> None | Some (_, a, _) \<Rightarrow> Some a)"
  shows "\<exists>st1. receives os st c a st1 \<and> todo (world st1) = ls
    \<and> st1 = st\<lparr>world := world st1, cmd_input_buffer := cmd_input_buffer st1,
        ftp_cmd_str := Some c, ftp_arg_str := a\<rparr>"
proof -
  let ?w = "apr_pool_clear os (world st)"
  let ?r = "apr_socket_recv os (comm_sock st) cmd_input_buffer_len ?w"
  have "todo ?w = l # ls" using assms(2) client_linesD(1) [OF assms(1)] by simp
  then have r: "fst ?r = APR_SUCCESS \<and> fst (snd ?r) = l \<and> todo (snd (snd ?r)) = ls"
    using client_linesD(5) [OF assms(1)] assms(5) by (simp only: cmd_input_buffer_len_def less_imp_le_nat)
  obtain k where k: "cmd_input_buffer_len - length l = Suc k"
    using assms(5) by (metis Suc_diff_Suc cmd_input_buffer_len_def)
  have "c_string (l @ replicate (Suc k) NUL) = Inr l"
    using c_string_append [OF assms(4), of "replicate k NUL"] by simp
  then have "parse_command os (l @ replicate (cmd_input_buffer_len - length l) NUL)
      = Inr (APR_SUCCESS, Some c, a)"
    unfolding parse_command_def FTP_ENDCOMMAND_SEQUENCE_def k assms(7)
    by (simp only: bnd_Inr assms(6) option.case prod.case)
  moreover obtain w' where "?r = (APR_SUCCESS, l, w')" "todo w' = ls"
    using r by (cases ?r) auto
  ultimately show ?thesis
    using assms(3)
    by (auto simp: receives_def lfd_cmdio_get_cmd_and_arg_def Let_def simp del: append_assoc append.simps)
qed

lemma receives_word:
  assumes "client_lines os (comm_sock st) todo" and "strtok_doc (apr_strtok os)"
    and "todo (world st) = (c @ CRLF) # ls" and "short_word c"
  shows "\<exists>st1. receives os st (c @ CRLF) None st1 \<and> todo (world st1) = ls
    \<and> st1 = st\<lparr>world := world st1, cmd_input_buffer := cmd_input_buffer st1,
        ftp_cmd_str := Some (c @ CRLF), ftp_arg_str := None\<rparr>"
proof (rule receives_line [OF assms(1,3)])
  note l = word_line [OF assms(4)]
  show "c @ CRLF \<noteq> []" "NUL \<notin> set (c @ CRLF)" "length (c @ CRLF) < 100" by (fact l)+
  show "apr_strtok os '' '' (c @ CRLF) = Some ([], c @ CRLF, [])"
    using strtok_docD_last [OF assms(2), of "[]" "'' ''" "c @ CRLF"] l(1,3) by auto
  show "None = (case apr_strtok os CRLF [] of None \<Rightarrow> None | Some (_, a, _) \<Rightarrow> Some a)"
    by (simp add: strtok_docD_none [OF assms(2)])
qed

lemma receives_arg:
  assumes "client_lines os (comm_sock st) todo" and "strtok_doc (apr_strtok os)"
    and "todo (world st) = (c @ '' '' @ a @ CRLF) # ls" and "c \<noteq> []" and "CHR '' '' \<notin> set c" and "a \<noteq> []"
    and "CR \<notin> set a" and "LF \<notin> set a" and "NUL \<notin> set (c @ a)" and "length c + length a < 97"
  shows "\<exists>st1. receives os st c (Some a) st1 \<and> todo (world st1) = ls
    \<and> st1 = st\<lparr>world := world st1, cmd_input_buffer := cmd_input_buffer st1,
        ftp_cmd_str := Some c, ftp_arg_str := Some a\<rparr>"
proof (rule receives_line [OF assms(1,3)])
  show "c @ '' '' @ a @ CRLF \<noteq> []" "NUL \<notin> set (c @ '' '' @ a @ CRLF)"
    "length (c @ '' '' @ a @ CRLF) < 100"
    using assms(9,10) by (auto simp: NUL_def CR_def LF_def)
  show "apr_strtok os '' '' (c @ '' '' @ a @ CRLF) = Some ([], c, a @ CRLF)"
    using strtok_docD [OF assms(2), of "[]" "'' ''" c "CHR '' ''" "a @ CRLF"] assms(4,5) by simp
  have "apr_strtok os CRLF (a @ CRLF) = Some ([], a, [LF])"
    using strtok_docD [OF assms(2), of "[]" CRLF a CR "[LF]"] assms(6-8) by simp
  then show "Some a = (case apr_strtok os CRLF (a @ CRLF) of None \<Rightarrow> None | Some (_, a, _) \<Rightarrow> Some a)"
    by simp
qed

definition plain_reply :: "reply \<Rightarrow> bool" where
  "plain_reply r \<longleftrightarrow> 0 \<le> reply_code r \<and> reply_code r < 1000 \<and> CHR ''%'' \<notin> set (reply_text r)
     \<and> Reply (reply_code r) (reply_text r) [] = r"

lemma answer_plain: "plain_reply (answer c)"
proof -
  have "plain_reply (if b then x else y)" if "plain_reply x" "plain_reply y" for b x y
    using that by simp
  note choice = this
  show ?thesis
    unfolding answer_def Let_def by (intro choice) (simp_all add: plain_reply_def)
qed

lemma answer_words:
  "answer ''SYST'' = Reply 215 ''UNIX Type: L8'' []" "answer ''USER'' = Reply 230 ''Login successful.'' []"
  "answer ''PASS'' = Reply 230 ''Login successful.'' []" "answer ''ABOR'' = Reply 225 ''Nothing to abort.'' []"
  "answer ''TYPE'' = Reply 200 ''TYPE ok'' []" "answer ''ALLO'' = Reply 202 ''ALLO command ignored.'' []"
  "answer ''REIN'' = Reply 502 ''REIN not implemented.'' []"
  "answer ''ACCT'' = Reply 502 ''ACCT not implemented.'' []"
  "answer ''SMNT'' = Reply 502 ''SMNT not implemented.'' []"
  "answer ''RNTO'' = Reply 503 ''Bad sequence of commands.'' []"
  by (simp_all add: answer_def)

lemma dispatch_words:
  assumes "\<And>x. upper_word x \<Longrightarrow> lfd_cmdio_cmd_equals os st x \<longleftrightarrow> c = x"
  shows "c = ''SYST'' \<Longrightarrow> dispatch os temp st = bnd (handle_syst os st) (loop_test False temp)"
    and "c = ''USER'' \<Longrightarrow> dispatch os temp st = bnd (handle_user os st) (loop_test False temp)"
    and "c = ''PASS'' \<Longrightarrow> dispatch os temp st = bnd (handle_pass os st) (loop_test False temp)"
    and "c = ''ABOR'' \<Longrightarrow> dispatch os temp st = bnd (handle_abort os st) (loop_test False temp)"
    and "c = ''TYPE'' \<Longrightarrow> dispatch os temp st = bnd (handle_type os st) (loop_test False temp)"
    and "c = ''ALLO'' \<Longrightarrow> dispatch os temp st
      = bnd (lfd_cmdio_write os 202 ''ALLO command ignored.'' [] st) (loop_test False temp)"
    and "c = ''REIN'' \<Longrightarrow> dispatch os temp st
      = bnd (lfd_cmdio_write os 502 ''REIN not implemented.'' [] st) (loop_test False temp)"
    and "c = ''ACCT'' \<Longrightarrow> dispatch os temp st
      = bnd (lfd_cmdio_write os 502 ''ACCT not implemented.'' [] st) (loop_test False temp)"
    and "c = ''SMNT'' \<Longrightarrow> dispatch os temp st
      = bnd (lfd_cmdio_write os 502 ''SMNT not implemented.'' [] st) (loop_test False temp)"
  by (simp_all add: dispatch_def assms FTP_ALLOOK_def FTP_COMMANDNOTIMPL_def)

text \<open>The handlers of these words, when their reply goes out.\<close>

lemma status_handlers:
  assumes "in_progress (data_conn st) = 0"
  shows "lfd_cmdio_write os 215 ''UNIX Type: L8'' [] st = Inr (0, st') \<Longrightarrow> handle_syst os st = Inr (0, st')"
    and "lfd_cmdio_write os 230 ''Login successful.'' [] st = Inr (0, st') \<Longrightarrow> handle_user os st = Inr (0, st')"
    and "lfd_cmdio_write os 230 ''Login successful.'' [] st = Inr (0, st') \<Longrightarrow> handle_pass os st = Inr (0, st')"
    and "lfd_cmdio_write os 225 ''Nothing to abort.'' [] st = Inr (0, st') \<Longrightarrow> handle_abort os st = Inr (0, st')"
    and "lfd_cmdio_write os 200 ''TYPE ok'' [] st = Inr (0, st') \<Longrightarrow> handle_type os st = Inr (0, st')"
    and "lfd_cmdio_write os 503 ''Bad sequence of commands.'' [] st = Inr (0, st') \<Longrightarrow>
      handle_bad_rnto os st = Inr (0, st')"
  using assms
  by (simp_all add: handle_syst_def handle_user_def handle_pass_def handle_abort_def handle_type_def
      handle_bad_rnto_def ftp_codes)

lemma status_handled:
  assumes "\<And>x. upper_word x \<Longrightarrow> lfd_cmdio_cmd_equals os st x \<longleftrightarrow> c = x"
    and "in_progress (data_conn st) = 0" and "c \<notin> set file_words" and "c \<noteq> ''QUIT''"
    and "lfd_cmdio_write os (reply_code (answer c)) (reply_text (answer c)) [] st = Inr (APR_SUCCESS, st')"
  shows "(if c = ''RNTO'' then bnd (handle_bad_rnto os st) (loop_test False temp)
    else dispatch os temp st) = Inr (Again (False, temp, st'))"
proof (cases "c \<in> set status_words")
  case True
  have run: "bnd m (loop_test False temp) = Inr (Again (False, temp, st'))" if "m = Inr (APR_SUCCESS, st')" for m
    using that by (simp add: loop_test_def)
  note wr = assms(5)
  note handled = status_handlers [OF assms(2), of os st']
  show ?thesis
    using True [unfolded status_words_def list.set insert_iff empty_iff]
  proof (elim disjE, goal_cases)
    case 1
    show ?case
      using wr run [OF handled(1)] dispatch_words(1) [OF assms(1) 1]
      by (simp add: 1 answer_words)
  next
    case 2
    show ?case
      using wr run [OF handled(2)] dispatch_words(2) [OF assms(1) 2]
      by (simp add: 2 answer_words)
  next
    case 3
    show ?case
      using wr run [OF handled(3)] dispatch_words(3) [OF assms(1) 3]
      by (simp add: 3 answer_words)
  next
    case 4
    show ?case
      using wr run [OF handled(4)] dispatch_words(4) [OF assms(1) 4]
      by (simp add: 4 answer_words)
  next
    case 5
    show ?case
      using wr run [OF handled(5)] dispatch_words(5) [OF assms(1) 5]
      by (simp add: 5 answer_words)
  next
    case 6
    show ?case
      using wr run [OF wr [unfolded 6 answer_words reply.sel]] dispatch_words(6) [OF assms(1) 6]
      by (simp add: 6 answer_words)
  next
    case 7
    show ?case
      using wr run [OF wr [unfolded 7 answer_words reply.sel]] dispatch_words(7) [OF assms(1) 7]
      by (simp add: 7 answer_words)
  next
    case 8
    show ?case
      using wr run [OF wr [unfolded 8 answer_words reply.sel]] dispatch_words(8) [OF assms(1) 8]
      by (simp add: 8 answer_words)
  next
    case 9
    show ?case
      using wr run [OF wr [unfolded 9 answer_words reply.sel]] dispatch_words(9) [OF assms(1) 9]
      by (simp add: 9 answer_words)
  next
    case 10
    show ?case using wr run [OF handled(6)] by (simp add: 10 answer_words)
  qed simp
next
  case False
  note n = this [unfolded status_words_def list.set insert_iff empty_iff de_Morgan_disj]
    assms(3) [unfolded file_words_def list.set insert_iff empty_iff de_Morgan_disj] assms(4)
  have "answer c = Reply 502 ''Command not implemented.'' []"
    using n by (simp only: answer_def Let_def) simp
  moreover have "dispatch os temp st = bnd (lfd_cmdio_write os FTP_COMMANDNOTIMPL ''Command not implemented.'' [] st)
      (\<lambda>(_, st). Inr (Again (False, temp, st)))"
    using n by (simp only: dispatch_def Let_def assms(1) upper_words if_False simp_thms)
  ultimately show ?thesis
    using assms(5) n by (simp only: FTP_COMMANDNOTIMPL_def reply.sel) simp
qed

lemma status_step:
  assumes "client_lines os (comm_sock st) todo" and "strtok_doc (apr_strtok os)"
    and "printf_doc (apr_pvsprintf os)" and "natcasecmp_doc (apr_strnatcasecmp os)" and "wf_sess st"
    and "todo (world st) = (c @ CRLF) # ls" and "plain_word c" and "c \<noteq> ''QUIT''"
  shows "\<exists>st'. protocol_step os (False, temp, st) = Inr (Again (False, temp, st'))
    \<and> wf_sess st' \<and> comm_sock st' = comm_sock st \<and> todo (world st') = ls
    \<and> replies st' = replies st @ [answer c]"
proof -
  obtain st1 where r: "receives os st (c @ CRLF) None st1" and ls: "todo (world st1) = ls"
    and st1: "st1 = st\<lparr>world := world st1, cmd_input_buffer := cmd_input_buffer st1,
        ftp_cmd_str := Some (c @ CRLF), ftp_arg_str := None\<rparr>"
    using receives_word [OF assms(1,2,6)] assms(7) by (auto simp: plain_word_def)
  have f: "comm_sock st1 = comm_sock st" "replies st1 = replies st" "wf_sess st1"
    "in_progress (data_conn st1) = 0"
    using assms(5) by (subst st1; simp add: sess_defs wf_arg_def)+
  have eq: "lfd_cmdio_cmd_equals os st1 x \<longleftrightarrow> c = x" if "upper_word x" for x
    by (rule cmd_equals_word [OF assms(4) _ _ that])
      (use r assms(7) in \<open>simp_all add: receives_def plain_word_def short_word_def\<close>)
  have c: "c \<notin> set file_words" using assms(7) by (simp add: plain_word_def)
  have w: "\<exists>st'. lfd_cmdio_write os cmd msg [] st1 = Inr (APR_SUCCESS, st') \<and> wf_sess st'
      \<and> comm_sock st' = comm_sock st \<and> todo (world st') = ls
      \<and> replies st' = replies st @ [Reply cmd msg []]"
    if "0 \<le> cmd" "cmd < 1000" "CHR ''%'' \<notin> set msg" for cmd msg
    using plain_write [of os st1 todo cmd msg "[]"] assms(1,3) f ls that by (auto simp: sess_defs)
  have "\<exists>st'. (if c = ''RNTO'' then bnd (handle_bad_rnto os st1) (loop_test False temp)
        else dispatch os temp st1) = Inr (Again (False, temp, st'))
    \<and> wf_sess st' \<and> comm_sock st' = comm_sock st \<and> todo (world st') = ls
    \<and> replies st' = replies st @ [answer c]"
    using status_handled [OF eq f(4) c assms(8), where temp = temp]
      w [of "reply_code (answer c)" "reply_text (answer c)"] answer_plain [of c]
    by (auto simp: plain_reply_def)
  then show ?thesis
    by (simp add: step_receives [OF r] eq cong: if_cong split del: if_split)
qed

lemma quit_iteration:
  assumes "client_lines os (comm_sock st) todo" and "strtok_doc (apr_strtok os)"
    and "printf_doc (apr_pvsprintf os)" and "natcasecmp_doc (apr_strnatcasecmp os)" and "wf_sess st"
    and "todo (world st) = (''QUIT'' @ CRLF) # ls"
  shows "\<exists>st'. protocol_step os (False, temp, st) = Inr (Done (APR_SUCCESS, st'))
    \<and> replies st' = replies st @ [Reply 221 ''See you later, aligator.'' []]"
proof -
  have "short_word ''QUIT''" by (simp add: short_word_def)
  from receives_word [OF assms(1,2,6) this]
  obtain st1 where r: "receives os st (''QUIT'' @ CRLF) None st1"
    and st1: "st1 = st\<lparr>world := world st1, cmd_input_buffer := cmd_input_buffer st1,
        ftp_cmd_str := Some (''QUIT'' @ CRLF), ftp_arg_str := None\<rparr>" by blast
  have f: "comm_sock st1 = comm_sock st" "replies st1 = replies st" "in_progress (data_conn st1) = 0"
    using assms(5) by (subst st1; simp add: sess_defs)+
  have eq: "lfd_cmdio_cmd_equals os st1 x \<longleftrightarrow> ''QUIT'' = x" if "upper_word x" for x
    by (rule cmd_equals_word [OF assms(4) _ _ that])
      (use r in \<open>simp_all add: receives_def upper_word_def\<close>)
  from f plain_write [of os st1 todo 221 "''See you later, aligator.''" "[]"] assms(1,3)
  show ?thesis
    by (auto simp: step_receives [OF r] eq dispatch_def handle_quit_def FTP_GOODBYE_def)
qed

text \<open>
  C14. For a client that sends only words of up to 97 upper-case letters without an argument, none of them one of the
  sixteen commands of \<open>file_words\<close>, one at a time on a control connection that works, the loop is
  the abstract conversation: one reply per word, 221 and the end for QUIT, the end of file when the
  client closes. In particular it returns.
\<close>
theorem status_session:
  assumes "client_lines os (comm_sock st) todo" and "strtok_doc (apr_strtok os)"
    and "printf_doc (apr_pvsprintf os)" and "natcasecmp_doc (apr_strnatcasecmp os)" and "wf_sess st"
    and "todo (world st) = map (\<lambda>c. c @ CRLF) cs" and "\<forall>c \<in> set cs. plain_word c"
  shows "\<exists>st'. ftp_protocol_loop os st = Inr (fst (conversation cs), st')
    \<and> replies st' = replies st @ snd (conversation cs)"
proof -
  have "\<exists>st'. run_loop (protocol_step os) (False, temp, st) = Inr (fst (conversation cs), st')
    \<and> replies st' = replies st @ snd (conversation cs)" for temp
    using assms
  proof (induction cs arbitrary: st temp)
    case Nil
    let ?st = "st\<lparr>world := apr_pool_clear os (world st)\<rparr>"
    from Nil have "todo (world ?st) = []" by (simp add: client_linesD(1))
    then have "fst (snd (apr_socket_recv os (comm_sock st) cmd_input_buffer_len (world ?st))) = []"
      by (rule client_linesD(4) [OF Nil(1)])
    then show ?case
      by (cases "apr_socket_recv os (comm_sock st) cmd_input_buffer_len (world ?st)")
        (simp add: run_loop_Done protocol_step_def lfd_cmdio_get_cmd_and_arg_def Let_def)
  next
    case (Cons c cs)
    show ?case
    proof (cases "c = ''QUIT''")
      case True
      then have "todo (world st) = (''QUIT'' @ CRLF) # map (\<lambda>c. c @ CRLF) cs"
        using Cons.prems by simp
      from quit_iteration [OF Cons.prems(1-5) this, of temp] True show ?thesis
        by (auto simp: run_loop_Done)
    next
      case False
      from Cons.prems status_step [OF Cons.prems(1-5), of c "map (\<lambda>c. c @ CRLF) cs" temp] False
      obtain st1 where st1: "protocol_step os (False, temp, st) = Inr (Again (False, temp, st1))"
        "wf_sess st1" "comm_sock st1 = comm_sock st" "todo (world st1) = map (\<lambda>c. c @ CRLF) cs"
        "replies st1 = replies st @ [answer c]"
        by auto
      from Cons.IH [of st1 temp] Cons.prems st1 False show ?thesis
        by (auto simp: run_loop_Again)
    qed
  qed
  then show ?thesis by (simp add: ftp_protocol_loop_def)
qed

end
