(* ===== verification/Delivery.thy ===== *)
theory Delivery
  imports TransferOps
begin

text \<open>
  Whole transfers, in active and in passive mode, from the command to the kernel and the network: what
  the client may conclude from the reply 226.
\<close>

section \<open>What the control part of a transfer leaves alone\<close>

text \<open>
  \<open>g\<close> reads a stream off the world. The calls around the transfer loop, on the control connection
  \<open>c\<close> and for opening and closing, do not touch it, and a data connection is never \<open>c\<close>.
\<close>

definition control_keeps :: "('w, 'z) server_scheme \<Rightarrow> sock \<Rightarrow> ('w \<Rightarrow> 'b) \<Rightarrow> bool" where
  "control_keeps os c g \<longleftrightarrow>
     (\<forall>b w. g (snd (snd (apr_socket_send os c b w))) = g w)
   \<and> (\<forall>p w. g (snd (snd (lkl_sys_newstat os p w))) = g w)
   \<and> (\<forall>l w. g (snd (snd (apr_socket_accept os l w))) = g w
        \<and> fst (snd (apr_socket_accept os l w)) \<noteq> Some c)
   \<and> (\<forall>s opt v w. g (snd (apr_socket_opt_set os s opt v w)) = g w)
   \<and> (\<forall>s w. g (snd (apr_socket_close os s w)) = g w)
   \<and> (\<forall>fd w. g (snd (lkl_sys_close os fd w)) = g w)
   \<and> (\<forall>fd w. g (apr_pool_cleanup_register os fd w) = g w)
   \<and> (\<forall>h p w. g (snd (snd (apr_sockaddr_info_get os h p w))) = g w)
   \<and> (\<forall>fam w. g (snd (snd (apr_socket_create os fam w))) = g w \<and> fst (snd (apr_socket_create os fam w)) \<noteq> c)
   \<and> (\<forall>s a w. g (snd (apr_socket_bind os s a w)) = g w)
   \<and> (\<forall>s a w. g (snd (apr_socket_connect os s a w)) = g w)"

text \<open>A name that is resolved has an address.\<close>

definition resolver_doc :: "('w, 'z) apr_scheme \<Rightarrow> bool" where
  "resolver_doc os \<longleftrightarrow> (\<forall>h p w. fst (apr_sockaddr_info_get os h p w) = APR_SUCCESS \<longrightarrow>
     fst (snd (apr_sockaddr_info_get os h p w)) \<noteq> [])"

lemma control_keepsD:
  assumes "control_keeps os c g"
  shows "apr_socket_send os c b w = (rc, n, w') \<Longrightarrow> g w' = g w"
    and "lkl_sys_newstat os p w = (rc, info, w') \<Longrightarrow> g w' = g w"
    and "apr_socket_accept os l w = (rc, sk, w') \<Longrightarrow> g w' = g w \<and> sk \<noteq> Some c"
    and "g (snd (apr_socket_opt_set os s opt v w)) = g w"
    and "g (snd (apr_socket_close os s w)) = g w"
    and "lkl_sys_close os fd w = (rc, w') \<Longrightarrow> g w' = g w"
    and "g (apr_pool_cleanup_register os fd w) = g w"
    and "apr_sockaddr_info_get os h p' w = (rc, addrs, w') \<Longrightarrow> g w' = g w"
    and "apr_socket_create os fam w = (rc, k, w') \<Longrightarrow> g w' = g w \<and> k \<noteq> c"
    and "apr_socket_opt_set os s opt v w = (rc, w') \<Longrightarrow> g w' = g w"
    and "apr_socket_bind os s a w = (rc, w') \<Longrightarrow> g w' = g w"
    and "apr_socket_connect os s a w = (rc, w') \<Longrightarrow> g w' = g w"
  using assms unfolding control_keeps_def by (metis fst_conv snd_conv)+

definition quiet_reply :: "int \<Rightarrow> string \<Rightarrow> bool" where
  "quiet_reply cmd msg \<longleftrightarrow> 0 \<le> cmd \<and> cmd < 1000 \<and> CHR ''%'' \<notin> set msg"

lemma wp_write_keeps:
  assumes "control_keeps os (comm_sock st) g" and "printf_doc (apr_pvsprintf os)" and "quiet_reply cmd msg"
    and "\<And>rc w'. g w' = g (world st) \<Longrightarrow>
      Q (rc, st\<lparr>world := w', replies := replies st @ [Reply cmd msg args]\<rparr>)"
  shows "wp (\<lambda>_. False) Q (lfd_cmdio_write os cmd msg args st)"
proof -
  obtain buff where "apr_pvsprintf os (reply_format cmd msg) args = Some buff"
    using reply_plain [OF assms(2)] assms(3) unfolding quiet_reply_def by blast
  then show ?thesis
    using assms(4) control_keepsD(1) [OF assms(1)]
    by (auto simp: lfd_cmdio_write_def split: prod.splits)
qed

text \<open>A network on which no call fails and a send takes all it is given.\<close>

definition smooth_network :: "('w, 'z) apr_scheme \<Rightarrow> bool" where
  "smooth_network os \<longleftrightarrow>
     (\<forall>l w. fst (apr_socket_accept os l w) = APR_SUCCESS)
   \<and> (\<forall>sk b w. fst (apr_socket_send os sk b w) = APR_SUCCESS
        \<and> fst (snd (apr_socket_send os sk b w)) = length b)
   \<and> (\<forall>sk n w. fst (apr_socket_recv os sk n w) \<in> {APR_SUCCESS, APR_EOF})
   \<and> (\<forall>h p w. fst (apr_sockaddr_info_get os h p w) = APR_SUCCESS)
   \<and> (\<forall>fam w. fst (apr_socket_create os fam w) = APR_SUCCESS)
   \<and> (\<forall>s opt v w. fst (apr_socket_opt_set os s opt v w) = APR_SUCCESS)
   \<and> (\<forall>s a w. fst (apr_socket_bind os s a w) = APR_SUCCESS)
   \<and> (\<forall>s a w. fst (apr_socket_connect os s a w) = APR_SUCCESS)"

lemma smooth_networkD:
  assumes "smooth_network os"
  shows "fst (apr_socket_accept os l w) = APR_SUCCESS"
    and "apr_socket_send os sk b w = (rc, n, w') \<Longrightarrow> rc = APR_SUCCESS \<and> n = length b"
    and "apr_socket_recv os sk k w = (rc, bytes, w') \<Longrightarrow> rc \<in> {APR_SUCCESS, APR_EOF}"
    and "apr_sockaddr_info_get os h p w = (rc, addrs, w') \<Longrightarrow> rc = APR_SUCCESS"
    and "apr_socket_create os fam w = (rc, sk', w') \<Longrightarrow> rc = APR_SUCCESS"
    and "apr_socket_opt_set os s opt v w = (rc, w') \<Longrightarrow> rc = APR_SUCCESS"
    and "apr_socket_bind os s a w = (rc, w') \<Longrightarrow> rc = APR_SUCCESS"
    and "apr_socket_connect os s a w = (rc, w') \<Longrightarrow> rc = APR_SUCCESS"
  using assms unfolding smooth_network_def by (metis fst_conv snd_conv)+

text \<open>Opening the data connection in passive mode.\<close>

lemma wp_passive_fd:
  assumes "control_keeps os (comm_sock st) g" and "printf_doc (apr_pvsprintf os)" and "accept_doc os"
    and "CHR ''%'' \<notin> set msg" and "pasv_listen_fd st = Some l" and "p_port_sockaddr st = None"
    and "data_sock (data_conn st) = None"
    and "\<And>w'. fst (apr_socket_accept os l (world st)) \<noteq> APR_SUCCESS \<Longrightarrow> g w' = g (world st) \<Longrightarrow> Q (None, st\<lparr>data_conn := (data_conn st)\<lparr>abor_received := 0\<rparr>,
      world := w', replies := replies st @ [Reply 425 ''Failed to accept connection.'' []]\<rparr>)"
    and "\<And>fd w'. fd \<noteq> comm_sock st \<Longrightarrow> g w' = g (world st) \<Longrightarrow>
      Q (Some fd, st\<lparr>data_conn := (data_conn st)\<lparr>abor_received := 0, data_sock := Some fd, in_progress := 0\<rparr>,
        world := w', replies := replies st @ [Reply 150 msg []]\<rparr>)"
  shows "wp (\<lambda>_. False) Q (lfd_get_remote_transfer_fd os msg st)"
proof -
  let ?st = "st\<lparr>data_conn := (data_conn st)\<lparr>abor_received := 0\<rparr>\<rparr>"
  have act: "pasv_active st = Inr True" "pasv_active ?st = Inr True"
    using active_one(2) [of st] active_one(2) [of ?st] assms(5,6) by simp_all
  obtain rc sk w where a: "apr_socket_accept os l (world st) = (rc, sk, w)"
    by (cases "apr_socket_accept os l (world st)") auto
  note acc = control_keepsD(3) [OF assms(1) a]
  have ok: "rc = APR_SUCCESS \<longleftrightarrow> sk \<noteq> None" using assms(3) a unfolding accept_doc_def by blast
  show ?thesis
  proof (cases sk)
    case None
    with ok a assms(1,2,5,8) acc show ?thesis
      by (auto simp: lfd_get_remote_transfer_fd_def act lfd_ftpdataio_get_pasv_fd_def Let_def FTP_BADSENDCONN_def
          quiet_reply_def intro!: wp_write_keeps [where g = g])
  next
    case (Some fd)
    with ok a assms(1,2,4,5,7,9) acc show ?thesis
      by (auto simp: lfd_get_remote_transfer_fd_def act lfd_ftpdataio_get_pasv_fd_def Let_def FTP_DATACONN_def
          quiet_reply_def init_data_sock_params_def control_keepsD(4) [OF assms(1)]
          intro!: wp_write_keeps [where g = g])
  qed
qed

text \<open>In active mode the server makes a socket and connects it to the client.\<close>

lemma wp_connect:
  assumes "control_keeps os c g" and "resolver_doc os"
  shows "wp (\<lambda>_. False) (\<lambda>(rc, sk, w'). g w' = g w \<and> (rc = APR_SUCCESS \<longrightarrow> (\<exists>fd. sk = Some fd \<and> fd \<noteq> c))
      \<and> (smooth_network os \<longrightarrow> rc = APR_SUCCESS))
    (get_bound_and_connected_ftp_port_sock os (Some remote) w)"
proof -
  let ?port = "word_of_int (lfd_config_data_port (config os))"
  obtain rc1 addrs w1 where a: "apr_sockaddr_info_get os None ?port w = (rc1, addrs, w1)"
    by (cases "apr_sockaddr_info_get os None ?port w") auto
  obtain rc2 sk w2 where b: "apr_socket_create os APR_INET w1 = (rc2, sk, w2)"
    by (cases "apr_socket_create os APR_INET w1") auto
  obtain rc3 w3 where o: "apr_socket_opt_set os sk SO_REUSEADDR 1 w2 = (rc3, w3)"
    by (cases "apr_socket_opt_set os sk SO_REUSEADDR 1 w2") auto
  obtain rc4 w4 where d: "apr_socket_bind os sk (hd addrs) w3 = (rc4, w4)"
    by (cases "apr_socket_bind os sk (hd addrs) w3") auto
  obtain rc5 w5 where e: "apr_socket_connect os sk remote w4 = (rc5, w5)"
    by (cases "apr_socket_connect os sk remote w4") auto
  note k = control_keepsD(8) [OF assms(1) a] control_keepsD(9) [OF assms(1) b] control_keepsD(10) [OF assms(1) o]
    control_keepsD(11) [OF assms(1) d] control_keepsD(12) [OF assms(1) e]
  have smooth: "rc1 = APR_SUCCESS \<and> rc2 = APR_SUCCESS \<and> rc3 = APR_SUCCESS \<and> rc4 = APR_SUCCESS \<and> rc5 = APR_SUCCESS"
    if "smooth_network os"
    using smooth_networkD(4) [OF that a] smooth_networkD(5) [OF that b] smooth_networkD(6) [OF that o]
      smooth_networkD(7) [OF that d] smooth_networkD(8) [OF that e] by simp
  have "fst (apr_sockaddr_info_get os None ?port w) = APR_SUCCESS \<longrightarrow> fst (snd (apr_sockaddr_info_get os None ?port w)) \<noteq> []"
    using assms(2) unfolding resolver_doc_def by blast
  with a have addrs: "rc1 = APR_SUCCESS \<longrightarrow> addrs \<noteq> []" by simp
  show ?thesis
  proof (cases addrs)
    case Nil
    with addrs k smooth show ?thesis
      by (auto simp: get_bound_and_connected_ftp_port_sock_def a)
  next
    case (Cons sa sas)
    have "apr_socket_bind os sk sa w3 = (rc4, w4)" using d Cons by simp
    with Cons k smooth show ?thesis
      by (auto simp: get_bound_and_connected_ftp_port_sock_def a b o e)
  qed
qed

text \<open>Either way, when the client has asked for one of them.\<close>

lemma wp_data_fd:
  assumes "control_keeps os (comm_sock st) g" and "printf_doc (apr_pvsprintf os)" and "accept_doc os"
    and "resolver_doc os" and "CHR ''%'' \<notin> set msg" and "exclusive st"
    and "pasv_listen_fd st \<noteq> None \<or> p_port_sockaddr st \<noteq> None" and "data_sock (data_conn st) = None"
    and "\<And>w' t. \<not> smooth_network os \<Longrightarrow> g w' = g (world st) \<Longrightarrow>
      Q (None, st\<lparr>data_conn := (data_conn st)\<lparr>abor_received := 0\<rparr>, world := w', replies := replies st @ [Reply 425 t []]\<rparr>)"
    and "\<And>fd w'. fd \<noteq> comm_sock st \<Longrightarrow> g w' = g (world st) \<Longrightarrow>
      Q (Some fd, st\<lparr>data_conn := (data_conn st)\<lparr>abor_received := 0, data_sock := Some fd, in_progress := 0\<rparr>,
        world := w', replies := replies st @ [Reply 150 msg []]\<rparr>)"
  shows "wp (\<lambda>_. False) Q (lfd_get_remote_transfer_fd os msg st)"
proof (cases "pasv_listen_fd st")
  case (Some l)
  with assms(6) have "p_port_sockaddr st = None" by (simp add: exclusive_def)
  then show ?thesis
    by (rule wp_passive_fd [OF assms(1-3,5) Some _ assms(8)])
      (use assms(9,10) smooth_networkD(1) [of os l "world st"] in auto)
next
  case None
  let ?st = "st\<lparr>data_conn := (data_conn st)\<lparr>abor_received := 0\<rparr>\<rparr>"
  obtain remote where remote: "p_port_sockaddr st = Some remote" using None assms(7) by auto
  have act: "pasv_active st = Inr False" "port_active st = Inr True" "pasv_active ?st = Inr False"
    using active_one [of st] active_one [of ?st] None remote by simp_all
  obtain rc sk w where c: "get_bound_and_connected_ftp_port_sock os (Some remote) (world st) = Inr (rc, sk, w)"
    "g w = g (world st)" "rc = APR_SUCCESS \<longrightarrow> (\<exists>fd. sk = Some fd \<and> fd \<noteq> comm_sock st)"
    "smooth_network os \<longrightarrow> rc = APR_SUCCESS"
    using wp_returns [OF wp_connect [OF assms(1,4), where remote = remote and w = "world st"]] by auto
  show ?thesis
  proof (cases "rc = APR_SUCCESS")
    case False
    with c assms(1,2,9) show ?thesis
      by (auto simp: lfd_get_remote_transfer_fd_def act ftpdataio_get_port_fd_def Let_def remote FTP_BADSENDCONN_def
          quiet_reply_def intro!: wp_write_keeps [where g = g])
  next
    case True
    with c(3) obtain fd where "sk = Some fd" "fd \<noteq> comm_sock st" by blast
    with True c(1,2) assms(1,2,5,8,10) show ?thesis
      by (auto simp: lfd_get_remote_transfer_fd_def act ftpdataio_get_port_fd_def Let_def remote FTP_DATACONN_def
          quiet_reply_def init_data_sock_params_def control_keepsD(4) [OF assms(1)]
          intro!: wp_write_keeps [where g = g])
  qed
qed

text \<open>Closing the file, an unbuffered one that is neither deleted on close nor locked.\<close>

definition plain_handle :: "lkl_file \<Rightarrow> bool" where
  "plain_handle f \<longleftrightarrow> \<not> buffered f \<and> \<not> thlock f \<and> fflags f AND APR_DELONCLOSE = 0"

lemma wp_close_keeps:
  assumes "control_keeps os c g" and "env_doc os" and "plain_handle f"
    and "\<And>rc w'. g w' = g w \<Longrightarrow> Q (rc, w')"
  shows "wp (\<lambda>_. False) Q (lkl_file_close os f w)"
proof -
  obtain rc w' where "lkl_sys_close os (filedes f) w = (rc, w')"
    by (cases "lkl_sys_close os (filedes f) w")
  with assms(2-4) control_keepsD(6) [OF assms(1) this] show ?thesis
    by (simp add: lkl_file_close_def env_doc_def lkl_unix_file_cleanup_def file_cleanup_def plain_handle_def Let_def)
qed

lemma cleanup_keeps:
  assumes "control_keeps os c g"
  shows "\<exists>w'. lfd_communication_cleanup os st = st\<lparr>world := w', p_port_sockaddr := None, pasv_listen_fd := None\<rparr>
    \<and> g w' = g (world st)"
  by (cases st; cases "pasv_listen_fd st")
    (auto simp: lfd_communication_cleanup_def port_cleanup_def pasv_cleanup_def control_keepsD(5) [OF assms])

text \<open>
  What follows the loop, in both directions: the reply 226 is given exactly for the result 0, and
  the streams are left as the loop left them.
\<close>

definition outcome :: "int \<Rightarrow> int" where
  "outcome r = (if r = - 1 then 451 else if r = - 2 then 426 else 226)"

lemma wp_epilogue_keeps:
  assumes "control_keeps os (comm_sock st) g" and "printf_doc (apr_pvsprintf os)" and "env_doc os"
    and "plain_handle f" and "data_sock (data_conn st) \<noteq> None" and "abor_received (data_conn st) = 0"
    and "CHR ''%'' \<notin> set a" and "CHR ''%'' \<notin> set b" and "CHR ''%'' \<notin> set c"
    and "\<And>d. abor_received (h d) = abor_received d"
    and "\<And>st'. g (world st') = g (world st) \<Longrightarrow> reply_code (last (replies st')) = outcome (retval ret) \<Longrightarrow>
      cwd_path st' = cwd_path st \<Longrightarrow> Q (APR_SUCCESS, st')"
  shows "wp (\<lambda>_. False) Q (bnd (lfd_dispose_transfer_fd os st) (\<lambda>st.
     bnd (transfer_reply os a b c ret (st\<lparr>data_conn := h (data_conn st)\<rparr>)) (\<lambda>(_, st). finish_transfer os f st)))"
proof -
  have fin: "wp (\<lambda>_. False) Q (finish_transfer os f st2)"
    if "abor_received (data_conn st2) = 0" "g (world st2) = g (world st)"
      "reply_code (last (replies st2)) = outcome (retval ret)" "cwd_path st2 = cwd_path st" for st2
  proof -
    obtain w where c: "lfd_communication_cleanup os st2
        = st2\<lparr>world := w, p_port_sockaddr := None, pasv_listen_fd := None\<rparr>" "g w = g (world st2)"
      using cleanup_keeps [OF assms(1)] by blast
    have "finish_transfer os f st2 = bnd (lkl_file_close os f w) (\<lambda>(_, w). Inr (APR_SUCCESS,
        st2\<lparr>p_port_sockaddr := None, pasv_listen_fd := None, world := w\<rparr>))"
      using that(1) by (simp add: finish_transfer_def check_abor_def Let_def c(1))
    then show ?thesis
      using that c(2)
      by (simp only: wp_bnd) (rule wp_close_keeps [OF assms(1,3,4)], auto intro!: assms(11))
  qed
  obtain sk where sk: "data_sock (data_conn st) = Some sk" using assms(5) by auto
  define st1 where "st1 = st\<lparr>world := snd (apr_socket_close os sk (snd (apr_socket_opt_set os sk SO_LINGER 0 (world st)))),
    data_conn := (data_conn st)\<lparr>data_sock := None\<rparr>\<rparr>"
  have st1: "lfd_dispose_transfer_fd os st = Inr st1" "g (world st1) = g (world st)" "comm_sock st1 = comm_sock st"
    "abor_received (data_conn st1) = 0" "cwd_path st1 = cwd_path st"
    by (simp_all add: lfd_dispose_transfer_fd_def sk st1_def control_keepsD(4,5) [OF assms(1)] assms(6))
  show ?thesis
    unfolding st1(1) bnd_Inr wp_bnd transfer_reply_def
    using st1(2-5) assms(1,2,7-10)
    by (auto simp: quiet_reply_def ftp_codes outcome_def simp del: wp_bnd
        intro!: wp_write_keeps [where g = g] fin)
qed

section \<open>The handle through the loops\<close>

lemma plain_read: "plain_handle f \<Longrightarrow> wp (\<lambda>_. True) (\<lambda>(rc, n, bytes, f', w'). plain_handle f') (lkl_file_read os f n w)"
  unfolding lkl_file_read_def Let_def
  by (auto simp: plain_handle_def split: sum.splits
      intro!: wp_any [where m = "read_or_wait a b c d" for a b c d])

lemma plain_write_file:
  "plain_handle f \<Longrightarrow> wp (\<lambda>_. True) (\<lambda>(rc, n, f', w'). plain_handle f') (lkl_file_write os buf off n (f, w))"
  unfolding lkl_file_write_def Let_def
  by (auto simp: plain_handle_def split: sum.splits
      intro!: wp_any [where m = "sys_write a b c d e h" for a b c d e h]
        wp_any [where m = "lkl_wait_for_io_or_timeout a b c d" for a b c d]
        wp_any [where m = "run_loop (halving_step a b c d) e" for a b c d e])

lemma plain_write_full:
  assumes "plain_handle f"
  shows "wp (\<lambda>_. True) (\<lambda>(rc, n, f', w'). plain_handle f') (lkl_file_write_full os mem off n (f, w))"
  unfolding lkl_file_write_full_def
proof (rule wp_run_loop [where I = "\<lambda>(b, n, t, f, w). plain_handle f"], goal_cases)
  case (3 t)
  obtain b n k g v where t: "t = (b, n, k, g, v)" by (cases t)
  with 3 have g: "plain_handle g" by simp
  show ?case
    unfolding t write_full_step_def prod.case wp_bnd
    by (rule wp_mono [OF plain_write_file [OF g]]) (auto simp: Let_def)
qed (use assms in simp_all)

lemma plain_send:
  assumes "plain_handle f"
  shows "wp (\<lambda>_. True) (\<lambda>(ret, f', st'). plain_handle f') (do_file_send_rwloop os f ascii st)"
  unfolding do_file_send_rwloop_def wp_bnd
proof (rule wp_mono [OF wp_run_loop [where I = "\<lambda>(a, b, t, f, w). plain_handle f" and E = "\<lambda>_. True"
      and Q = "\<lambda>(ret, f', w'). plain_handle f'"]], goal_cases)
  case (3 t)
  obtain a b k g v where t: "t = (a, b, k, g, v)" by (cases t)
  with 3 have g: "plain_handle g" by simp
  show ?case
    unfolding t send_step_def prod.case wp_bnd
    by (rule wp_mono [OF plain_read [OF g]])
      (auto simp: Let_def split: option.splits
        intro!: wp_any [where m = "convert_chunk a b c d" for a b c d]
          wp_any [where m = "lfd_socket_write_full a b c d e" for a b c d e])
qed (use assms in \<open>auto split: prod.splits\<close>)

lemma plain_recv:
  assumes "plain_handle f"
  shows "wp (\<lambda>_. True) (\<lambda>(ret, f', st'). plain_handle f') (do_file_recv os f ascii st)"
proof -
  have step: "wp (\<lambda>_. True) (\<lambda>c. case c of Again (a, b, k, f, w) \<Rightarrow> plain_handle f
      | Done (ret, f', w') \<Rightarrow> plain_handle f') (recv_step os ascii sk (a, b, k, g, v))"
    if g: "plain_handle g" for sk a b k g v
  proof -
    obtain rc bytes w where r: "apr_socket_recv os sk VSFTP_DATA_BUFSIZE v = (rc, bytes, w)"
      by (cases "apr_socket_recv os sk VSFTP_DATA_BUFSIZE v") auto
    show ?thesis
      using g unfolding recv_step_def prod.case r
      by (auto simp: Let_def intro!: wp_mono [OF plain_write_full [OF g]]
          wp_any [where m = "lfd_ascii_ascii_to_bin a b c" for a b c])
  qed
  show ?thesis
    unfolding do_file_recv_def
    by (auto split: option.splits intro!: wp_mono [OF wp_run_loop [where I = "\<lambda>(a, b, t, f, w). plain_handle f"
      and E = "\<lambda>_. True" and Q = "\<lambda>(ret, f', w'). plain_handle f'"]])
      (use assms step in \<open>force split: ctl.splits\<close>)+
qed

section \<open>What the loops leave alone\<close>

text \<open>
  An observation \<open>h\<close> of the world that an upload, or a download, does not touch: neither the control
  part of the transfer, nor the calls of its loop on the file and on the data connection.
\<close>

definition upload_keeps :: "('w, 'z) server_scheme \<Rightarrow> sock \<Rightarrow> ('w \<Rightarrow> 'b) \<Rightarrow> bool" where
  "upload_keeps os c h \<longleftrightarrow> control_keeps os c h \<and> writes_keep os h
     \<and> (\<forall>sk n w. sk \<noteq> c \<longrightarrow> h (snd (snd (apr_socket_recv os sk n w))) = h w)"

definition download_keeps :: "('w, 'z) server_scheme \<Rightarrow> sock \<Rightarrow> ('w \<Rightarrow> 'b) \<Rightarrow> bool" where
  "download_keeps os c h \<longleftrightarrow> control_keeps os c h \<and> reads_keep os h
     \<and> (\<forall>sk b w. sk \<noteq> c \<longrightarrow> h (snd (snd (apr_socket_send os sk b w))) = h w)"

lemma control_keeps_pair:
  "control_keeps os c f \<Longrightarrow> control_keeps os c g \<Longrightarrow> control_keeps os c (\<lambda>w. (f w, g w))"
  by (auto simp: control_keeps_def)

lemma keeps_nothing:
  "control_keeps os c g \<Longrightarrow> upload_keeps os c (\<lambda>_. ())" "control_keeps os c g \<Longrightarrow> download_keeps os c (\<lambda>_. ())"
  by (simp_all add: upload_keeps_def download_keeps_def control_keeps_def reads_keep_def writes_keep_def)

lemma write_full_frame:
  assumes "plain_handle f" and "writes_keep os h"
  shows "wp (\<lambda>_. True) (\<lambda>(rc, n, f', w'). plain_handle f' \<and> h w' = h w) (lkl_file_write_full os mem off n (f, w))"
  unfolding lkl_file_write_full_def
proof (rule wp_run_loop [where I = "\<lambda>(b, n, t, f, v). plain_handle f \<and> h v = h w"], goal_cases)
  case (3 t)
  obtain b n k g v where t: "t = (b, n, k, g, v)" by (cases t)
  with 3 have g: "plain_handle g" "h v = h w" "\<not> buffered g" by (simp_all add: plain_handle_def)
  have one: "wp (\<lambda>_. True) (\<lambda>(rc, n, f', w'). plain_handle f' \<and> h w' = h v) (lkl_file_write os mem b n (g, v))"
    by (rule wp_mono [OF wp_conj [OF plain_write_file [OF g(1)] write_keeps [OF g(3) assms(2)]]]) auto
  show ?case
    unfolding t write_full_step_def prod.case wp_bnd
    by (rule wp_mono [OF one]) (use g in \<open>auto simp: Let_def\<close>)
qed (use assms in simp_all)

lemma recv_frame:
  assumes "upload_keeps os c h" and "plain_handle f" and "data_sock (data_conn st) = Some sk" and "sk \<noteq> c"
  shows "wp (\<lambda>_. True) (\<lambda>(ret, f', st'). h (world st') = h (world st)) (do_file_recv os f ascii st)"
proof -
  let ?I = "\<lambda>g v. plain_handle g \<and> h v = h (world st)"
  have writes: "writes_keep os h" using assms(1) by (simp add: upload_keeps_def)
  have step: "wp (\<lambda>_. True) (\<lambda>c. case c of Again (a, b, k, f, w) \<Rightarrow> ?I f w
      | Done (ret, f', w') \<Rightarrow> h w' = h (world st)) (recv_step os ascii sk (a, b, k, g, v))"
    if g: "plain_handle g" "h v = h (world st)" for a b k g v
  proof -
    obtain rc bytes w where r: "apr_socket_recv os sk VSFTP_DATA_BUFSIZE v = (rc, bytes, w)"
      by (cases "apr_socket_recv os sk VSFTP_DATA_BUFSIZE v") auto
    have "h (snd (snd (apr_socket_recv os sk VSFTP_DATA_BUFSIZE v))) = h v"
      using assms(1,4) by (simp add: upload_keeps_def)
    then have "h w = h (world st)" using r g(2) by simp
    then show ?thesis
      using g unfolding recv_step_def prod.case r
      by (auto simp: Let_def intro!: wp_mono [OF write_full_frame [OF g(1) writes]]
          wp_any [where m = "lfd_ascii_ascii_to_bin a b c" for a b c])
  qed
  show ?thesis
    unfolding do_file_recv_def assms(3) option.case wp_bnd
    by (rule wp_mono [OF wp_run_loop [where I = "\<lambda>(a, b, t, f, w). ?I f w" and E = "\<lambda>_. True"
          and Q = "\<lambda>(ret, f', w'). h w' = h (world st)"]])
      (use assms(2) step in \<open>force split: ctl.splits\<close>)+
qed

lemma send_frame:
  assumes "download_keeps os c h" and "plain_handle f" and "data_sock (data_conn st) = Some sk" and "sk \<noteq> c"
  shows "wp (\<lambda>_. True) (\<lambda>(ret, f', st'). h (world st') = h (world st)) (do_file_send_rwloop os f ascii st)"
proof -
  let ?I = "\<lambda>g v. plain_handle g \<and> h v = h (world st)"
  have reads: "reads_keep os h" using assms(1) by (simp add: download_keeps_def)
  have send: "h w' = h v" if "apr_socket_send os sk b v = (rc, k, w')" for b v rc k w'
  proof -
    have "h (snd (snd (apr_socket_send os sk b v))) = h v" using assms(1,4) by (simp add: download_keeps_def)
    with that show ?thesis by simp
  qed
  have full: "wp (\<lambda>_. True) (\<lambda>(rc, k, w'). h w' = h v) (lfd_socket_write_full os sk mem n v)" for mem n v
    unfolding lfd_socket_write_full_def
  proof (rule wp_run_loop [where I = "\<lambda>(p, m, u). h u = h v"], goal_cases)
    case (3 x)
    then show ?case
      by (cases x) (auto simp: socket_write_step_def socket_send_def slice_def Let_def dest: send split: prod.splits)
  qed auto
  have read: "wp (\<lambda>_. True) (\<lambda>(rc, n, bytes, f', w'). plain_handle f' \<and> h w' = h v) (lkl_file_read os g n v)"
    if "plain_handle g" for g n v
  proof -
    have "\<not> buffered g" using that by (simp add: plain_handle_def)
    from wp_conj [OF plain_read [OF that] read_keeps [OF this reads]] show ?thesis by (rule wp_mono) auto
  qed
  have step: "wp (\<lambda>_. True) (\<lambda>c. case c of Again (a, b, k, f, w) \<Rightarrow> ?I f w
      | Done (ret, f', w') \<Rightarrow> h w' = h (world st)) (send_step os ascii (Some sk) (a, b, k, g, v))"
    if g: "plain_handle g" "h v = h (world st)" for a b k g v
    unfolding send_step_def prod.case wp_bnd
    by (rule wp_mono [OF read [OF g(1)]])
      (use g(2) in \<open>auto simp: Let_def intro!: wp_any [where m = "convert_chunk a b c d" for a b c d]
          wp_mono [OF full]\<close>)
  show ?thesis
    unfolding do_file_send_rwloop_def assms(3) wp_bnd
    by (rule wp_mono [OF wp_run_loop [where I = "\<lambda>(a, b, t, f, w). ?I f w" and E = "\<lambda>_. True"
          and Q = "\<lambda>(ret, f', w'). h w' = h (world st)"]])
      (use assms(2) step in \<open>force split: ctl.splits\<close>)+
qed

section \<open>When nothing fails\<close>

text \<open>A kernel whose reads succeed.\<close>

definition smooth_reads :: "('w, 'z) lkl_scheme \<Rightarrow> cstr \<Rightarrow> bool" where
  "smooth_reads os path \<longleftrightarrow> (\<forall>fd n w. 0 \<le> fst (lkl_sys_read os fd n w))
     \<and> (\<forall>w. fst (lkl_sys_newstat os path w) = 0
          \<and> filetype_from_mode (st_mode (fst (snd (lkl_sys_newstat os path w)))) = APR_REG)"

lemma smooth_read:
  assumes "\<forall>fd n w. 0 \<le> fst (lkl_sys_read os fd n w)" and "\<not> buffered f"
  shows "wp (\<lambda>_. True) (\<lambda>(rc, n, bytes, f', w'). \<not> buffered f' \<and> rc \<in> {APR_SUCCESS, APR_EOF}) (lkl_file_read os f n w)"
proof -
  have r: "0 \<le> fst (lkl_sys_read os fd k v)" for fd k v
    using assms(1) by simp
  have "read_or_wait os g k v = (case lkl_sys_read os (filedes g) k v of (rv, bytes, w) \<Rightarrow> Inr (Inr (rv, bytes), w))
      \<and> (case lkl_sys_read os (filedes g) k v of (rv, bytes, w) \<Rightarrow> 0 \<le> rv)" for g k v
  proof -
    have "fst (lkl_sys_read os (filedes g) k v) \<noteq> - EINTR" "fst (lkl_sys_read os (filedes g) k v) \<noteq> - EAGAIN"
      using r [of "filedes g" k v] by (auto simp: EINTR_def EAGAIN_def)
    then show ?thesis
      using r [of "filedes g" k v]
      by (auto simp: read_or_wait_def Let_def eintr_loop_stop split: prod.splits)
  qed
  note read = this
  have step: "wp (\<lambda>_. True) (\<lambda>(r, v'). \<exists>rv bytes. r = Inr (rv, bytes) \<and> 0 \<le> rv) (read_or_wait os g k v)" for g k v
    using read [of g k v] by (cases "lkl_sys_read os (filedes g) k v") simp
  show ?thesis
    using assms(2)
    by (auto simp: lkl_file_read_def Let_def intro!: wp_mono [OF step])
qed

lemma smooth_write_full:
  assumes "smooth_network os"
  shows "wp (\<lambda>_. True) (\<lambda>(rc, n, w'). rc = APR_SUCCESS \<and> n = left) (lfd_socket_write_full os fd buf left w)"
proof -
  have send: "wp (\<lambda>_. True) (\<lambda>(rc, n, w'). rc = APR_SUCCESS \<and> n = left) (socket_send os fd buf 0 left w)"
    by (auto simp: socket_send_def slice_def split: prod.splits dest!: smooth_networkD(2) [OF assms])
  show ?thesis
    unfolding lfd_socket_write_full_def
    by (subst run_loop_unfold) (auto simp: socket_write_step_def Let_def intro!: wp_mono [OF send])
qed

lemma smooth_send:
  assumes "smooth_network os" and "\<forall>fd n w. 0 \<le> fst (lkl_sys_read os fd n w)" and "\<not> buffered f"
  shows "wp (\<lambda>_. True) (\<lambda>(ret, f', st'). retval ret = 0) (do_file_send_rwloop os f ascii st)"
  unfolding do_file_send_rwloop_def wp_bnd
proof (rule wp_mono [OF wp_run_loop [where I = "\<lambda>(a, b, t, f, w). \<not> buffered f" and E = "\<lambda>_. True"
      and Q = "\<lambda>(ret, f', w'). retval ret = 0"]], goal_cases)
  case (3 t)
  obtain a b k g v where t: "t = (a, b, k, g, v)" by (cases t)
  with 3 have g: "\<not> buffered g" by simp
  show ?case
    unfolding t send_step_def prod.case wp_bnd
    by (rule wp_mono [OF smooth_read [OF assms(2) g]])
      (auto simp: Let_def split: option.splits intro!: wp_any [where m = "convert_chunk a b c d" for a b c d]
        wp_mono [OF smooth_write_full [OF assms(1)]])
qed (use assms(3) in \<open>auto split: prod.splits\<close>)

text \<open>
  C34. The download loop in ASCII mode, which the handlers never switch on: of a file with a line feed it sends
  as many bytes as the file has, although the conversion is longer. When no read fails and the network
  works it reports success, so that the client misses the end of each chunk with a line feed and is not told.
\<close>
theorem ascii_send_truncates:
  assumes "data_sock (data_conn st) = Some fd" and "\<not> buffered f"
    and "kernel_reads os (filedes f) rest \<mu>" and "socket_sends os fd sent"
    and "reads_keep os sent" and "sends_keep os rest" and "LF \<in> set (rstream rest f (world st))"
  shows "wp (\<lambda>_. False) (\<lambda>(ret, f', st').
      (retval ret = 0 \<longrightarrow>
        length (sent (world st')) = length (sent (world st)) + length (rstream rest f (world st))
        \<and> sent (world st') \<noteq> sent (world st) @ to_dos (rstream rest f (world st)))
    \<and> (smooth_network os \<and> (\<forall>fd n w. 0 \<le> fst (lkl_sys_read os fd n w)) \<longrightarrow> retval ret = 0))
    (do_file_send_rwloop os f True st)"
proof -
  obtain ret f' st' where run: "do_file_send_rwloop os f True st = Inr (ret, f', st')"
    and spec: "retval ret = 0 \<Longrightarrow> \<exists>chs. concat chs = rstream rest f (world st)
      \<and> sent (world st') = sent (world st) @ concat (map (wire True) chs)"
    using wp_returns [OF send_file_spec [OF assms(1-6), where ascii = True]] by fastforce
  have len: "length (concat (map (wire True) chs)) = length (concat chs)" for chs
    by (simp add: length_concat comp_def)
  have "length s < length (to_dos s)" if "LF \<in> set s" for s
    using that length_to_dos_ge by (induction s) (auto simp: le_imp_less_Suc)
  from this [OF assms(7)]
  have grows: "length (rstream rest f (world st)) < length (to_dos (rstream rest f (world st)))" .
  have "length (sent (world st')) = length (sent (world st)) + length (rstream rest f (world st))
      \<and> sent (world st') \<noteq> sent (world st) @ to_dos (rstream rest f (world st))" if "retval ret = 0"
  proof -
    from spec [OF that] obtain chs where c: "concat chs = rstream rest f (world st)"
      "sent (world st') = sent (world st) @ concat (map (wire True) chs)" by blast
    with len [of chs] grows show ?thesis by (auto dest: arg_cong [of _ _ length])
  qed
  moreover have "retval ret = 0" if "smooth_network os" "\<forall>fd n w. 0 \<le> fst (lkl_sys_read os fd n w)"
    using smooth_send [OF that assms(2), of True st] run by simp
  ultimately show ?thesis by (simp add: run)
qed

lemma smooth_recv:
  assumes "smooth_network os"
  shows "wp (\<lambda>_. True) (\<lambda>(ret, f', st'). retval ret \<noteq> - 2) (do_file_recv os f ascii st)"
proof -
  have step: "wp (\<lambda>_. True) (\<lambda>c. case c of Again _ \<Rightarrow> True | Done (ret, f', w') \<Rightarrow> retval ret \<noteq> - 2)
      (recv_step os ascii sk (a, b, k, g, v))" for sk a b k g v
  proof -
    obtain rc bytes w where r: "apr_socket_recv os sk VSFTP_DATA_BUFSIZE v = (rc, bytes, w)"
      by (cases "apr_socket_recv os sk VSFTP_DATA_BUFSIZE v") auto
    have "rc = APR_SUCCESS \<or> rc = APR_EOF" using smooth_networkD(3) [OF assms r] by simp
    then show ?thesis
      unfolding recv_step_def prod.case r
      by (auto simp: Let_def intro!: wp_any [where m = "lfd_ascii_ascii_to_bin a b c" for a b c]
          wp_any [where m = "lkl_file_write_full a b c d e" for a b c d e])
  qed
  show ?thesis
    unfolding do_file_recv_def
    by (auto split: option.splits intro!: wp_mono [OF wp_run_loop [where I = "\<lambda>_. True"
      and E = "\<lambda>_. True" and Q = "\<lambda>(ret, f', w'). retval ret \<noteq> - 2"]])
      (use step in \<open>force split: ctl.splits\<close>)+
qed

section \<open>Uploading\<close>

text \<open>
  What a transfer has nothing to do with is as before. When it was completed, moreover, the session goes
  on and the last reply is 226.
\<close>

definition untouched :: "('w \<Rightarrow> 'b) \<Rightarrow> 'w st \<Rightarrow> 'w st \<Rightarrow> bool" where
  "untouched h st st' \<longleftrightarrow> h (world st') = h (world st) \<and> cwd_path st' = cwd_path st"

definition completed :: "('w \<Rightarrow> 'b) \<Rightarrow> 'w st \<Rightarrow> int \<Rightarrow> 'w st \<Rightarrow> bool" where
  "completed h st rc st' \<longleftrightarrow> rc = APR_SUCCESS \<and> reply_code (last (replies st')) = 226 \<and> untouched h st st'"

text \<open>From the data connection on.\<close>

lemma wp_upload_rest:
  assumes "control_keeps os (comm_sock st) (\<lambda>w. (log w, incoming w))" and "printf_doc (apr_pvsprintf os)"
    and "env_doc os" and "plain_handle f" and "pasv_listen_fd st \<noteq> None \<or> p_port_sockaddr st \<noteq> None" and "exclusive st"
    and "data_sock (data_conn st) = None" and "is_ascii st = 0"
    and "kernel_writes os (filedes f) log \<mu>" and "\<And>sk. sk \<noteq> comm_sock st \<Longrightarrow> socket_recvs os sk incoming"
    and "recvs_keep os log" and "writes_keep os incoming" and "upload_keeps os (comm_sock st) h" and "resolver_doc os"
    and "CHR ''%'' \<notin> set msg"
  shows "wp (\<lambda>_. False) (\<lambda>(rc, st'). untouched h st st' \<and> (reply_code (last (replies st')) = 226 \<longrightarrow>
        log (world st') = log (world st) @ incoming (world st))
      \<and> (smooth_network os \<longrightarrow> completed h st rc st'))
    (bnd (lfd_get_remote_transfer_fd os msg st) (\<lambda>(remote_fd, st).
            if remote_fd = None then Inr (APR_EINVAL, st)
            else
              bnd (do_file_recv os f (is_ascii st \<noteq> 0) st) (\<lambda>(ret, file, st).
              bnd (lfd_dispose_transfer_fd os st) (\<lambda>st.
                bnd (transfer_reply os ''Failure writing to local file.''
                      ''Failure reading network stream.'' ''File receive OK.'' ret
                      (st\<lparr>data_conn := (data_conn st)\<lparr>transfer_size := transferred ret\<rparr>\<rparr>)) (\<lambda>(_, st).
                  finish_transfer os file st)))))"
proof -
  let ?g = "\<lambda>w. ((log w, incoming w), h w)"
  have keeps: "control_keeps os (comm_sock st) ?g"
    by (rule control_keeps_pair [OF assms(1)]) (use assms(13) in \<open>simp add: upload_keeps_def\<close>)
  show ?thesis
  proof (subst wp_bnd, rule wp_data_fd [OF keeps assms(2) _ assms(14) _ assms(6,5,7)], goal_cases)
    case (4 fd w')
    let ?st = "st\<lparr>data_conn := (data_conn st)\<lparr>abor_received := 0, data_sock := Some fd, in_progress := 0\<rparr>,
          world := w', replies := replies st @ [Reply 150 msg []]\<rparr>"
    have w': "log w' = log (world st)" "incoming w' = incoming (world st)" "h w' = h (world st)" using 4 by simp_all
    have ns: "\<not> buffered f" using assms(4) by (simp add: plain_handle_def)
    obtain ret f' st1 where r: "do_file_recv os f False ?st = Inr (ret, f', st1)"
      and st1: "st1 = ?st\<lparr>world := world st1\<rparr>"
      and done1: "retval ret = 0 \<longrightarrow> log (world st1) = log w' @ incoming w'" "retval ret = 0 \<or> retval ret = - 2"
      using wp_returns [OF recv_file_spec [of ?st fd f os log \<mu> incoming False, OF _ ns assms(9) assms(10) [OF 4(1)]
        assms(11,12)]] by (auto simp: converted_False split: if_splits)
    have smooth: "retval ret = 0" if "smooth_network os"
      using smooth_recv [OF that, of f False ?st] r done1(2) by simp
    have f': "plain_handle f'" using plain_recv [OF assms(4), of os False ?st] r by simp
    have h: "h (world st1) = h (world st)"
      using recv_frame [OF assms(13,4), of ?st fd False] 4(1) r w'(3) by simp
    have f1: "comm_sock st1 = comm_sock st" "data_sock (data_conn st1) \<noteq> None" "abor_received (data_conn st1) = 0"
      "cwd_path st1 = cwd_path st"
      by (subst st1, simp)+
    have "wp (\<lambda>_. False) (\<lambda>(rc, st'). untouched h st st' \<and> (reply_code (last (replies st')) = 226 \<longrightarrow>
          log (world st') = log (world st) @ incoming (world st))
        \<and> (smooth_network os \<longrightarrow> completed h st rc st'))
      (bnd (lfd_dispose_transfer_fd os st1) (\<lambda>st2.
         bnd (transfer_reply os ''Failure writing to local file.'' ''Failure reading network stream.''
            ''File receive OK.'' ret (st2\<lparr>data_conn := (data_conn st2)\<lparr>transfer_size := transferred ret\<rparr>\<rparr>))
          (\<lambda>(_, st). finish_transfer os f' st)))"
      by (rule wp_epilogue_keeps [where g = ?g and h = "\<lambda>d. d\<lparr>transfer_size := transferred ret\<rparr>"])
        (use assms(2,3) keeps f' f1 done1 smooth w' h in \<open>auto simp: outcome_def completed_def untouched_def\<close>)
    then show ?case
      using assms(8) by (simp add: r del: wp_bnd)
  qed (use assms(3,15) in \<open>auto simp: env_doc_def untouched_def\<close>)
qed

lemma wp_write_smooth:
  assumes "control_keeps os (comm_sock st) g" and "printf_doc (apr_pvsprintf os)" and "quiet_reply cmd msg"
    and "\<And>rc w'. g w' = g (world st) \<Longrightarrow> (smooth_network os \<longrightarrow> rc = APR_SUCCESS) \<Longrightarrow>
      Q (rc, st\<lparr>world := w', replies := replies st @ [Reply cmd msg args]\<rparr>)"
  shows "wp (\<lambda>_. False) Q (lfd_cmdio_write os cmd msg args st)"
proof -
  obtain buff where "apr_pvsprintf os (reply_format cmd msg) args = Some buff"
    using reply_plain [OF assms(2)] assms(3) unfolding quiet_reply_def by blast
  then show ?thesis
    using assms(4) control_keepsD(1) [OF assms(1)] smooth_networkD(2) [of os]
    by (auto simp: lfd_cmdio_write_def split: prod.splits)
qed

lemma wp_upload_connected:
  assumes "control_keeps os (comm_sock st) (\<lambda>w. (log w, incoming w))" and "printf_doc (apr_pvsprintf os)"
    and "env_doc os" and "plain_handle f" and "pasv_listen_fd st \<noteq> None \<or> p_port_sockaddr st \<noteq> None" and "exclusive st"
    and "data_sock (data_conn st) = None" and "is_ascii st = 0"
    and "kernel_writes os (filedes f) log \<mu>" and "\<And>sk. sk \<noteq> comm_sock st \<Longrightarrow> socket_recvs os sk incoming"
    and "recvs_keep os log" and "writes_keep os incoming" and "upload_keeps os (comm_sock st) h" and "resolver_doc os"
    and "is_unique \<longrightarrow> CHR ''%'' \<notin> set path"
  shows "wp (\<lambda>_. False) (\<lambda>(rc, st'). untouched h st st' \<and> (reply_code (last (replies st')) = 226 \<longrightarrow>
        log (world st') = log (world st) @ incoming (world st))
      \<and> (smooth_network os \<longrightarrow> completed h st rc st'))
    (upload_opened os (Some path) is_unique f st)"
proof (cases is_unique)
  case False
  show ?thesis
    unfolding upload_opened_def Let_def if_not_P [OF False] bnd_Inr prod.case if_not_P [OF not_not [THEN iffD2, OF refl]]
    by (rule wp_upload_rest) (use assms in simp_all)
next
  case True
  let ?g = "\<lambda>w. ((log w, incoming w), h w)"
  have keeps: "control_keeps os (comm_sock st) ?g"
    by (rule control_keeps_pair [OF assms(1)]) (use assms(13) in \<open>simp add: upload_keeps_def\<close>)
  have plain: "quiet_reply FTP_DATACONN (''FILE: '' @ path)"
    using assms(15) True by (simp add: quiet_reply_def FTP_DATACONN_def)
  show ?thesis
    unfolding upload_opened_def Let_def if_P [OF True] option.case
  proof (subst wp_bnd, rule wp_write_smooth [OF keeps assms(2) plain], goal_cases)
    case (1 rc w')
    let ?st = "st\<lparr>world := w', replies := replies st @ [Reply FTP_DATACONN (''FILE: '' @ path) []]\<rparr>"
    show ?case
    proof (cases "rc = APR_SUCCESS")
      case False
      with 1 show ?thesis by (auto simp: untouched_def FTP_DATACONN_def)
    next
      case True
      have "wp (\<lambda>_. False) (\<lambda>(rc, st'). untouched h ?st st' \<and> (reply_code (last (replies st')) = 226 \<longrightarrow>
            log (world st') = log (world ?st) @ incoming (world ?st))
          \<and> (smooth_network os \<longrightarrow> completed h ?st rc st'))
        (bnd (lfd_get_remote_transfer_fd os (''FILE: '' @ path) ?st) (\<lambda>(remote_fd, st).
            if remote_fd = None then Inr (APR_EINVAL, st)
            else
              bnd (do_file_recv os f (is_ascii st \<noteq> 0) st) (\<lambda>(ret, file, st).
              bnd (lfd_dispose_transfer_fd os st) (\<lambda>st.
                bnd (transfer_reply os ''Failure writing to local file.''
                      ''Failure reading network stream.'' ''File receive OK.'' ret
                      (st\<lparr>data_conn := (data_conn st)\<lparr>transfer_size := transferred ret\<rparr>\<rparr>)) (\<lambda>(_, st).
                  finish_transfer os file st)))))"
        by (rule wp_upload_rest) (use assms \<open>is_unique\<close> in \<open>simp_all add: exclusive_def\<close>)
      then show ?thesis
        unfolding prod.case True if_not_P [OF not_not [THEN iffD2, OF refl]]
        by (rule wp_mono) (use 1 in \<open>auto simp: untouched_def completed_def\<close>)
    qed
  qed
qed

text \<open>How the file is opened: STOR truncates it, APPE does not.\<close>

definition upload_oflags :: "bool \<Rightarrow> flags" where
  "upload_oflags is_append = O_WRONLY OR O_CREAT OR O_APPEND OR (if is_append then 0 else O_TRUNC) OR O_LARGEFILE"

lemma upload_flags:
  "open_oflags (if is_append then UPLOAD_FLAGS else UPLOAD_FLAGS OR APR_TRUNCATE) = Some (upload_oflags is_append)"
  "(if is_append then UPLOAD_FLAGS else UPLOAD_FLAGS OR APR_TRUNCATE) AND APR_DELONCLOSE = 0"
  "(if is_append then UPLOAD_FLAGS else UPLOAD_FLAGS OR APR_TRUNCATE) AND APR_BUFFERED = 0"
  "(if is_append then UPLOAD_FLAGS else UPLOAD_FLAGS OR APR_TRUNCATE) AND APR_FILE_NOCLEANUP = 0"
  by (simp_all add: open_oflags_def UPLOAD_FLAGS_def upload_oflags_def apr_open_defs Let_def or.assoc)

lemma upload_works:
  assumes "wf_sess st" and "pasv_listen_fd st \<noteq> None \<or> p_port_sockaddr st \<noteq> None" and "ftp_arg_str st = Some a"
    and "get_abs_path (Some a) st = Some p"
    and "lkl_sys_open os (Some q) (upload_oflags is_append) 0x1B6 w0 = (fd, w1)"
    and "log w1 = old" and "incoming w1 = incoming (world st)"
    and "control_keeps os (comm_sock st) (\<lambda>w. (log w, incoming w))" and "printf_doc (apr_pvsprintf os)"
    and "env_doc os" and "kernel_writes os fd log \<mu>"
    and "\<forall>sk. sk \<noteq> comm_sock st \<longrightarrow> socket_recvs os sk incoming"
    and "recvs_keep os log" and "writes_keep os incoming"
    and "upload_keeps os (comm_sock st) h" and "h w1 = h (world st)" and "resolver_doc os"
    and "(if is_unique then get_unique_filename os (Some p) (world st) else Inr (Some p, world st)) = Inr (Some q, w0)"
    and "is_unique \<longrightarrow> CHR ''%'' \<notin> set q"
  shows "\<exists>rc st'. handle_upload_common os is_append is_unique st = Inr (rc, st') \<and> untouched h st st'
    \<and> (reply_code (last (replies st')) = 226 \<longrightarrow> log (world st') = old @ incoming (world st))
    \<and> (0 \<le> fd \<and> smooth_network os \<longrightarrow> completed h st rc st')"
proof -
  let ?g = "\<lambda>w. (log w, incoming w)"
  let ?fl = "if is_append then UPLOAD_FLAGS else UPLOAD_FLAGS OR APR_TRUNCATE"
  have h: "control_keeps os (comm_sock st) h" using assms(15) by (simp add: upload_keeps_def)
  have wf: "restart_pos st = 0" "st\<lparr>restart_pos := 0\<rparr> = st" "is_ascii st = 0" "exclusive st"
    "data_sock (data_conn st) = None"
    using assms(1) by (simp_all add: sess_defs)
  have checks: "data_transfer_checks_ok os st = Inr (True, st)"
    using active_one [of st] assms(2) wf(4) by (auto simp: data_transfer_checks_ok_def exclusive_def)
  have name: "is_unique \<Longrightarrow> get_unique_filename os (Some p) (world st) = Inr (Some q, w0)"
    "\<not> is_unique \<Longrightarrow> q = p \<and> w0 = world st"
    using assms(18) by (simp_all split: if_splits)
  show ?thesis
  proof (cases "fd < 0")
    case True
    have "lkl_file_open os (Some q) ?fl APR_OS_DEFAULT w0 = (APR_EINVAL, None, w1)"
      using True assms(5) by (simp add: lkl_file_open_def upload_flags del: if_split)
    then have "wp (\<lambda>_. False) (\<lambda>(rc, st'). untouched h st st'
          \<and> (reply_code (last (replies st')) = 226 \<longrightarrow> log (world st') = old @ incoming (world st)))
        (handle_upload_common os is_append is_unique st)"
      using assms(3,4,9,16) h
      by (cases is_unique; cases is_append)
        (auto simp: handle_upload_common_def wf checks Let_def name FTP_UPLOADFAIL_def quiet_reply_def untouched_def
          intro!: wp_write_keeps [where g = h])
    from wp_returns [OF this] True show ?thesis by auto
  next
    case False
    define f where "f = \<lparr>filedes = fd, fname = Some q, fflags = ?fl, eof_hit = 0,
      is_pipe = 0, timeout = - 1, buffered = False, blocking = BLK_ON, ungetchar = - 1, fbuffer = [], bufpos = 0,
      dataRead = 0, direction = 0, filePtr = 0, thlock = False\<rparr>"
    let ?w = "apr_pool_cleanup_register os fd w1" and ?st = "st\<lparr>world := apr_pool_cleanup_register os fd w1\<rparr>"
    have "lkl_file_open os (Some q) ?fl APR_OS_DEFAULT w0 = (APR_SUCCESS, Some f, ?w)"
      using False assms(5) by (simp add: lkl_file_open_def upload_flags f_def Let_def del: if_split)
    then have stor: "handle_upload_common os is_append is_unique st = upload_opened os (Some q) is_unique f ?st"
      using assms(3,4)
      by (cases is_unique; cases is_append) (auto simp: handle_upload_common_def wf checks Let_def name)
    have w: "log ?w = old" "incoming ?w = incoming (world st)"
      using control_keepsD(7) [OF assms(8), of fd w1] assms(6,7) by simp_all
    have same: "completed h ?st rc st' = completed h st rc st'" "untouched h ?st st' = untouched h st st'" for rc st'
      using control_keepsD(7) [OF h, of fd w1] assms(16) by (simp_all add: completed_def untouched_def)
    have f: "plain_handle f" "filedes f = fd"
      by (simp_all add: f_def plain_handle_def upload_flags del: if_split)
    have "wp (\<lambda>_. False) (\<lambda>(rc, st'). untouched h ?st st' \<and> (reply_code (last (replies st')) = 226 \<longrightarrow>
          log (world st') = log (world ?st) @ incoming (world ?st))
        \<and> (smooth_network os \<longrightarrow> completed h ?st rc st')) (upload_opened os (Some q) is_unique f ?st)"
      by (rule wp_upload_connected) (use assms wf f in \<open>simp_all add: exclusive_def\<close>)
    from wp_returns [OF this] show ?thesis unfolding stor by (auto simp: w same)
  qed
qed

lemma stor_works:
  assumes "wf_sess st" and "pasv_listen_fd st \<noteq> None \<or> p_port_sockaddr st \<noteq> None" and "ftp_arg_str st = Some a"
    and "get_abs_path (Some a) st = Some p"
    and "lkl_sys_open os (Some p) (O_WRONLY OR O_CREAT OR O_APPEND OR O_TRUNC OR O_LARGEFILE) 0x1B6 (world st) = (fd, w1)"
    and "log w1 = []" and "incoming w1 = incoming (world st)"
    and "control_keeps os (comm_sock st) (\<lambda>w. (log w, incoming w))" and "printf_doc (apr_pvsprintf os)"
    and "env_doc os" and "kernel_writes os fd log \<mu>"
    and "\<forall>sk. sk \<noteq> comm_sock st \<longrightarrow> socket_recvs os sk incoming"
    and "recvs_keep os log" and "writes_keep os incoming"
    and "upload_keeps os (comm_sock st) h" and "h w1 = h (world st)" and "resolver_doc os"
  shows "\<exists>rc st'. handle_stor os st = Inr (rc, st') \<and> untouched h st st'
    \<and> (reply_code (last (replies st')) = 226 \<longrightarrow> log (world st') = incoming (world st))
    \<and> (0 \<le> fd \<and> smooth_network os \<longrightarrow> completed h st rc st')"
proof -
  have "lkl_sys_open os (Some p) (upload_oflags False) 0x1B6 (world st) = (fd, w1)"
    using assms(5) by (simp add: upload_oflags_def)
  from upload_works [OF assms(1-4) this assms(6-17), where is_unique = False] show ?thesis by (simp add: handle_stor_def)
qed

text \<open>
  C2. STOR with a path, after PORT or PASV, as long as no write to the file fails, though writes may be short
  or interrupted a bounded number of times: the handler returns, and when its last reply is 226 the file, which
  the kernel truncated when it opened it, is exactly the stream that the client sent. When the file can
  be opened and the network does not fail, the last reply is 226 and the session goes on.
\<close>
theorem stor_226_means_stored:
  assumes "wf_sess st" and "pasv_listen_fd st \<noteq> None \<or> p_port_sockaddr st \<noteq> None" and "ftp_arg_str st = Some a"
    and "get_abs_path (Some a) st = Some p"
    and "lkl_sys_open os (Some p) (O_WRONLY OR O_CREAT OR O_APPEND OR O_TRUNC OR O_LARGEFILE) 0x1B6 (world st) = (fd, w1)"
    and "log w1 = []" and "incoming w1 = incoming (world st)"
    and "control_keeps os (comm_sock st) (\<lambda>w. (log w, incoming w))" and "printf_doc (apr_pvsprintf os)"
    and "env_doc os" and "kernel_writes os fd log \<mu>"
    and "\<forall>sk. sk \<noteq> comm_sock st \<longrightarrow> socket_recvs os sk incoming"
    and "recvs_keep os log" and "writes_keep os incoming" and "resolver_doc os"
  shows "\<exists>rc st'. handle_stor os st = Inr (rc, st')
    \<and> (reply_code (last (replies st')) = 226 \<longrightarrow> log (world st') = incoming (world st))
    \<and> (0 \<le> fd \<and> smooth_network os \<longrightarrow> rc = APR_SUCCESS \<and> reply_code (last (replies st')) = 226)"
  using stor_works [OF assms(1-14) keeps_nothing(1) [OF assms(8)] refl assms(15)] unfolding completed_def by blast

text \<open>
  C3. APPE with a path, after PORT or PASV, as long as no write to the file fails, though writes may be short
  or interrupted a bounded number of times: the handler returns, and when its last reply is 226 the stream that
  the client sent stands behind what the file held before. When the file can be opened and the network does not
  fail, the last reply is 226 and the session goes on.
\<close>
theorem appe_226_means_appended:
  assumes "wf_sess st" and "pasv_listen_fd st \<noteq> None \<or> p_port_sockaddr st \<noteq> None" and "ftp_arg_str st = Some a"
    and "get_abs_path (Some a) st = Some p"
    and "lkl_sys_open os (Some p) (O_WRONLY OR O_CREAT OR O_APPEND OR O_LARGEFILE) 0x1B6 (world st) = (fd, w1)"
    and "log w1 = old" and "incoming w1 = incoming (world st)"
    and "control_keeps os (comm_sock st) (\<lambda>w. (log w, incoming w))" and "printf_doc (apr_pvsprintf os)"
    and "env_doc os" and "kernel_writes os fd log \<mu>"
    and "\<forall>sk. sk \<noteq> comm_sock st \<longrightarrow> socket_recvs os sk incoming"
    and "recvs_keep os log" and "writes_keep os incoming" and "resolver_doc os"
  shows "\<exists>rc st'. handle_appe os st = Inr (rc, st')
    \<and> (reply_code (last (replies st')) = 226 \<longrightarrow> log (world st') = old @ incoming (world st))
    \<and> (0 \<le> fd \<and> smooth_network os \<longrightarrow> rc = APR_SUCCESS \<and> reply_code (last (replies st')) = 226)"
proof -
  have "lkl_sys_open os (Some p) (upload_oflags True) 0x1B6 (world st) = (fd, w1)"
    using assms(5) by (simp add: upload_oflags_def)
  from upload_works [OF assms(1-4) this assms(6-14) keeps_nothing(1) [OF assms(8)] refl assms(15),
      where is_unique = False] show ?thesis
    unfolding handle_appe_def completed_def by (simp only: if_False simp_thms) blast
qed

section \<open>Downloading\<close>

lemma retr_flags:
  "open_oflags RETR_FLAGS = Some (O_RDONLY OR O_LARGEFILE)" "RETR_FLAGS AND APR_DELONCLOSE = 0"
  "RETR_FLAGS AND APR_BUFFERED = 0" "RETR_FLAGS AND APR_FILE_NOCLEANUP = 0" "lkl_unix_perms2mode 0 = 0"
  "APR_OS_DEFAULT \<noteq> 0"
  by (simp_all add: open_oflags_def RETR_FLAGS_def apr_open_defs Let_def lkl_unix_perms2mode_def or_if_def)

lemma dec_nat_plain: "CHR ''%'' \<notin> set (dec_nat n)"
proof
  assume "CHR ''%'' \<in> set (dec_nat n)"
  from dec_nat_digits [OF this] show False by (simp add: is_digit_def)
qed

lemma wp_file_reply:
  assumes "control_keeps os (comm_sock st) g" and "printf_doc (apr_pvsprintf os)" and "env_doc os"
    and "plain_handle f" and "quiet_reply cmd msg" and "cmd \<noteq> 226"
  shows "wp (\<lambda>_. False) (\<lambda>(rc, st'). untouched g st st' \<and> reply_code (last (replies st')) \<noteq> 226)
    (bnd (lfd_cmdio_write os cmd msg [] st) (\<lambda>(_, st). bnd (lkl_file_close os f (world st)) (\<lambda>(_, w).
       Inr (rc, st\<lparr>world := w\<rparr>))))"
  unfolding wp_bnd
  by (rule wp_write_keeps [OF assms(1,2,5)], simp only: prod.case, subst wp_bnd,
      rule wp_close_keeps [OF assms(1,3,4)]) (use assms(6) in \<open>simp_all add: untouched_def\<close>)

lemma wp_retr_connected:
  assumes "control_keeps os (comm_sock st) (\<lambda>w. (rest w, sent w))" and "printf_doc (apr_pvsprintf os)"
    and "env_doc os" and "plain_handle f" and "ungetchar f = - 1" and "pasv_listen_fd st \<noteq> None \<or> p_port_sockaddr st \<noteq> None"
    and "exclusive st"
    and "data_sock (data_conn st) = None" and "is_ascii st = 0" and "CHR ''%'' \<notin> set p"
    and "kernel_reads os (filedes f) rest \<mu>" and "\<And>sk. sk \<noteq> comm_sock st \<Longrightarrow> socket_sends os sk sent"
    and "reads_keep os sent" and "sends_keep os rest"
    and "download_keeps os (comm_sock st) h" and "resolver_doc os"
  shows "wp (\<lambda>_. False) (\<lambda>(rc, st'). untouched h st st' \<and> (reply_code (last (replies st')) = 226 \<longrightarrow>
        sent (world st') = sent (world st) @ rest (world st))
      \<and> (smooth_network os \<and> smooth_reads os (Some p) \<longrightarrow> completed h st rc st'))
    (retr_opened os (Some p) 0 f st)"
proof -
  let ?g = "\<lambda>w. ((rest w, sent w), h w)"
  have keeps: "control_keeps os (comm_sock st) ?g"
    by (rule control_keeps_pair [OF assms(1)]) (use assms(15) in \<open>simp add: download_keeps_def\<close>)
  have h: "control_keeps os (comm_sock st) h" using assms(15) by (simp add: download_keeps_def)
  obtain krc info w where k: "lkl_sys_newstat os (Some p) (world st) = (krc, info, w)"
    by (cases "lkl_sys_newstat os (Some p) (world st)") auto
  have w: "?g w = ?g (world st)" by (rule control_keepsD(2) [OF keeps k])
  obtain rc fi where s: "lkl_stat os (stack_finfo os) (Some p) (APR_FINFO_TYPE OR APR_FINFO_SIZE) (world st) = (rc, fi, w)"
    using lkl_stat_type [OF k, of "APR_FINFO_TYPE OR APR_FINFO_SIZE" "stack_finfo os"]
    by (cases "krc = 0") simp_all
  let ?st = "st\<lparr>world := w\<rparr>"
  show ?thesis
  proof (cases "rc \<noteq> APR_SUCCESS \<or> fi_filetype fi \<noteq> APR_REG")
    case True
    have rough: "\<not> smooth_reads os (Some p)"
    proof
      assume "smooth_reads os (Some p)"
      then have "fst (lkl_sys_newstat os (Some p) (world st)) = 0"
        "filetype_from_mode (st_mode (fst (snd (lkl_sys_newstat os (Some p) (world st))))) = APR_REG"
        unfolding smooth_reads_def by blast+
      with k have "krc = 0" "filetype_from_mode (st_mode info) = APR_REG" by simp_all
      with True s lkl_stat_type [OF k, of "APR_FINFO_TYPE OR APR_FINFO_SIZE" "stack_finfo os"] show False
        by (auto simp: fill_out_finfo_def)
    qed
    show ?thesis
      unfolding retr_opened_def Let_def s prod.case if_P [OF True]
      by (rule wp_mono [OF wp_file_reply [where g = h and st = ?st]])
        (use assms(2-4) keeps w h rough in \<open>auto simp: quiet_reply_def FTP_FILEFAIL_def untouched_def\<close>)
  next
    case False
    define msg where "msg = ''Opening BINARY  mode data connection for  '' @ p @ ''  (  ''
      @ dec_nat (nat (fi_size fi mod 2 ^ 32)) @ ''  bytes).''"
    have m: "apr_pvsprintf os ''Opening %s %s %s %s %u %s'' [Str ''BINARY'', Str '' mode data connection for '',
        cstr_arg (Some p), Str '' ( '', Uns (nat (fi_size fi mod 2 ^ 32)), Str '' bytes).''] = Some msg"
      by (simp add: cstr_arg_def msg_def printf_docD(1,2,3,5) [OF assms(2)])
    have plain: "CHR ''%'' \<notin> set msg" using assms(10) dec_nat_plain by (simp add: msg_def)
    have "retr_opened os (Some p) 0 f st = bnd (lfd_get_remote_transfer_fd os msg ?st) (\<lambda>(remote_fd, st).
        if remote_fd = None then
          bnd (lkl_file_close os f (world (lfd_communication_cleanup os st))) (\<lambda>(_, w).
            Inr (APR_EINVAL, lfd_communication_cleanup os st\<lparr>world := w\<rparr>))
        else
          bnd (do_file_send_rwloop os f (is_ascii st \<noteq> 0) st) (\<lambda>(ret, file, st).
          bnd (lfd_dispose_transfer_fd os st) (\<lambda>st.
            bnd (transfer_reply os ''Failure reading local file.'' ''Failure writing network stream.''
              ''File send OK.'' ret st) (\<lambda>(_, st). finish_transfer os file st))))"
      using False m assms(9) by (simp add: retr_opened_def s Let_def)
    moreover have "wp (\<lambda>_. False) (\<lambda>(rc, st'). untouched h st st' \<and> (reply_code (last (replies st')) = 226 \<longrightarrow>
          sent (world st') = sent (world st) @ rest (world st))
        \<and> (smooth_network os \<and> smooth_reads os (Some p) \<longrightarrow> completed h st rc st')) \<dots>"
    proof (subst wp_bnd, rule wp_data_fd [where g = ?g], goal_cases)
      case (9 w' t)
      let ?st1 = "?st\<lparr>data_conn := (data_conn ?st)\<lparr>abor_received := 0\<rparr>, world := w',
        replies := replies ?st @ [Reply 425 t []]\<rparr>"
      obtain w2 where c: "lfd_communication_cleanup os ?st1
          = ?st1\<lparr>world := w2, p_port_sockaddr := None, pasv_listen_fd := None\<rparr>" "?g w2 = ?g (world ?st1)"
        using cleanup_keeps [OF keeps] by blast
      show ?case
        unfolding prod.case if_P [OF refl] c(1) wp_bnd
        by (rule wp_close_keeps [OF keeps assms(3,4)]) (use 9 w c(2) in \<open>auto simp: untouched_def\<close>)
    next
      case (10 fd w')
      let ?st1 = "?st\<lparr>data_conn := (data_conn ?st)\<lparr>abor_received := 0, data_sock := Some fd, in_progress := 0\<rparr>,
        world := w', replies := replies ?st @ [Reply 150 msg []]\<rparr>"
      have w': "rest w' = rest (world st)" "sent w' = sent (world st)" "h w' = h (world st)" using 10(2) w by simp_all
      have ns: "\<not> buffered f" using assms(4) by (simp add: plain_handle_def)
      have fd: "fd \<noteq> comm_sock st" using 10(1) by simp
      have stream: "rstream rest f w' = rest w'" using ns assms(5) by (simp add: rstream_def unget_char_def)
      obtain ret f' st2 where r: "do_file_send_rwloop os f False ?st1 = Inr (ret, f', st2)"
        and st2: "st2 = ?st1\<lparr>world := world st2\<rparr>" and code: "retval ret \<in> {0, - 1, - 2}"
        and done0: "retval ret = 0 \<longrightarrow> (\<exists>chs. concat chs = rest w'
          \<and> sent (world st2) = sent w' @ concat (map (wire False) chs))"
        using wp_returns [OF send_file_spec [of ?st1 fd f os rest \<mu> sent False, OF _ ns assms(11) assms(12) [OF fd]
          assms(13,14)]] by (fastforce simp: stream)
      have done1: "retval ret = 0 \<longrightarrow> sent (world st2) = sent w' @ rest w'"
      proof
        assume "retval ret = 0"
        with done0 obtain chs where "concat chs = rest w'" "sent (world st2) = sent w' @ concat (map (wire False) chs)"
          by blast
        then show "sent (world st2) = sent w' @ rest w'" by (simp add: wire_def map_idI)
      qed
      have smooth: "retval ret = 0" if "smooth_network os \<and> smooth_reads os (Some p)"
        using smooth_send [OF conjunct1 [OF that] _ ns, of False ?st1] r that by (simp add: smooth_reads_def)
      have f': "plain_handle f'" using plain_send [OF assms(4), of os False ?st1] r by simp
      have h: "h (world st2) = h (world st)"
        using send_frame [OF assms(15,4), of ?st1 fd False] fd r w'(3) by simp
      have f1: "comm_sock st2 = comm_sock st" "data_sock (data_conn st2) \<noteq> None" "abor_received (data_conn st2) = 0"
        "cwd_path st2 = cwd_path st"
        by (subst st2, simp)+
      have "wp (\<lambda>_. False) (\<lambda>(rc, st'). untouched h st st' \<and> (reply_code (last (replies st')) = 226 \<longrightarrow>
            sent (world st') = sent (world st) @ rest (world st))
          \<and> (smooth_network os \<and> smooth_reads os (Some p) \<longrightarrow> completed h st rc st'))
        (bnd (lfd_dispose_transfer_fd os st2) (\<lambda>st.
           bnd (transfer_reply os ''Failure reading local file.'' ''Failure writing network stream.''
              ''File send OK.'' ret (st\<lparr>data_conn := id (data_conn st)\<rparr>))
            (\<lambda>(_, st). finish_transfer os f' st)))"
        by (rule wp_epilogue_keeps [where g = ?g]) (use keeps assms(2,3) f' f1 done1 smooth code w' h in \<open>auto simp: outcome_def completed_def untouched_def\<close>)
      then show ?case
        using assms(9) r by (simp del: wp_bnd)
    qed (use assms keeps plain in \<open>simp_all add: env_doc_def exclusive_def\<close>)
    ultimately show ?thesis by simp
  qed
qed

lemma retr_works:
  assumes "wf_sess st" and "pasv_listen_fd st \<noteq> None \<or> p_port_sockaddr st \<noteq> None" and "ftp_arg_str st = Some a"
    and "get_abs_path (Some a) st = Some p" and "CHR ''%'' \<notin> set p"
    and "lkl_sys_open os (Some p) (O_RDONLY OR O_LARGEFILE) 0 (world st) = (fd, w1)"
    and "rest w1 = content" and "sent w1 = sent (world st)"
    and "control_keeps os (comm_sock st) (\<lambda>w. (rest w, sent w))" and "printf_doc (apr_pvsprintf os)"
    and "env_doc os" and "kernel_reads os fd rest \<mu>"
    and "\<forall>sk. sk \<noteq> comm_sock st \<longrightarrow> socket_sends os sk sent"
    and "reads_keep os sent" and "sends_keep os rest"
    and "download_keeps os (comm_sock st) h" and "h w1 = h (world st)" and "resolver_doc os"
  shows "\<exists>rc st'. handle_retr os st = Inr (rc, st') \<and> untouched h st st'
    \<and> (reply_code (last (replies st')) = 226 \<longrightarrow> sent (world st') = sent (world st) @ content)
    \<and> (0 \<le> fd \<and> smooth_network os \<and> smooth_reads os (Some p) \<longrightarrow> completed h st rc st')"
proof -
  let ?g = "\<lambda>w. (rest w, sent w)"
  have h: "control_keeps os (comm_sock st) h" using assms(16) by (simp add: download_keeps_def)
  have wf: "restart_pos st = 0" "st\<lparr>restart_pos := 0\<rparr> = st" "is_ascii st = 0" "exclusive st"
    "data_sock (data_conn st) = None"
    using assms(1) by (simp_all add: sess_defs)
  have checks: "data_transfer_checks_ok os st = Inr (True, st)"
    using active_one [of st] assms(2) wf(4) by (auto simp: data_transfer_checks_ok_def exclusive_def)
  show ?thesis
  proof (cases "fd < 0")
    case True
    have "lkl_file_open os (Some p) RETR_FLAGS 0 (world st) = (APR_EINVAL, None, w1)"
      using True assms(6) by (simp add: lkl_file_open_def retr_flags)
    then have "wp (\<lambda>_. False) (\<lambda>(rc, st'). untouched h st st' \<and> (reply_code (last (replies st')) = 226 \<longrightarrow>
        sent (world st') = sent (world st) @ content)) (handle_retr os st)"
      using assms(3,4,10,17) h
      by (auto simp: handle_retr_def wf checks Let_def FTP_FILEFAIL_def quiet_reply_def untouched_def
          intro!: wp_write_keeps [where g = h])
    from wp_returns [OF this] True show ?thesis by auto
  next
    case False
    define f where "f = \<lparr>filedes = fd, fname = Some p, fflags = RETR_FLAGS, eof_hit = 0,
      is_pipe = 0, timeout = - 1, buffered = False, blocking = BLK_ON, ungetchar = - 1, fbuffer = [], bufpos = 0,
      dataRead = 0, direction = 0, filePtr = 0, thlock = False\<rparr>"
    let ?w = "apr_pool_cleanup_register os fd w1" and ?st = "st\<lparr>world := apr_pool_cleanup_register os fd w1\<rparr>"
    have "lkl_file_open os (Some p) RETR_FLAGS 0 (world st) = (APR_SUCCESS, Some f, ?w)"
      using False assms(6) by (simp add: lkl_file_open_def retr_flags f_def Let_def)
    then have retr: "handle_retr os st = retr_opened os (Some p) 0 f ?st"
      using assms(3,4) by (simp add: handle_retr_def wf checks Let_def)
    have w: "rest ?w = content" "sent ?w = sent (world st)"
      using control_keepsD(7) [OF assms(9), of fd w1] assms(7,8) by simp_all
    have same: "completed h ?st rc st' = completed h st rc st'" "untouched h ?st st' = untouched h st st'" for rc st'
      using control_keepsD(7) [OF h, of fd w1] assms(17) by (simp_all add: completed_def untouched_def)
    have f: "plain_handle f" "filedes f = fd" "ungetchar f = - 1" by (simp_all add: f_def plain_handle_def retr_flags)
    have "wp (\<lambda>_. False) (\<lambda>(rc, st'). untouched h ?st st' \<and> (reply_code (last (replies st')) = 226 \<longrightarrow>
          sent (world st') = sent (world ?st) @ rest (world ?st))
        \<and> (smooth_network os \<and> smooth_reads os (Some p) \<longrightarrow> completed h ?st rc st')) (retr_opened os (Some p) 0 f ?st)"
      by (rule wp_retr_connected) (use assms wf f in \<open>simp_all add: exclusive_def\<close>)
    from wp_returns [OF this] show ?thesis unfolding retr by (auto simp: w same)
  qed
qed


end
