(* ===== verification/UniqueName.thy ===== *)
theory UniqueName
  imports Delivery
begin

text \<open>
  The file name that STOU invents, and what the client may conclude from 226 after STOU.
\<close>

section \<open>A free name\<close>

text \<open>A kernel whose \<open>stat\<close> succeeds exactly on the names of a set.\<close>

definition names_known :: "('w, 'z) server_scheme \<Rightarrow> string set \<Rightarrow> bool" where
  "names_known os N \<longleftrightarrow> (\<forall>p v. fst (lkl_sys_newstat os (Some p) v) = 0 \<longleftrightarrow> p \<in> N)"

definition numbered :: "string \<Rightarrow> nat \<Rightarrow> string" where
  "numbered base k = base @ ''.'' @ dec_nat k"

lemma stat_known:
  assumes "names_known os N"
  obtains rc fi v' where "lkl_stat os fi0 (Some p) APR_FINFO_TYPE v = (rc, fi, v')" "rc = 0 \<longleftrightarrow> p \<in> N"
proof -
  obtain krc info v' where k: "lkl_sys_newstat os (Some p) v = (krc, info, v')"
    by (cases "lkl_sys_newstat os (Some p) v") auto
  then have "krc = 0 \<longleftrightarrow> p \<in> N" using assms unfolding names_known_def by (metis fst_conv)
  with lkl_stat_type [OF k, of APR_FINFO_TYPE] that show thesis by (auto split: if_splits)
qed

lemma unique_step_known:
  assumes "printf_doc (apr_pvsprintf os)" and "names_known os N" and "i < 2 ^ 32"
  shows "\<exists>w'. unique_step os (Some base) (of_nat i, w) = Inr (if numbered base i \<in> N
    then Again (of_nat (Suc i), w') else Done (Some (numbered base i), w'))"
proof -
  have "unat (of_nat i :: 32 word) = i"
    using assms(3) by (simp add: unat_of_nat take_bit_eq_mod)
  then have name: "apr_pvsprintf os ''%s.%u'' [cstr_arg (Some base), Uns (unat (of_nat i :: 32 word))]
      = Some (numbered base i)"
    by (simp add: cstr_arg_def numbered_def printf_docD(1,2,3,5) [OF assms(1)])
  obtain rc fi w' where s: "lkl_stat os (stack_finfo os) (Some (numbered base i)) APR_FINFO_TYPE w = (rc, fi, w')"
    and rc: "rc = 0 \<longleftrightarrow> numbered base i \<in> N"
    by (rule stat_known [OF assms(2)])
  show ?thesis
    unfolding unique_step_def prod.case name option.case s using rc by (auto simp: add.commute)
qed

lemma unique_loop:
  assumes "printf_doc (apr_pvsprintf os)" and "names_known os N" and "numbered base k \<notin> N" and "k < 2 ^ 32"
  shows "i \<le> k \<Longrightarrow> \<forall>j. i \<le> j \<and> j < k \<longrightarrow> numbered base j \<in> N \<Longrightarrow>
    \<exists>w'. run_loop (unique_step os (Some base)) (of_nat i, w) = Inr (Some (numbered base k), w')"
proof (induction "k - i" arbitrary: i w)
  case 0
  with unique_step_known [OF assms(1,2,4), of base w] assms(3) show ?case
    by (auto simp: run_loop_Done)
next
  case (Suc n)
  then have i: "i < k" "numbered base i \<in> N" by auto
  obtain w1 where step: "unique_step os (Some base) (of_nat i, w) = Inr (Again (of_nat (Suc i), w1))"
    using unique_step_known [OF assms(1,2), of i base w] assms(4) i by auto
  have "\<exists>w'. run_loop (unique_step os (Some base)) (of_nat (Suc i), w1) = Inr (Some (numbered base k), w')"
    by (rule Suc.hyps(1)) (use Suc.hyps(2) Suc.prems i in auto)
  with step show ?case by (simp only: run_loop_Again)
qed

text \<open>
  C37. When the name that STOU is given is taken, it picks the first of \<open>name.1\<close>, \<open>name.2\<close> and so on that the
  kernel does not know: with a free one below 2 ^ 32 the search ends there.
\<close>
theorem unique_name_is_first_free:
  assumes "printf_doc (apr_pvsprintf os)" and "names_known os N" and "base \<in> N"
    and "1 \<le> k" and "k < 2 ^ 32" and "numbered base k \<notin> N"
    and "\<forall>j. 1 \<le> j \<and> j < k \<longrightarrow> numbered base j \<in> N"
  shows "\<exists>w'. get_unique_filename os (Some base) w = Inr (Some (base @ ''.'' @ dec_nat k), w')"
proof -
  obtain rc fi w1 where s: "lkl_stat os (stack_finfo os) (Some base) APR_FINFO_TYPE w = (rc, fi, w1)"
    and rc: "rc = 0 \<longleftrightarrow> base \<in> N"
    by (rule stat_known [OF assms(2)])
  from unique_loop [OF assms(1,2,6,5,4,7), of w1] s rc assms(3) show ?thesis
    by (simp add: get_unique_filename_def numbered_def)
qed

section \<open>What 226 means after STOU\<close>

text \<open>The name that the search ends with.\<close>

definition first_free :: "string set \<Rightarrow> string \<Rightarrow> string \<Rightarrow> bool" where
  "first_free N base q \<longleftrightarrow>
     (if base \<in> N then \<exists>k. 1 \<le> k \<and> k < 2 ^ 32 \<and> q = numbered base k \<and> q \<notin> N
        \<and> (\<forall>j. 1 \<le> j \<and> j < k \<longrightarrow> numbered base j \<in> N)
      else q = base)"

lemma unique_finds:
  assumes "printf_doc (apr_pvsprintf os)" and "names_known os N" and "first_free N base q"
  shows "\<exists>w'. get_unique_filename os (Some base) w = Inr (Some q, w')"
proof -
  obtain rc fi w1 where s: "lkl_stat os (stack_finfo os) (Some base) APR_FINFO_TYPE w = (rc, fi, w1)"
    and rc: "rc = 0 \<longleftrightarrow> base \<in> N"
    by (rule stat_known [OF assms(2)])
  show ?thesis
  proof (cases "base \<in> N")
    case False
    with s rc assms(3) show ?thesis by (simp add: get_unique_filename_def first_free_def)
  next
    case True
    with assms(3) obtain k where k: "1 \<le> k" "k < 2 ^ 32" "q = numbered base k" "numbered base k \<notin> N"
      "\<forall>j. 1 \<le> j \<and> j < k \<longrightarrow> numbered base j \<in> N" by (auto simp: first_free_def)
    from unique_loop [OF assms(1,2) k(4,2,1,5), of w1] s rc True k(3) show ?thesis
      by (simp add: get_unique_filename_def)
  qed
qed

lemma stat_keeps:
  assumes "control_keeps os c g" and "lkl_stat os fi p APR_FINFO_TYPE w = (rc, fi', w')"
  shows "g w' = g w"
proof -
  obtain krc info v where k: "lkl_sys_newstat os p w = (krc, info, v)"
    by (cases "lkl_sys_newstat os p w") auto
  have "g v = g w" by (rule control_keepsD(2) [OF assms(1) k])
  moreover have "w' = v"
    using assms(2) k by (auto simp: lkl_stat_def Let_def finfo_defs split: if_splits prod.splits)
  ultimately show ?thesis by simp
qed

lemma unique_keeps:
  assumes "control_keeps os c g"
  shows "wp (\<lambda>_. True) (\<lambda>(name, w'). g w' = g w) (get_unique_filename os base w)"
proof -
  have "wp (\<lambda>_. True) (\<lambda>(name, w'). g w' = g w) (run_loop (unique_step os base) (i, v))" if "g v = g w" for i v
    by (rule wp_run_loop [where I = "\<lambda>(i, v). g v = g w"])
      (use that in \<open>auto simp: unique_step_def dest: stat_keeps [OF assms] split: prod.splits option.splits\<close>)
  then show ?thesis
    by (auto simp: get_unique_filename_def dest: stat_keeps [OF assms] split: prod.splits)
qed

text \<open>
  C4. STOU with a path that has no percent sign, after PORT or PASV, when one of its names up to the number
  2 ^ 32 - 1 is free and no write to the file fails, though writes may be short or interrupted a bounded number
  of times: the handler returns, and when its last reply is 226 the file with the first free name, which the
  kernel truncated when it opened it, is exactly the stream that the client sent. When the file can be opened
  and the network does not fail, the last reply is 226 and the session goes on.
\<close>
theorem stou_226_means_stored:
  assumes "wf_sess st" and "pasv_listen_fd st \<noteq> None \<or> p_port_sockaddr st \<noteq> None" and "ftp_arg_str st = Some a"
    and "get_abs_path (Some a) st = Some p" and "CHR ''%'' \<notin> set p"
    and "names_known os N" and "first_free N p q"
    and "\<And>w fd' w'. lkl_sys_open os (Some q) (O_WRONLY OR O_CREAT OR O_APPEND OR O_TRUNC OR O_LARGEFILE) 0x1B6 w
      = (fd', w') \<Longrightarrow> fd' = fd \<and> log w' = [] \<and> incoming w' = incoming w"
    and "control_keeps os (comm_sock st) (\<lambda>w. (log w, incoming w))" and "printf_doc (apr_pvsprintf os)"
    and "env_doc os" and "kernel_writes os fd log \<mu>"
    and "\<forall>sk. sk \<noteq> comm_sock st \<longrightarrow> socket_recvs os sk incoming"
    and "recvs_keep os log" and "writes_keep os incoming" and "resolver_doc os"
  shows "\<exists>rc st'. handle_stou os st = Inr (rc, st')
    \<and> (reply_code (last (replies st')) = 226 \<longrightarrow> log (world st') = incoming (world st))
    \<and> (0 \<le> fd \<and> smooth_network os \<longrightarrow> rc = APR_SUCCESS \<and> reply_code (last (replies st')) = 226)"
proof -
  obtain w0 where w0: "get_unique_filename os (Some p) (world st) = Inr (Some q, w0)"
    using unique_finds [OF assms(10,6,7)] by blast
  with unique_keeps [OF assms(9), of "world st" "Some p"] have "incoming w0 = incoming (world st)" by simp
  moreover obtain fd' w1 where o: "lkl_sys_open os (Some q) (upload_oflags False) 0x1B6 w0 = (fd', w1)"
    by (cases "lkl_sys_open os (Some q) (upload_oflags False) 0x1B6 w0") auto
  moreover from o assms(8) [of w0] have "fd' = fd" "log w1 = []" "incoming w1 = incoming w0"
    by (simp_all add: upload_oflags_def)
  moreover have "CHR ''%'' \<notin> set q"
    using assms(5,7) dec_nat_plain by (auto simp: first_free_def numbered_def split: if_splits)
  ultimately show ?thesis
    using upload_works [OF assms(1-4), of os q False w0 fd w1 log "[]" incoming \<mu> "\<lambda>_. ()" True] assms(9-16)
      keeps_nothing(1) [OF assms(9)] w0
    unfolding handle_stou_def completed_def by auto
qed

end
