(* ===== verification/FileLocks.thy ===== *)
theory FileLocks
  imports FileContracts
begin

text \<open>
  The mutex of a buffered handle: each operation takes it once, does all its input and output while it
  holds it, and gives it back on every path.
\<close>

section \<open>Watching the mutex\<close>

text \<open>
  An observer of the mutex: it is free, \<open>Some False\<close>, or held, \<open>Some True\<close>, or was misused, \<open>None\<close>: taken
  while it was held, which for APR's default mutex is a deadlock, given back while it was free, or not held
  during a system call on the file.
\<close>

definition watched :: "('w, 'z) lkl_scheme \<Rightarrow> ('w \<Rightarrow> bool option) \<Rightarrow> bool" where
  "watched os mutex \<longleftrightarrow>
     (\<forall>w. mutex (snd (apr_thread_mutex_lock os w)) = (if mutex w = Some False then Some True else None))
   \<and> (\<forall>w. mutex (snd (apr_thread_mutex_unlock os w)) = (if mutex w = Some True then Some False else None))
   \<and> (\<forall>fd bytes w. mutex (snd (lkl_sys_write os fd bytes w)) = (if mutex w = Some True then Some True else None))
   \<and> (\<forall>fd n w. mutex (snd (snd (lkl_sys_read os fd n w))) = (if mutex w = Some True then Some True else None))
   \<and> (\<forall>fd pos from w. mutex (snd (lkl_sys_lseek os fd pos from w)) = (if mutex w = Some True then Some True else None))
   \<and> (\<forall>fd w. mutex (snd (snd (lkl_sys_newfstat os fd w))) = (if mutex w = Some True then Some True else None))"

abbreviation held :: "('w \<Rightarrow> bool option) \<Rightarrow> lkl_file \<Rightarrow> 'w \<Rightarrow> bool" where
  "held mutex f w \<equiv> thlock f \<and> mutex w = Some True"

lemma watchedD:
  assumes "watched os mutex" and "mutex w = Some True"
  shows "lkl_sys_write os fd bytes w = (r, w1) \<Longrightarrow> mutex w1 = Some True"
    and "lkl_sys_read os fd n w = (r, bs, w1) \<Longrightarrow> mutex w1 = Some True"
    and "lkl_sys_lseek os fd pos from w = (r, w1) \<Longrightarrow> mutex w1 = Some True"
    and "lkl_sys_newfstat os fd w = (r, info, w1) \<Longrightarrow> mutex w1 = Some True"
  using assms unfolding watched_def by (metis snd_conv)+

lemma watched_lock:
  assumes "watched os mutex" and "mutex w = Some False" and "thlock f"
  shows "held mutex f (file_lock os f w)"
  using assms by (simp add: watched_def file_lock_def)

lemma watched_unlock:
  assumes "watched os mutex" and "held mutex f w"
  shows "mutex (file_unlock os f w) = Some False"
  using assms by (simp add: watched_def file_unlock_def)

section \<open>The parts that run under the mutex\<close>

lemma held_flush:
  assumes "watched os mutex" and "held mutex f w"
  shows "wp (\<lambda>_. True) (\<lambda>(rv, f', w'). held mutex f' w') (lkl_file_flush_locked os f w)"
proof -
  have out: "wp (\<lambda>_. True) (\<lambda>(written, w'). mutex w' = Some True)
      (eintr_loop (lkl_sys_write os (filedes f) bytes) id w)" for bytes
    by (rule wp_eintr_loop [where J = "\<lambda>w. mutex w = Some True"])
      (use assms watchedD(1) [OF assms(1)] in auto)
  with assms(2) show ?thesis
    by (auto simp: lkl_file_flush_locked_def slice_def intro!: wp_mono [OF out])
qed

lemma held_read:
  assumes "watched os mutex" and "held mutex f w"
  shows "wp (\<lambda>_. True) (\<lambda>(rv, n, bytes, f', w'). held mutex f' w') (file_read_buffered os f k w)"
proof -
  have loop: "wp (\<lambda>_. True) (\<lambda>(rv, out, f', w'). held mutex f' w')
      (run_loop (read_buffered_step os) (out, size, g, v))" if "held mutex g v" for out size g v
  proof (rule wp_run_loop [where I = "\<lambda>(out, size, g, v). held mutex g v"], goal_cases)
    case (3 t)
    then show ?case
      using watchedD(2) [OF assms(1)]
      by (cases t) (auto simp: read_buffered_step_def Let_def slice_def split: prod.splits)
  qed (use that in simp_all)
  have "wp (\<lambda>_. True) (\<lambda>(rv, g, v). held mutex g v)
      (if direction f = 1 then
         bnd (lkl_file_flush_locked os f w) (\<lambda>(rv, thefile, w).
           if rv \<noteq> APR_SUCCESS then Inr (rv, thefile, w)
           else Inr (rv, thefile\<lparr>bufpos := 0, direction := 0, dataRead := 0\<rparr>, w))
       else Inr (APR_SUCCESS, f, w))"
    using assms(2) by (auto intro!: wp_mono [OF held_flush [OF assms]])
  then show ?thesis
    unfolding file_read_buffered_def by (subst wp_bnd) (auto elim!: wp_mono intro!: wp_mono [OF loop])
qed

lemma held_setptr:
  assumes "watched os mutex" and "held mutex f w"
  shows "wp (\<lambda>_. True) (\<lambda>(rv, f', w'). held mutex f' w') (setptr os f pos w)"
  using assms(2) watchedD(3) [OF assms(1)] unfolding setptr_def
  by (auto simp: Let_def split: prod.splits intro!: wp_mono [OF held_flush [OF assms]])

lemma held_info:
  assumes "watched os mutex" and "held mutex f w"
  shows "wp (\<lambda>_. True) (\<lambda>(rv, fi, f', w'). held mutex f' w') (lkl_file_info_get_locked os finfo wanted f w)"
  using assms(2) watchedD(4) [OF assms(1)] unfolding lkl_file_info_get_locked_def file_info_def
  by (auto simp: Let_def split: prod.splits intro!: wp_mono [OF held_flush [OF assms]])


lemma held_fill:
  assumes "watched os mutex" and "held mutex f w"
  shows "wp (\<lambda>_. True) (\<lambda>(rv, f', w'). held mutex f' w')
    (run_loop (write_buffered_step os buf) (pos, sz, f, w))"
proof (rule wp_run_loop [where I = "\<lambda>(pos, sz, g, v). held mutex g v"], goal_cases)
  case (3 t)
  obtain pos sz g v where t: "t = (pos, sz, g, v)" by (cases t)
  with 3 have g: "held mutex g v" by simp
  show ?case
    using g unfolding t write_buffered_step_def
    by (auto simp: Let_def slice_def intro!: wp_mono [OF held_flush [OF assms(1) g]])
qed (use assms(2) in simp_all)

section \<open>The operations\<close>

lemma gives_back:
  assumes "watched os mutex"
  shows "held mutex f' w' \<Longrightarrow> mutex (file_unlock os f' w') = Some False"
  by (rule watched_unlock [OF assms])

lemma locked_flush:
  assumes "watched os mutex" and "mutex w = Some False" and "buffered f" and "thlock f"
  shows "wp (\<lambda>_. True) (\<lambda>(rv, f', w'). mutex w' = Some False) (lkl_file_flush os f w)"
  using assms(3) unfolding lkl_file_flush_def
  by (auto intro!: wp_mono [OF held_flush [OF assms(1) watched_lock [OF assms(1,2,4)]]] gives_back [OF assms(1)])

lemma locked_read:
  assumes "watched os mutex" and "mutex w = Some False" and "buffered f" and "thlock f"
  shows "wp (\<lambda>_. True) (\<lambda>(rv, n, bytes, f', w'). mutex w' = Some False) (lkl_file_read os f k w)"
  using assms(2,3) unfolding lkl_file_read_def
  by (auto intro!: wp_mono [OF held_read [OF assms(1) watched_lock [OF assms(1,2,4)]]] gives_back [OF assms(1)])

lemma locked_write:
  assumes "watched os mutex" and "mutex w = Some False" and "buffered f" and "thlock f"
  shows "wp (\<lambda>_. True) (\<lambda>(rv, n, f', w'). mutex w' = Some False) (lkl_file_write os buf off nbytes (f, w))"
proof -
  note lock = watched_lock [OF assms(1,2,4)]
  define g where "g = (if direction f = 0 then f\<lparr>bufpos := 0, dataRead := 0, direction := 1\<rparr> else f)"
  define v where "v = (if direction f = 0 \<and> filePtr f - dataRead f + bufpos f \<noteq> filePtr f
    then snd (lkl_sys_lseek os (filedes f) (filePtr f - dataRead f + bufpos f) 0 (file_lock os f w))
    else file_lock os f w)"
  have "lkl_file_write os buf off nbytes (f, w)
      = bnd (run_loop (write_buffered_step os buf) (unat off, to_int32 (uint nbytes), g, v))
          (\<lambda>(rv, f, w). Inr (rv, nbytes, f, file_unlock os f w))"
    using assms(3) by (auto simp: lkl_file_write_def Let_def g_def v_def)
  moreover have "held mutex g v"
    using lock watchedD(3) [OF assms(1), of "file_lock os f w"] by (auto simp: g_def v_def prod_eq_iff)
  ultimately show ?thesis
    by (auto intro!: wp_mono [OF held_fill [OF assms(1)]] gives_back [OF assms(1)])
qed

lemma locked_seek:
  assumes "watched os mutex" and "mutex w = Some False" and "buffered f" and "thlock f"
  shows "wp (\<lambda>_. True) (\<lambda>(rv, offset', f', w'). mutex w' = Some False) (lkl_file_seek os finfo f whence offset w)"
proof -
  let ?f = "f\<lparr>eof_hit := 0\<rparr>"
  have lock: "held mutex ?f (file_lock os ?f w)" by (rule watched_lock) (use assms in simp_all)
  have set: "wp (\<lambda>_. True) (\<lambda>(rv, f', w'). held mutex f' w') (setptr os ?f pos (file_lock os ?f w))" for pos
    by (rule held_setptr [OF assms(1) lock])
  show ?thesis
    using assms(3) unfolding lkl_file_seek_def Let_def
    by (cases whence) (auto simp: wp_bnd intro!: wp_mono [OF set] wp_mono [OF held_info [OF assms(1) lock]]
        wp_mono [OF held_setptr [OF assms(1)]] gives_back [OF assms(1)])
qed

text \<open>
  C31. Each of the four operations that use the buffer of a handle takes the mutex of the handle when it is
  free, has it during every system call, and gives it back, whatever the kernel answers and on every path,
  errors included; so it never waits for itself and never leaves the mutex behind.
\<close>
theorem mutex_guards_buffer:
  assumes "watched os mutex" and "mutex w = Some False" and "buffered f" and "thlock f"
  shows "wp (\<lambda>_. True) (\<lambda>(rv, f', w'). mutex w' = Some False) (lkl_file_flush os f w)
    \<and> wp (\<lambda>_. True) (\<lambda>(rv, n, bytes, f', w'). mutex w' = Some False) (lkl_file_read os f k w)
    \<and> wp (\<lambda>_. True) (\<lambda>(rv, n, f', w'). mutex w' = Some False) (lkl_file_write os buf off nbytes (f, w))
    \<and> wp (\<lambda>_. True) (\<lambda>(rv, offset', f', w'). mutex w' = Some False) (lkl_file_seek os finfo f whence offset w)"
  by (intro conjI locked_flush [OF assms] locked_read [OF assms] locked_write [OF assms] locked_seek [OF assms])

end
