(* ===== verification/Samples.thy ===== *)
theory Samples
  imports Sess
begin

text \<open>
  One concrete environment, the parameter of every definition of the model. It shows that the
  documented behaviour the theorems assume can be had, and the examples of theory Witnesses
  override the calls that matter to them.
\<close>

definition sample_stat :: "32 word \<Rightarrow> int \<Rightarrow> kernel_stat" where
  "sample_stat mode n = \<lparr>st_mode = mode, st_size = n, st_ino = 7, st_dev = 1, st_nlink = 1,
     st_atime = 0, st_mtime = 0, st_ctime = 0\<rparr>"

definition sample_finfo :: apr_finfo where
  "sample_finfo = \<lparr>fi_valid = 0, fi_protection = 0, fi_filetype = APR_NOFILE, fi_size = 0,
     fi_inode = 0, fi_device = 0, fi_nlink = 0, fi_atime = 0, fi_mtime = 0, fi_ctime = 0,
     fi_fname = None, fi_name = None, fi_set = False\<rparr>"

definition lower :: "char \<Rightarrow> char" where
  "lower c = (if 65 \<le> (of_char c :: nat) \<and> (of_char c :: nat) \<le> 90 then char_of (of_char c + 32 :: nat)
     else c)"

text \<open>\<open>apr_strnatcasecmp\<close> ignores case and white space; only its result 0 matters to the program.\<close>

definition c_natcasecmp :: "string \<Rightarrow> string \<Rightarrow> int" where
  "c_natcasecmp a b = (let f = \<lambda>s. map lower (filter (\<lambda>c. c \<notin> {CHR '' '', CR, LF}) s)
     in if f a = f b then 0 else 1)"

definition sample_addr :: apr_sockaddr where
  "sample_addr = \<lparr>family = 2, sa_id = 1\<rparr>"

definition quiet_os :: "'w server" where
  "quiet_os = \<lparr>
     lkl_sys_open = (\<lambda>p fl m w. (3, w)),
     lkl_sys_close = (\<lambda>fd w. (0, w)),
     lkl_sys_read = (\<lambda>fd n w. (0, [], w)),
     lkl_sys_write = (\<lambda>fd b w. (int (length b), w)),
     lkl_sys_lseek = (\<lambda>fd pos whence w. (pos, w)),
     lkl_sys_poll = (\<lambda>fd b t w. (0, w)),
     lkl_sys_flock = (\<lambda>fd l w. (0, w)),
     lkl_sys_unlink = (\<lambda>p w. (0, w)),
     lkl_sys_rename = (\<lambda>p q w. (0, w)),
     lkl_sys_mkdir = (\<lambda>p m w. (0, w)),
     lkl_sys_rmdir = (\<lambda>p w. (0, w)),
     lkl_sys_chmod = (\<lambda>p m w. (0, w)),
     lkl_sys_utimes = (\<lambda>p a m w. (0, w)),
     lkl_sys_newstat = (\<lambda>p w. (0, sample_stat 0x41ED 0, w)),
     lkl_sys_newlstat = (\<lambda>p w. (0, sample_stat 0x81A4 5, w)),
     lkl_sys_newfstat = (\<lambda>fd w. (0, sample_stat 0x81A4 5, w)),
     lkl_sys_getdents = (\<lambda>fd n w. (0, [], w)),
     apr_thread_mutex_create = (\<lambda>w. (0, w)),
     apr_thread_mutex_destroy = (\<lambda>w. (0, w)),
     apr_thread_mutex_lock = (\<lambda>w. (0, w)),
     apr_thread_mutex_unlock = (\<lambda>w. (0, w)),
     apr_pool_cleanup_register = (\<lambda>fd w. w),
     apr_pool_cleanup_run = (\<lambda>f w. f w),
     apr_socket_send = (\<lambda>s b w. (0, length b, w)),
     apr_socket_recv = (\<lambda>s n w. (APR_EOF, [], w)),
     apr_socket_close = (\<lambda>s w. (0, w)),
     apr_socket_opt_set = (\<lambda>s opt v w. (0, w)),
     apr_socket_create = (\<lambda>fam w. (0, 9, w)),
     apr_socket_bind = (\<lambda>s a w. (0, w)),
     apr_socket_connect = (\<lambda>s a w. (0, w)),
     apr_socket_listen = (\<lambda>s n w. (0, w)),
     apr_socket_accept = (\<lambda>s w. (0, Some 8, w)),
     apr_sockaddr_info_get = (\<lambda>h p w. (0, [sample_addr], w)),
     apr_sockaddr_ip_get = (\<lambda>a. (0, ''127.0.0.1'')),
     apr_generate_random_bytes = (\<lambda>n w. (0, replicate n 1, w)),
     apr_pool_create = (\<lambda>w. (0, w)),
     apr_pool_clear = (\<lambda>w. w),
     apr_pool_destroy = (\<lambda>w. w),
     apr_thread_join = (\<lambda>t w. (0, w)),
     apr_strtok = c_strtok,
     apr_strtoff = c_strtoff,
     apr_strnatcasecmp = c_natcasecmp,
     apr_pvsprintf = c_printf,
     apr_time_now = (\<lambda>w. (0, w)),
     apr_time_exp_lt = (\<lambda>t. \<lparr>tm_year = 108, tm_rest = 0\<rparr>),
     apr_strftime = (\<lambda>n f t. ''Jan 01 00:00''),
     config = lfd_config_default,
     stack_finfo = sample_finfo\<rparr>"

definition sample_file :: lkl_file where
  "sample_file = \<lparr>filedes = 3, fname = Some ''/f'', fflags = 0, eof_hit = 0, is_pipe = 0,
     timeout = - 1, buffered = False, blocking = BLK_ON, ungetchar = - 1, fbuffer = [],
     bufpos = 0, dataRead = 0, direction = 0, filePtr = 0, thlock = False\<rparr>"

definition sample_buffered :: lkl_file where
  "sample_buffered = sample_file\<lparr>buffered := True, fbuffer := replicate APR_FILE_BUFSIZE NUL\<rparr>"

definition sample_st :: "'w \<Rightarrow> 'w st" where
  "sample_st w = \<lparr>data_conn = fresh_data_sess, comm_sock = 4,
     cmd_input_buffer = replicate cmd_input_buffer_len NUL, ftp_cmd_str = None, ftp_arg_str = None,
     cwd_path = ''/'', pasv_listen_fd = None, p_port_sockaddr = None, restart_pos = 0, is_ascii = 0,
     world = w, replies = []\<rparr>"

lemmas sample_defs = quiet_os_def sample_file_def sample_buffered_def sample_st_def sample_addr_def

lemma sample_docs [simp]:
  "printf_doc (apr_pvsprintf quiet_os)" "strtok_doc (apr_strtok quiet_os)"
  "strtoff_doc (apr_strtoff quiet_os)"
  by (simp_all add: quiet_os_def c_printf_doc c_strtok_doc c_strtoff_doc)

text \<open>The calls and the fields of the samples, so that no witness unfolds the whole records.\<close>

lemma quiet_calls [simp]:
  "apr_socket_send quiet_os s b w = (0, length b, w)"
  "apr_socket_opt_set quiet_os s opt v w = (0, w)"
  "apr_socket_create quiet_os fam w = (0, 9, w)"
  "apr_socket_bind quiet_os s a w = (0, w)"
  "apr_socket_listen quiet_os s k w = (0, w)"
  "apr_socket_close quiet_os s w = (0, w)"
  "apr_socket_accept quiet_os s w = (0, Some 8, w)"
  "apr_sockaddr_info_get quiet_os h p w = (0, [sample_addr], w)"
  "apr_sockaddr_ip_get quiet_os a = (0, ''127.0.0.1'')"
  "apr_generate_random_bytes quiet_os 2 w = (0, [1, 1], w)"
  "apr_pool_clear quiet_os w = w"
  "lkl_sys_newstat quiet_os path w = (0, sample_stat 0x41ED 0, w)"
  "lkl_sys_mkdir quiet_os path m w = (0, w)"
  "lkl_sys_close quiet_os fd w = (0, w)"
  "config quiet_os = lfd_config_default"
  by (simp_all add: quiet_os_def numeral_2_eq_2)

lemma sample_st_fields [simp]:
  "data_conn (sample_st w) = fresh_data_sess" "comm_sock (sample_st w) = 4"
  "ftp_cmd_str (sample_st w) = None" "ftp_arg_str (sample_st w) = None"
  "cwd_path (sample_st w) = ''/''" "pasv_listen_fd (sample_st w) = None"
  "p_port_sockaddr (sample_st w) = None" "restart_pos (sample_st w) = 0"
  "is_ascii (sample_st w) = 0" "world (sample_st w) = w" "replies (sample_st w) = []"
  by (simp_all add: sample_st_def)

lemma sample_st_wf [simp]: "wf_sess (sample_st w)"
  by (simp add: sess_defs wf_arg_def fresh_data_sess_def)

lemma unit_world [simp]: "(st :: unit st)\<lparr>world := u\<rparr> = st"
  by (cases st) simp

lemma sample_types [simp]:
  "filetype_from_mode (st_mode (sample_stat 0x41ED n)) = APR_DIR"
  "filetype_from_mode (st_mode (sample_stat 0x81A4 n)) = APR_REG"
  by (simp_all add: sample_stat_def filetype_from_mode_def S_IFMT_def S_IFDIR_def S_IFREG_def Let_def)

lemma digit_chars [simp]:
  "digit 0 = CHR ''0''" "digit 1 = CHR ''1''" "digit (Suc 0) = CHR ''1''" "digit 2 = CHR ''2''"
  "digit 3 = CHR ''3''" "digit 4 = CHR ''4''" "digit 5 = CHR ''5''" "digit 6 = CHR ''6''"
  "digit 7 = CHR ''7''" "digit 8 = CHR ''8''" "digit 9 = CHR ''9''"
  by (simp_all add: digit_def char_of_def bit_0)

end
