(* ===== verification/Witnesses.thy ===== *)
theory Witnesses
  imports MainProg Conversation UniqueName Delivery FileLocks Samples
begin

text \<open>
  The theorems of the development at concrete inputs: each applies one theorem to the environment
  of theory Samples, with the calls overridden that matter, and discharges its hypotheses there.
\<close>

section \<open>Text and permission conversion\<close>

theorem ascii_to_bin_correct_witness:
  "\<exists>ret buf'. lfd_ascii_ascii_to_bin [CHR ''x'', CHR ''a'', CR, LF] 3 False = Inr (ret, buf')
    \<and> (take (stored ret) (drop (p_buf ret) buf'), last_was_cr ret) = ([CHR ''a'', LF], False)"
  using ascii_to_bin_correct [of 3 "[CHR ''x'', CHR ''a'', CR, LF]" False]
  by (auto simp: chunk_conv_def ends_cr_def pending_def numeral_eq_Suc)

theorem attrs_set_readonly_witness:
  "lkl_file_attrs_set quiet_os sample_finfo (Some ''/f'') APR_FILE_ATTR_READONLY
     APR_FILE_ATTR_READONLY () = (0, ())"
  using attrs_set_readonly [of quiet_os "Some ''/f''" "()" "sample_stat 0x41ED 0" "()" 0 "()" sample_finfo]
  by (simp add: quiet_os_def)

section \<open>Files\<close>

text \<open>A kernel that appends, one that reads, one that is full and one that writes a byte at a time.\<close>

definition writing_os :: "string server" where
  "writing_os = quiet_os\<lparr>lkl_sys_write := \<lambda>fd b w. (int (length b), w @ b)\<rparr>"

definition reading_os :: "string server" where
  "reading_os = quiet_os\<lparr>lkl_sys_read := \<lambda>fd n w. (int (min n (length w)), take n w, drop n w),
     lkl_sys_lseek := \<lambda>fd pos whence w. (pos, drop (nat pos) ''abcdef'')\<rparr>"

definition full_disk_os :: "string server" where
  "full_disk_os = quiet_os\<lparr>lkl_sys_write := \<lambda>fd b w. (- 28, w)\<rparr>"

definition short_write_os :: "string server" where
  "short_write_os = quiet_os\<lparr>lkl_sys_write := \<lambda>fd b w. (1, w @ take 1 b)\<rparr>"

lemma sample_kernels [simp]:
  "kernel_writes writing_os fd id (\<lambda>_. 0)" "kernel_writes_all writing_os fd id (\<lambda>_. 0)"
  "kernel_reads reading_os fd id (\<lambda>_. 0)"
  by (auto simp: kernel_writes_def kernel_writes_all_def kernel_reads_def mutex_keeps_def writing_os_def
      reading_os_def quiet_os_def EINTR_def min_def split: if_splits)

lemma sample_bufs [simp]:
  "\<not> buffered sample_file" "write_buf_ok sample_buffered" "read_buf_ok sample_buffered"
  "pend sample_buffered = []" "rstream id sample_file w = w" "rstream id sample_buffered w = w"
  by (simp_all add: sample_file_def sample_buffered_def write_buf_ok_def read_buf_ok_def pend_def
      rstream_def unget_char_def)

text \<open>A buffered handle with two bytes pending.\<close>

definition dirty_file :: lkl_file where
  "dirty_file = sample_buffered\<lparr>direction := 1, bufpos := 2,
     fbuffer := ''hi'' @ replicate 4094 NUL\<rparr>"

lemma sample_close [simp]: "lkl_sys_close writing_os fd w = (0, w)"
  by (simp add: writing_os_def quiet_os_def)

lemma dirty_file_ok [simp]:
  "write_buf_ok dirty_file" "pend dirty_file = ''hi''" "direction dirty_file = 1"
  "fflags dirty_file = 0" "\<not> thlock dirty_file"
  by (simp_all add: dirty_file_def sample_buffered_def sample_file_def write_buf_ok_def pend_def
      APR_FILE_BUFSIZE_def)

theorem write_full_unbuffered_witness:
  "\<exists>f' w'. lkl_file_write_full writing_os ''hello'' 1 3 (sample_file, ''x'') = Inr (0, 3, f', w')
     \<and> w' = ''xell''"
  using write_full_unbuffered [of sample_file writing_os id "\<lambda>_. 0" 3 1 "''hello''" "''x''"] by simp

theorem write_full_buffered_flush_witness:
  "\<exists>f' w' f'' w''. lkl_file_write_full writing_os ''hello'' 1 3 (dirty_file, ''x'') = Inr (0, 3, f', w')
    \<and> lkl_file_flush writing_os f' w' = Inr (0, f'', w'') \<and> w'' = ''xhiell''"
  using write_full_buffered_flush [of dirty_file writing_os id "\<lambda>_. 0" 3 1 "''hello''" "''x''"]
  by simp

theorem close_delivers_pending_witness:
  "\<exists>f'. lkl_unix_file_cleanup writing_os dirty_file ''x'' = Inr (0, f', ''xhi'')"
  using close_delivers_pending [of dirty_file writing_os id "\<lambda>_. 0" "''x''"]
  by simp

theorem read_full_takes_prefix_witness:
  "\<exists>rc total bytes f' w'. lkl_file_read_full reading_os sample_file 3 ''abcdef'' = Inr (rc, total, bytes, f', w')
     \<and> (rc = 0 \<longrightarrow> total = 3) \<and> ''abcdef'' = bytes @ rstream id f' w'"
  using read_full_takes_prefix [of sample_file reading_os id "\<lambda>_. 0" 3 "''abcdef''"] by force

theorem write_full_error_out_of_bounds_witness:
  "lkl_file_write_full full_disk_os ''hello'' 1 3 (sample_file, ''x'') = Inl Out_Of_Bounds"
  using write_full_error_out_of_bounds [of sample_file 1 3 "''hello''" full_disk_os "''x''" 28 "''x''"]
  by (simp add: full_disk_os_def EINTR_def EAGAIN_def)

theorem short_flush_loses_data_witness:
  "\<exists>f'. lkl_file_flush short_write_os dirty_file ''x'' = Inr (0, f', ''xh'') \<and> pend f' = []"
  using short_flush_loses_data [of dirty_file 1 short_write_os "''x''" "''xh''" id]
  by (force simp: short_write_os_def)

text \<open>A kernel whose world is the state of the mutex.\<close>

definition watched_os :: "bool option server" where
  "watched_os = quiet_os\<lparr>
     apr_thread_mutex_lock := \<lambda>m. (0, if m = Some False then Some True else None),
     apr_thread_mutex_unlock := \<lambda>m. (0, if m = Some True then Some False else None),
     lkl_sys_write := \<lambda>fd b m. (int (length b), if m = Some True then Some True else None),
     lkl_sys_read := \<lambda>fd n m. (0, [], if m = Some True then Some True else None),
     lkl_sys_lseek := \<lambda>fd p wh m. (p, if m = Some True then Some True else None),
     lkl_sys_newfstat := \<lambda>fd m. (0, sample_stat 0x81A4 5, if m = Some True then Some True else None)\<rparr>"

theorem mutex_guards_buffer_witness:
  "\<exists>rv f'. lkl_file_flush watched_os (dirty_file\<lparr>thlock := True\<rparr>) (Some False) = Inr (rv, f', Some False)"
proof -
  let ?f = "dirty_file\<lparr>thlock := True\<rparr>"
  have "watched watched_os id" by (simp add: watched_def watched_os_def)
  moreover have f: "buffered ?f" "thlock ?f" using dirty_file_ok(1) by (simp_all add: write_buf_ok_def)
  ultimately have "wp (\<lambda>_. True) (\<lambda>(rv, f', m). m = Some False) (lkl_file_flush watched_os ?f (Some False))"
    using mutex_guards_buffer [of watched_os id "Some False" ?f] by simp
  moreover have "\<exists>rv f' m. lkl_file_flush watched_os ?f (Some False) = Inr (rv, f', m)"
    using f(1) by (simp add: lkl_file_flush_def lkl_file_flush_locked_def slice_def dirty_file_def
        eintr_loop_stop watched_os_def file_lock_def EINTR_def)
  ultimately show ?thesis by auto
qed

theorem setptr_lands_witness:
  "\<exists>rc f' w'. setptr reading_os sample_buffered 4 ''abcdef'' = Inr (rc, f', w')
     \<and> (rc = 0 \<longrightarrow> bstream id f' w' = ''ef'')"
proof -
  have "reads_file id ''abcdef'' sample_buffered ''abcdef''"
    by (simp add: reads_file_def) (simp add: sample_buffered_def sample_file_def)
  then show ?thesis
    using setptr_lands [of id "''abcdef''" sample_buffered "''abcdef''" 4 reading_os 4 "''ef''"]
    by (auto simp: reading_os_def)
qed

section \<open>The session\<close>

theorem plain_reply_on_the_wire_witness:
  "lfd_cmdio_write quiet_os 215 ''UNIX'' [] (sample_st ())
     = Inr (0, (sample_st ())\<lparr>replies := [Reply 215 ''UNIX'' []]\<rparr>)"
  using plain_reply_on_the_wire [of quiet_os 215 "''UNIX''" "[]" "sample_st ()"]
  by (simp add: CR_def LF_def)

text \<open>A client whose next message is the given text.\<close>

definition client_sends :: "string \<Rightarrow> unit server" where
  "client_sends line = quiet_os\<lparr>apr_socket_recv := \<lambda>s n w. (0, line, w)\<rparr>"

lemma client_docs [simp]:
  "strtok_doc (apr_strtok (client_sends line))"
  "apr_socket_recv (client_sends line) s n w = (0, line, w)"
  by (simp_all add: client_sends_def)

theorem command_line_parsed_witness:
  "\<exists>st'. lfd_cmdio_get_cmd_and_arg (client_sends (''CWD /tmp'' @ CRLF)) (sample_st ()) = Inr (0, st')
     \<and> ftp_cmd_str st' = Some ''CWD'' \<and> ftp_arg_str st' = Some ''/tmp''"
proof -
  have "\<exists>st'. lfd_cmdio_get_cmd_and_arg (client_sends (''CWD /tmp'' @ CRLF)) (sample_st ()) = Inr (0, st')
     \<and> st' = (sample_st ())\<lparr>cmd_input_buffer := cmd_input_buffer st', world := (),
         ftp_cmd_str := Some ''CWD'', ftp_arg_str := Some ''/tmp''\<rparr>"
    by (rule command_line_parsed [where tail = "[]"])
      (simp_all add: cmd_input_buffer_len_def NUL_def CR_def LF_def)
  then show ?thesis
  proof (elim exE conjE, intro exI conjI)
    fix st'
    assume "st' = (sample_st ())\<lparr>cmd_input_buffer := cmd_input_buffer st', world := (),
         ftp_cmd_str := Some ''CWD'', ftp_arg_str := Some ''/tmp''\<rparr>"
    from arg_cong [OF this, of ftp_cmd_str] arg_cong [OF this, of ftp_arg_str]
    show "ftp_cmd_str st' = Some ''CWD''" "ftp_arg_str st' = Some ''/tmp''" by simp_all
  qed
qed

theorem long_command_overruns_witness:
  "lfd_cmdio_get_cmd_and_arg (client_sends (replicate 100 (CHR ''A''))) (sample_st ()) = Inl Out_Of_Bounds"
  using long_command_overruns [of "client_sends (replicate 100 (CHR ''A''))" "sample_st ()"
      "replicate 100 (CHR ''A'')" "()"]
  by (simp add: cmd_input_buffer_len_def NUL_def)

theorem port_command_sets_address_witness:
  "\<exists>st'. handle_port quiet_os ((sample_st ())\<lparr>ftp_arg_str := Some ''10,0,0,7,4,1''\<rparr>) = Inr (0, st')
     \<and> p_port_sockaddr st' = Some sample_addr"
  using port_command_sets_address [of quiet_os 10 0 0 7 4 1 "(sample_st ())\<lparr>ftp_arg_str := Some ''10,0,0,7,4,1''\<rparr>"
      "(sample_st ())\<lparr>ftp_arg_str := Some ''10,0,0,7,4,1''\<rparr>" sample_addr "[]" "()"]
  by (auto simp: dec_nat.simps lfd_communication_cleanup_def port_cleanup_def pasv_cleanup_def)

theorem pasv_announces_bound_port_witness:
  "handle_pasv quiet_os (sample_st ()) = lfd_cmdio_write quiet_os FTP_PASVOK PASV_MSG
     (map Dec [127, 0, 0, 1, 4, 252]) ((sample_st ())\<lparr>pasv_listen_fd := Some 9\<rparr>)"
proof -
  have port: "scale_port (min_pasv_port lfd_config_default) (max_pasv_port lfd_config_default)
      (rand16 [1, 1]) = 1276"
    by (simp add: scale_port_def min_pasv_port_def max_pasv_port_def lfd_config_default_def rand16_def
        unsigned_ucast_eq)
  have max: "max_pasv_port lfd_config_default \<noteq> 0"
    by (simp add: max_pasv_port_def lfd_config_default_def)
  have "bind_step quiet_os (10, ()) = Inr (Done (Some (1276, sample_addr, 9), ()))"
    using port max by (simp add: bind_step_def bind_attempt_def Let_def)
  then have "bind_to_random_passive_port quiet_os (sample_st ())
      = Inr (0, Some (sample_addr, 1276), (sample_st ())\<lparr>pasv_listen_fd := Some 9\<rparr>)"
    by (simp add: bind_to_random_passive_port_def run_loop_Done lfd_config_default_def)
  moreover have "lfd_communication_cleanup quiet_os (sample_st ()) = sample_st ()"
    by (simp add: lfd_communication_cleanup_def port_cleanup_def pasv_cleanup_def sample_st_def)
  ultimately show ?thesis
    using pasv_announces_bound_port [of quiet_os 127 0 0 1 "sample_st ()" sample_addr 1276
       "(sample_st ())\<lparr>pasv_listen_fd := Some 9\<rparr>" 9 "()"]
    by (simp add: dec_nat.simps port_bytes_def)
qed

theorem passive_port_range_witness: "1024 \<le> scale_port 1024 65535 40000"
  using passive_port_range [of 40000] by simp

theorem cwd_follows_kernel_witness:
  "handle_cwd quiet_os ((sample_st ())\<lparr>ftp_arg_str := Some ''pub''\<rparr>)
     = lfd_cmdio_write quiet_os 250 CWD_MSG [Str ''/pub/'']
         ((sample_st ())\<lparr>ftp_arg_str := Some ''pub'', cwd_path := ''/pub/''\<rparr>)"
  using cwd_follows_kernel [of "(sample_st ())\<lparr>ftp_arg_str := Some ''pub''\<rparr>" "''pub''" "''/pub''" "''/pub/''"
     quiet_os 0 "sample_stat 0x41ED 0" "()"]
  by (simp add: get_abs_path_def)

theorem cdup_goes_to_parent_witness:
  "handle_cdup quiet_os ((sample_st ())\<lparr>cwd_path := ''/pub/x/''\<rparr>)
     = lfd_cmdio_write quiet_os 202 ''Changed to directory [%s].'' [Str ''/pub/'']
         ((sample_st ())\<lparr>cwd_path := ''/pub/''\<rparr>)"
  using cdup_goes_to_parent [of "''/pub/''" "''x''" "(sample_st ())\<lparr>cwd_path := ''/pub/x/''\<rparr>" quiet_os]
  by (simp add: wf_cwd_def NUL_def)

theorem mkd_makes_new_directory_witness:
  "handle_dir_create (quiet_os\<lparr>lkl_sys_newstat := \<lambda>p w. (- 2, sample_stat 0 0, w)\<rparr>)
      ((sample_st ())\<lparr>ftp_arg_str := Some ''d''\<rparr>)
     = lfd_cmdio_write (quiet_os\<lparr>lkl_sys_newstat := \<lambda>p w. (- 2, sample_stat 0 0, w)\<rparr>) 257
         ''%s Directory created.'' [Str ''/d''] ((sample_st ())\<lparr>ftp_arg_str := Some ''d''\<rparr>)"
  using mkd_makes_new_directory [of "(sample_st ())\<lparr>ftp_arg_str := Some ''d''\<rparr>" "''/d''"
     "quiet_os\<lparr>lkl_sys_newstat := \<lambda>p w. (- 2, sample_stat 0 0, w)\<rparr>" "-2" "sample_stat 0 0" "()" 0 "()"]
  by (simp add: get_abs_path_def)

theorem pwd_format_fault_witness:
  "handle_pwd quiet_os ((sample_st ())\<lparr>cwd_path := ''/100%s/''\<rparr>) = Inl Bad_Format"
  using pwd_format_fault [of quiet_os "(sample_st ())\<lparr>cwd_path := ''/100%s/''\<rparr>" "''/100''" "CHR ''s''" "''/''"]
  by simp

theorem abor_has_nothing_to_abort_witness:
  "wp (\<lambda>e. e = Bad_Format) (\<lambda>(rc, st'). rc = 0 \<and> cwd_path st' = ''/'')
     (handle_abort quiet_os (sample_st ()))"
proof (rule wp_mono [OF abor_has_nothing_to_abort [OF sample_st_wf]], goal_cases)
  case (2 a)
  then obtain w rs where "snd a = (sample_st ())\<lparr>world := w, replies := rs\<rparr>" by auto
  with 2 show ?case by auto
qed simp

end
