(* ===== verification/SessionWitnesses.thy ===== *)
theory SessionWitnesses
  imports Witnesses
begin

text \<open>
  More theorems at concrete inputs: transfers, listings, whole sessions and the server process.
\<close>

section \<open>Transfers\<close>

text \<open>
  A world of two streams: what can still be read, from the file or from the data connection, and
  what has been written, to the data connection or to the file.
\<close>

definition stream_os :: "(string \<times> string) server" where
  "stream_os = quiet_os\<lparr>
     lkl_sys_read := \<lambda>fd n (a, b). (int (min n (length a)), take n a, (drop n a, b)),
     lkl_sys_write := \<lambda>fd bytes (a, b). (int (length bytes), (a, b @ bytes)),
     apr_socket_send := \<lambda>s bytes (a, b). (0, length bytes, (a, b @ bytes)),
     apr_socket_recv := \<lambda>s n (a, b). if a = [] then (APR_EOF, [], (a, b))
       else (0, take n a, (drop n a, b))\<rparr>"

definition stream_st :: "string \<Rightarrow> (string \<times> string) st" where
  "stream_st s = (sample_st (s, []))\<lparr>data_conn := fresh_data_sess\<lparr>data_sock := Some 8\<rparr>\<rparr>"

lemma stream_docs [simp]:
  "kernel_reads stream_os fd fst (\<lambda>_. 0)" "kernel_writes stream_os fd snd (\<lambda>_. 0)"
  "socket_sends stream_os sk snd" "socket_recvs stream_os sk fst" "reads_keep stream_os snd"
  "sends_keep stream_os fst" "recvs_keep stream_os snd" "writes_keep stream_os fst"
  by (auto simp: kernel_reads_def mutex_keeps_def kernel_writes_def socket_sends_def socket_recvs_def reads_keep_def
      sends_keep_def recvs_keep_def writes_keep_def stream_os_def quiet_os_def EINTR_def APR_EOF_def min_def
      split: if_splits)

lemma stream_st_fields [simp]:
  "data_sock (data_conn (stream_st s)) = Some 8" "world (stream_st s) = (s, [])"
  by (simp_all add: stream_st_def)

lemma stream_of_sample [simp]: "rstream g sample_file w = g w"
  by (simp add: sample_file_def rstream_def unget_char_def)

theorem binary_send_witness:
  "\<exists>ret f' st'. do_file_send_rwloop stream_os sample_file False (stream_st ''a file'') = Inr (ret, f', st')
    \<and> (retval ret = 0 \<longrightarrow> snd (world st') = ''a file'')"
  using wp_returns [OF binary_send [of "stream_st ''a file''" 8 sample_file stream_os fst "\<lambda>_. 0" snd]]
  by fastforce

theorem ascii_send_truncates_witness:
  "\<exists>ret f' st'. do_file_send_rwloop stream_os sample_file True (stream_st (''a'' @ [LF])) = Inr (ret, f', st')
    \<and> retval ret = 0 \<and> length (snd (world st')) = 2 \<and> snd (world st') \<noteq> [CHR ''a'', CR, LF]"
proof -
  have "smooth_network stream_os" "\<forall>fd n w. 0 \<le> fst (lkl_sys_read stream_os fd n w)"
    by (auto simp: smooth_network_def stream_os_def quiet_os_def)
  with wp_returns [OF ascii_send_truncates [of "stream_st (''a'' @ [LF])" 8 sample_file stream_os fst "\<lambda>_. 0" snd]]
  show ?thesis by fastforce
qed

theorem upload_stores_stream_witness:
  "\<exists>ret f' st'. do_file_recv stream_os sample_file True (stream_st (''a'' @ CRLF)) = Inr (ret, f', st')
    \<and> (retval ret = 0 \<longrightarrow> snd (world st') = ''a'' @ [LF])"
  using wp_returns [OF upload_stores_stream [of "stream_st (''a'' @ CRLF)" 8 sample_file stream_os snd "\<lambda>_. 0" fst True]]
  by fastforce

text \<open>
  A whole transfer: what is sent on the control connection, socket 4, does not reach the stream.
\<close>

definition delivery_os :: "(string \<times> string) server" where
  "delivery_os = stream_os\<lparr>
     apr_socket_send := \<lambda>s bytes (a, b). (0, length bytes, (a, if s = 4 then b else b @ bytes)),
     lkl_sys_newstat := \<lambda>p w. (0, sample_stat 0x81A4 6, w)\<rparr>"

definition passive_st :: "string \<Rightarrow> (string \<times> string) st" where
  "passive_st s = (sample_st (s, []))\<lparr>pasv_listen_fd := Some 9, ftp_arg_str := Some ''f''\<rparr>"

lemma delivery_docs [simp]:
  "resolver_doc delivery_os" "control_keeps delivery_os 4 (\<lambda>w. w)" "control_keeps delivery_os 4 (\<lambda>w. (snd w, fst w))"
  "printf_doc (apr_pvsprintf delivery_os)"
  "env_doc delivery_os" "kernel_reads delivery_os fd fst (\<lambda>_. 0)" "kernel_writes delivery_os fd snd (\<lambda>_. 0)"
  "sk \<noteq> 4 \<Longrightarrow> socket_sends delivery_os sk snd" "socket_recvs delivery_os sk fst"
  "reads_keep delivery_os snd" "sends_keep delivery_os fst" "recvs_keep delivery_os snd"
  "writes_keep delivery_os fst" "lkl_sys_open delivery_os path fl m w = (3, w)"
  by (auto simp: resolver_doc_def control_keeps_def env_doc_def accept_doc_def kernel_reads_def mutex_keeps_def kernel_writes_def
      socket_sends_def socket_recvs_def reads_keep_def sends_keep_def recvs_keep_def writes_keep_def
      delivery_os_def stream_os_def quiet_os_def c_printf_doc EINTR_def APR_EOF_def min_def split: if_splits)

lemma passive_st_fields [simp]:
  "wf_sess (passive_st s)" "pasv_listen_fd (passive_st s) = Some 9" "ftp_arg_str (passive_st s) = Some ''f''"
  "comm_sock (passive_st s) = 4" "world (passive_st s) = (s, [])"
  "get_abs_path (Some ''f'') (passive_st s) = Some ''/f''"
  by (simp_all add: passive_st_def sess_defs wf_arg_def fresh_data_sess_def get_abs_path_def NUL_def)

lemma delivery_smooth [simp]: "smooth_network delivery_os" "smooth_reads delivery_os path"
  by (auto simp: smooth_network_def smooth_reads_def delivery_os_def stream_os_def quiet_os_def)

theorem stor_226_means_stored_witness:
  "\<exists>rc st'. handle_stor delivery_os (passive_st ''a file'') = Inr (rc, st')
    \<and> reply_code (last (replies st')) = 226 \<and> snd (world st') = ''a file''"
  using stor_226_means_stored [of "passive_st ''a file''" "''f''" "''/f''" delivery_os 3 "(''a file'', [])"
      snd fst "\<lambda>_. 0"]
  by auto


section \<open>Listing\<close>

lemma sample_env [simp]: "env_doc quiet_os" "accept_doc quiet_os"
  by (simp_all add: env_doc_def accept_doc_def quiet_os_def)

text \<open>A directory of as many entries as the world's number says.\<close>

definition sample_entry :: kernel_dirent where
  "sample_entry = \<lparr>d_ino = 7, d_reclen = 24, d_name = ''a''\<rparr>"

definition listing_os :: "nat server" where
  "listing_os = quiet_os\<lparr>lkl_sys_getdents := \<lambda>fd n w. (24 * int w, replicate w sample_entry, 0)\<rparr>"

lemma listing_docs [simp]:
  "printf_doc (apr_pvsprintf listing_os)" "env_doc listing_os"
  "kernel_lists listing_os fd (\<lambda>w. replicate w sample_entry)"
  "listable listing_os path (\<lambda>_. sample_stat 0x81A4 5) 0 (\<lambda>w. replicate w sample_entry)"
  by (auto simp: listing_os_def env_doc_def accept_doc_def quiet_os_def c_printf_doc kernel_lists_def
      listable_def sample_entry_def sum_list_replicate)

lemma listing_calls [simp]:
  "lkl_sys_open listing_os p fl m w = (3, w)" "apr_pool_cleanup_register listing_os fd w = w"
  "LIST_FLAG_L \<noteq> 0" "replicate 2 x = [x, x]"
  by (simp_all add: listing_os_def quiet_os_def LIST_FLAG_L_def numeral_2_eq_2)

theorem list_shows_directory_witness:
  "\<exists>w'. list_dir listing_os (Some ''/'') LIST_FLAG_L 2
    = Inr (0, listing listing_os 0 (\<lambda>_. sample_stat 0x81A4 5) LIST_FLAG_L [sample_entry, sample_entry], w')"
  using list_shows_directory [of listing_os LIST_FLAG_L "''/''" "\<lambda>_. sample_stat 0x81A4 5" 0
      "\<lambda>w. replicate w sample_entry" 3 "2 :: nat" 2 "[sample_entry, sample_entry]"]
  by simp

definition vanished_os :: "nat server" where
  "vanished_os = listing_os\<lparr>lkl_sys_newlstat := \<lambda>p w. (- 2, sample_stat 0 0, w)\<rparr>"

theorem list_shows_unset_memory_witness: "handle_list vanished_os (sample_st 2) = Inl Uninitialised"
proof (rule list_shows_unset_memory [where path = "''/''" and list_flags = LIST_FLAG_L and fd = 3])
  show "lkl_sys_getdents vanished_os 3 BUF_SIZE (apr_pool_cleanup_register vanished_os 3 2)
      = (48, sample_entry # [sample_entry], 0)"
    by (simp add: vanished_os_def listing_os_def quiet_os_def)
qed (simp_all add: vanished_os_def listing_os_def quiet_os_def list_path_def sample_entry_def hidden_def)

theorem list_without_connection_is_fatal_witness:
  "handle_list quiet_os (sample_st ()) = Inl no_connection"
proof -
  have "list_dir quiet_os (Some ''/'') LIST_FLAG_L () = Inr (0, [], ())"
    by (simp add: list_dir_def lkl_dir_open_def lkl_dir_close_def dir_cleanup_def run_loop_Done list_step_def
        lkl_dir_read_def lkl_readdir_def quiet_os_def APR_ENOENT_def APR_INCOMPLETE_def Let_def)
  then show ?thesis
    using list_without_connection_is_fatal [of "sample_st ()" "''/''" LIST_FLAG_L quiet_os "[]" "()"]
    by (simp add: list_path_def)
qed

text \<open>A kernel that knows two names.\<close>

definition names_os :: "unit server" where
  "names_os = quiet_os\<lparr>lkl_sys_newstat := \<lambda>p w.
     (if p \<in> {Some ''a'', Some ''a.1''} then 0 else - 2, sample_stat 0x81A4 5, w)\<rparr>"

theorem unique_name_is_first_free_witness:
  "\<exists>w'. get_unique_filename names_os (Some ''a'') () = Inr (Some ''a.2'', w')"
proof -
  have "names_known names_os {''a'', ''a.1''}" by (simp add: names_known_def names_os_def)
  moreover have "printf_doc (apr_pvsprintf names_os)" by (simp add: names_os_def)
  moreover have "\<forall>j. 1 \<le> j \<and> j < (2 :: nat) \<longrightarrow> numbered ''a'' j \<in> {''a'', ''a.1''}"
    by (auto simp: numbered_def dec_nat.simps less_Suc_eq numeral_2_eq_2)
  moreover have "numbered ''a'' 2 \<notin> {''a'', ''a.1''}" by (simp add: numbered_def dec_nat.simps)
  moreover have "''a'' @ ''.'' @ dec_nat 2 = ''a.2''" by (simp add: dec_nat.simps)
  ultimately show ?thesis
    using unique_name_is_first_free [of names_os "{''a'', ''a.1''}" "''a''" 2 "()"] by simp
qed

section \<open>Sessions\<close>

text \<open>A client that sends the lines of the world, one for each call, and then closes.\<close>

definition script_os :: "string list server" where
  "script_os = quiet_os\<lparr>apr_socket_recv := \<lambda>s n w.
     (case w of [] \<Rightarrow> (APR_EOF, [], w) | l # ls \<Rightarrow> (0, l, ls))\<rparr>"

lemma quiet_recv: "apr_socket_recv quiet_os s n w = (APR_EOF, [], w)"
  and quiet_pool: "apr_pool_create quiet_os w = (0, w)"
  by (simp_all add: quiet_os_def)

text \<open>The comparison of theory Samples is a documented one.\<close>

lemma upper_code:
  assumes "c \<in> set ''ABCDEFGHIJKLMNOPQRSTUVWXYZ''"
  shows "65 \<le> (of_char c :: nat) \<and> (of_char c :: nat) \<le> 90"
proof -
  have "\<forall>c \<in> set ''ABCDEFGHIJKLMNOPQRSTUVWXYZ''. 65 \<le> (of_char c :: nat) \<and> (of_char c :: nat) \<le> 90"
    by simp
  with assms show ?thesis by blast
qed

lemma lower_code:
  assumes "65 \<le> (of_char c :: nat) \<and> (of_char c :: nat) \<le> 90"
  shows "(of_char (lower c) :: nat) = of_char c + 32"
proof -
  have "lower c = char_of ((of_char c :: nat) + 32)" using assms by (simp only: lower_def simp_thms if_True)
  moreover have "(of_char c :: nat) + 32 < 256" using assms by linarith
  ultimately show ?thesis by (simp only: of_char_of mod_less)
qed

lemma lower_upper_inj: "inj_on lower (set ''ABCDEFGHIJKLMNOPQRSTUVWXYZ'')"
proof (rule inj_onI)
  fix c d
  assume u: "c \<in> set ''ABCDEFGHIJKLMNOPQRSTUVWXYZ''" "d \<in> set ''ABCDEFGHIJKLMNOPQRSTUVWXYZ''"
    and eq: "lower c = lower d"
  have "(of_char c :: nat) + 32 = of_char d + 32"
    by (simp only: lower_code [OF upper_code [OF u(1)], symmetric] lower_code [OF upper_code [OF u(2)], symmetric] eq)
  then show "c = d" by simp
qed

lemma upper_no_blank:
  assumes "upper_word s"
  shows "filter (\<lambda>c. c \<notin> {CHR '' '', CR, LF}) s = s"
proof -
  have blank: "c \<notin> {CHR '' '', CR, LF}" if "65 \<le> (of_char c :: nat)" for c
    using that by (auto simp: CR_def LF_def)
  have "c \<notin> {CHR '' '', CR, LF}" if "c \<in> set s" for c
    by (rule blank, rule upper_code [THEN conjunct1], rule bspec [OF assms [unfolded upper_word_def] that])
  then show ?thesis by (simp add: filter_id_conv)
qed

lemma natcasecmp_sample: "natcasecmp_doc c_natcasecmp"
  unfolding natcasecmp_doc_def
proof (intro allI impI)
  fix a b
  assume ab: "upper_word a \<and> upper_word b"
  have "map lower a = map lower b \<longleftrightarrow> a = b"
    by (rule inj_on_map_eq_map, rule inj_on_subset [OF lower_upper_inj])
      (use ab in \<open>auto simp only: upper_word_def Un_iff subset_iff\<close>)
  then show "(c_natcasecmp a b = 0 \<longleftrightarrow> a = b) \<and> (c_natcasecmp (a @ CRLF) b = 0 \<longleftrightarrow> a = b)"
    using ab upper_no_blank [of a] upper_no_blank [of b]
    by (simp add: c_natcasecmp_def CR_def LF_def)
qed

lemma script_docs [simp]:
  "client_lines script_os sk (\<lambda>w. w)" "strtok_doc (apr_strtok script_os)"
  "printf_doc (apr_pvsprintf script_os)" "natcasecmp_doc (apr_strnatcasecmp script_os)"
  "env_doc script_os"
  by (auto simp: client_lines_def script_os_def quiet_os_def c_strtok_doc c_printf_doc natcasecmp_sample
      env_doc_def accept_doc_def split: list.splits)

theorem status_session_witness:
  "\<exists>st'. ftp_protocol_loop script_os (sample_st [''USER'' @ CRLF, ''NOOP'' @ CRLF, ''QUIT'' @ CRLF]) = Inr (0, st')
    \<and> map reply_code (replies st') = [230, 502, 221]"
proof -
  have w: "\<forall>c \<in> set [''USER'', ''NOOP'', ''QUIT'']. plain_word c"
    by (simp add: plain_word_def short_word_def upper_word_def file_words_def)
  have "conversation [''USER'', ''NOOP'', ''QUIT''] = (0, [answer ''USER'', answer ''NOOP'',
      Reply 221 ''See you later, aligator.'' []])"
    by simp
  moreover have "reply_code (answer ''USER'') = 230" "reply_code (answer ''NOOP'') = 502"
    by (simp_all add: answer_def)
  ultimately show ?thesis
    using status_session [OF script_docs(1-4) sample_st_wf _ w, of "[''USER'' @ CRLF, ''NOOP'' @ CRLF, ''QUIT'' @ CRLF]"]
    by auto
qed

theorem session_keeps_invariant_witness:
  "wp (\<lambda>e. e \<in> {Null_Deref, Out_Of_Bounds, Bad_Format, Uninitialised, Div_By_Zero, Diverge}
        \<or> e = no_connection) (\<lambda>(rc, st'). wf_sess st' \<and> comm_sock st' = 4)
    (ftp_protocol_loop script_os (sample_st [''SYST'' @ CRLF]))"
  by (rule wp_mono [OF session_keeps_invariant [of script_os "sample_st [''SYST'' @ CRLF]"]]) auto

text \<open>A client that renames a file.\<close>

definition rename_script :: "string list" where
  "rename_script = [''RNFR a'' @ CRLF, ''RNTO b'' @ CRLF]"

lemma script_receives:
  assumes "comm_sock st = 4" and "world st = (c @ '' '' @ a @ CRLF) # ls"
    and "c \<noteq> [] \<and> CHR '' '' \<notin> set c \<and> a \<noteq> [] \<and> CR \<notin> set a \<and> LF \<notin> set a \<and> NUL \<notin> set (c @ a)
      \<and> length c + length a < 97"
  obtains st1 where "receives script_os st c (Some a) st1" "world st1 = ls" "comm_sock st1 = 4"
    "cwd_path st1 = cwd_path st" "replies st1 = replies st"
proof -
  obtain st1 where st1: "receives script_os st c (Some a) st1" "world st1 = ls"
    "st1 = st\<lparr>world := world st1, cmd_input_buffer := cmd_input_buffer st1,
        ftp_cmd_str := Some c, ftp_arg_str := Some a\<rparr>"
    using receives_arg [of script_os st "\<lambda>w. w" c a ls] assms by auto
  have "comm_sock st1 = 4" "cwd_path st1 = cwd_path st" "replies st1 = replies st"
    using assms(1) by (subst st1(3); simp)+
  with st1(1,2) show thesis by (rule that)
qed

lemma script_writes:
  assumes "comm_sock st = 4" and "0 \<le> cmd" and "cmd < 1000" and "CHR ''%'' \<notin> set msg"
  obtains st1 where "lfd_cmdio_write script_os cmd msg args st = Inr (0, st1)" "world st1 = world st"
    "comm_sock st1 = 4" "cwd_path st1 = cwd_path st" "replies st1 = replies st @ [Reply cmd msg args]"
  using plain_write [of script_os st "\<lambda>w. w" cmd msg args] assms by auto

lemma script_calls [simp]:
  "lkl_sys_newstat script_os path w = (0, sample_stat 0x41ED 0, w)"
  "lkl_sys_rename script_os p q w = (0, w)"
  by (simp_all add: script_os_def quiet_os_def)

theorem rename_pair_witness:
  "\<exists>st4. run_loop (protocol_step script_os) (False, None, sample_st rename_script)
      = run_loop (protocol_step script_os) (False, Some ''/a'', st4)
    \<and> map reply_code (replies st4) = [350, 250]"
proof -
  have "comm_sock (sample_st rename_script) = 4"
    "world (sample_st rename_script) = (''RNFR'' @ '' '' @ ''a'' @ CRLF) # [''RNTO b'' @ CRLF]"
    by (simp_all add: rename_script_def)
  then obtain st1 where st1: "receives script_os (sample_st rename_script) ''RNFR'' (Some ''a'') st1"
    "world st1 = [''RNTO b'' @ CRLF]" "comm_sock st1 = 4" "cwd_path st1 = ''/''" "replies st1 = []"
    by (rule script_receives) (simp_all add: CR_def LF_def NUL_def)
  obtain st2 where st2: "lfd_cmdio_write script_os 350 ''Requested file action pending further information.'' []
      (st1\<lparr>world := [''RNTO b'' @ CRLF]\<rparr>) = Inr (0, st2)" "world st2 = [''RNTO b'' @ CRLF]"
    "comm_sock st2 = 4" "cwd_path st2 = ''/''"
    "replies st2 = [Reply 350 ''Requested file action pending further information.'' []]"
    by (rule script_writes [of "st1\<lparr>world := [''RNTO b'' @ CRLF]\<rparr>" 350
        "''Requested file action pending further information.''" "[]"]) (use st1 in simp_all)
  have "world st2 = (''RNTO'' @ '' '' @ ''b'' @ CRLF) # []" using st2 by simp
  with st2(3) obtain st3 where st3: "receives script_os st2 ''RNTO'' (Some ''b'') st3"
    "world st3 = []" "comm_sock st3 = 4" "cwd_path st3 = ''/''" "replies st3 = replies st2"
    by (rule script_receives) (use st2 in \<open>simp_all add: CR_def LF_def NUL_def\<close>)
  obtain st4 where st4: "lfd_cmdio_write script_os 250 ''Directory/file was succesfully renamed.'' []
      (st3\<lparr>world := []\<rparr>) = Inr (0, st4)" "replies st4 = replies st2 @
        [Reply 250 ''Directory/file was succesfully renamed.'' []]"
    by (rule script_writes [of "st3\<lparr>world := []\<rparr>" 250 "''Directory/file was succesfully renamed.''" "[]"])
      (use st3 in simp_all)
  have "run_loop (protocol_step script_os) (False, None, sample_st rename_script)
      = run_loop (protocol_step script_os) (False, Some ''/a'', st4)"
    by (rule rename_pair [OF _ st1(1) _ _ _ st2(1) st3(1), where q = "''/b''" and info = "sample_stat 0x41ED 0"])
      (use st1 st3 st4 in \<open>simp_all add: get_abs_path_def\<close>)
  with st2 st4 show ?thesis by auto
qed

lemma rnfr_reached: "\<exists>st. reachable script_os (sample_st rename_script) (True, Some ''/a'', st)"
proof -
  have "comm_sock (sample_st rename_script) = 4"
    "world (sample_st rename_script) = (''RNFR'' @ '' '' @ ''a'' @ CRLF) # [''RNTO b'' @ CRLF]"
    by (simp_all add: rename_script_def)
  then obtain st1 where st1: "receives script_os (sample_st rename_script) ''RNFR'' (Some ''a'') st1"
    "world st1 = [''RNTO b'' @ CRLF]" "comm_sock st1 = 4" "cwd_path st1 = ''/''" "replies st1 = []"
    by (rule script_receives) (simp_all add: CR_def LF_def NUL_def)
  obtain st2 where st2: "lfd_cmdio_write script_os 350 ''Requested file action pending further information.'' []
      (st1\<lparr>world := [''RNTO b'' @ CRLF]\<rparr>) = Inr (0, st2)"
    by (rule script_writes [of "st1\<lparr>world := [''RNTO b'' @ CRLF]\<rparr>" 350
        "''Requested file action pending further information.''" "[]"]) (use st1 in simp_all)
  have "protocol_step script_os (False, None, sample_st rename_script) = Inr (Again (True, Some ''/a'', st2))"
    by (rule rnfr_iteration [OF _ st1(1) _ _ _ st2, where info = "sample_stat 0x41ED 0"])
      (use st1 in \<open>simp_all add: get_abs_path_def\<close>)
  then show ?thesis using reachable.intros by blast
qed

theorem rename_waits_after_350_witness:
  "\<exists>st before text args. reachable script_os (sample_st rename_script) (True, Some ''/a'', st)
    \<and> replies st = before @ [Reply 350 text args]"
  using rnfr_reached rename_waits_after_350 [of script_os "sample_st rename_script" "Some ''/a''"] by fastforce

text \<open>
  RNTO without RNFR.
\<close>
theorem bad_sequence_answered_witness:
  "\<exists>st2. protocol_step script_os (False, None, sample_st [''RNTO b'' @ CRLF]) = Inr (Again (False, None, st2))
    \<and> replies st2 = [Reply 503 ''Bad sequence of commands.'' []]"
proof -
  have "comm_sock (sample_st [''RNTO b'' @ CRLF]) = 4"
    "world (sample_st [''RNTO b'' @ CRLF]) = (''RNTO'' @ '' '' @ ''b'' @ CRLF) # []"
    by simp_all
  then obtain st1 where st1: "receives script_os (sample_st [''RNTO b'' @ CRLF]) ''RNTO'' (Some ''b'') st1"
    "comm_sock st1 = 4" "replies st1 = []"
    by (rule script_receives) (simp_all add: CR_def LF_def NUL_def)
  obtain st2 where st2: "lfd_cmdio_write script_os 503 ''Bad sequence of commands.'' [] st1 = Inr (0, st2)"
    "replies st2 = [Reply 503 ''Bad sequence of commands.'' []]"
    by (rule script_writes [of st1 503 "''Bad sequence of commands.''" "[]"]) (use st1 in simp_all)
  have "apr_strnatcasecmp script_os ''RNTO'' ''RNTO'' = 0"
    using script_docs(4) unfolding natcasecmp_doc_def by simp
  with bad_sequence_answered [OF st1(1) _ st2(1), of False None] st2(2) show ?thesis by simp
qed

theorem normal_end_is_quit_witness:
  "\<exists>st' before. ftp_protocol_loop script_os (sample_st [''QUIT'' @ CRLF]) = Inr (0, st')
    \<and> replies st' = before @ [Reply 221 ''See you later, aligator.'' []]"
proof -
  obtain st' where "protocol_step script_os (False, None, sample_st [''QUIT'' @ CRLF]) = Inr (Done (0, st'))"
    using quit_iteration [of script_os "sample_st [''QUIT'' @ CRLF]" "\<lambda>w. w" "[]" None] by auto
  then have "ftp_protocol_loop script_os (sample_st [''QUIT'' @ CRLF]) = Inr (0, st')"
    by (simp add: ftp_protocol_loop_def run_loop_Done)
  with normal_end_is_quit [of script_os "sample_st [''QUIT'' @ CRLF]" st'] show ?thesis by auto
qed

text \<open>A world that counts how often the control connection is closed, and a client that hangs up.\<close>

definition counting_os :: "nat server" where
  "counting_os = quiet_os\<lparr>apr_socket_close := \<lambda>s w. (0, w + 1)\<rparr>"

theorem session_closes_connection_witness:
  "\<exists>v. lfd_worker_protocol_main_impl counting_os 4 0 = Inr (v + 1)"
proof -
  have docs: "env_doc counting_os" "strtok_doc (apr_strtok counting_os)"
    by (simp_all add: counting_os_def quiet_os_def env_doc_def accept_doc_def c_strtok_doc)
  have "CHR ''%'' \<notin> set (lfd_config_banner_string lfd_config_default)"
    by (simp add: lfd_config_default_def CR_def)
  then have "\<exists>w'. lfd_worker_protocol_main_impl counting_os 4 0 = Inr w'"
    by (simp add: lfd_worker_protocol_main_impl_def lfd_sess_create_def counting_os_def emit_greeting_def
        write_plain FTP_GREET_def ftp_protocol_loop_def run_loop_Done protocol_step_def
        lfd_cmdio_get_cmd_and_arg_def Let_def quiet_recv quiet_pool)
  then obtain w' where w': "lfd_worker_protocol_main_impl counting_os 4 0 = Inr w'" by blast
  from session_closes_connection [OF docs w'] w' show ?thesis
    by (auto simp: counting_os_def)
qed

section \<open>The server process\<close>

text \<open>
  A host whose world counts down to the shutdown signal with every poll; the number 0 says that
  the flag is set.
\<close>

definition calm_daemon :: "nat daemon" where
  "calm_daemon = server.extend quiet_os (daemon.fields
     (\<lambda>w. (0, w)) (\<lambda>sk w. (0, w)) (\<lambda>sk ev t w. (APR_TIMEUP, 0, w - 1))
     (\<lambda>w. if w = 0 then 1 else 0) (\<lambda>v w. w))"

definition calm_host :: "nat host" where
  "calm_host = daemon.extend calm_daemon (host.fields
     (\<lambda>w. (0, w))
     (\<lambda>argv k. if k = 0 then (0, CHR ''p'', Some ''2121'') else (APR_EOF, CHR ''p'', None))
     (\<lambda>w. (0, w)) (\<lambda>n b w. w) (\<lambda>p fl m w. (0, Some 5, w)) (\<lambda>f wh off w. (0, 1048576, w))
     (\<lambda>f w. (0, w)) (\<lambda>n w. (0, w)) (\<lambda>f n w. (1, w)) (\<lambda>d t fl w. (0, ''/mnt'', w))
     (\<lambda>p w. (0, w)) (\<lambda>p w. (0, w)) (\<lambda>p fl w. (0, w)) (\<lambda>w. w))"

lemmas host_defs = calm_host_def calm_daemon_def server.extend_def daemon.extend_def daemon.fields_def
  host.fields_def quiet_os_def

lemma calm_docs [simp]:
  "signalled calm_daemon (\<lambda>w. w)" "accept_doc calm_daemon"
  "signalled calm_host (\<lambda>w. w)" "accept_doc calm_host"
  by (auto simp: signalled_def accept_doc_def host_defs APR_TIMEUP_def Let_def)

theorem listener_shuts_down_witness: "\<exists>w'. lfd_listen calm_daemon 3 = Inr w'"
  by (rule listener_shuts_down [OF calm_docs(1,2)])

definition poor_daemon :: "nat daemon" where
  "poor_daemon = calm_daemon\<lparr>apr_pool_create := \<lambda>w. (12, w)\<rparr>"

theorem listener_spins_without_pool_witness: "lfd_listen poor_daemon 3 = Inl Diverge"
  by (rule listener_spins_without_pool [of poor_daemon 3 9 3 3])
    (simp_all add: poor_daemon_def create_listen_socket_def host_defs)

lemma calm_getopt [simp]:
  "apr_getopt_long calm_host argv 0 = (0, CHR ''p'', Some ''2121'')"
  "apr_getopt_long calm_host argv (Suc k) = (APR_EOF, CHR ''p'', None)"
  by (simp_all add: host_defs)

theorem port_option_sets_port_witness:
  "parse_command_line calm_host [''lklftpd'', ''-p'', ''2121''] (default_options lfd_config_default)
    = Inr (0, (default_options lfd_config_default)\<lparr>settings := lfd_config_default
        \<lparr>lfd_config_listen_port := 2121, lfd_config_data_port := 0\<rparr>\<rparr>)"
proof -
  have "dec_nat 2121 = ''2121''" by (simp add: dec_nat.simps)
  then show ?thesis
    using port_option_sets_port [of calm_host "[''lklftpd'', ''-p'', ''2121'']" 2121
        "default_options lfd_config_default"]
    by (simp add: default_options_def)
qed

lemma calm_options: "\<exists>opts. parse_command_line calm_host argv d = Inr (0, opts)"
  by (simp add: parse_command_line_def run_loop_Again run_loop_Done apply_option_def)

theorem server_returns_witness: "\<exists>code w'. main calm_host [''lklftpd''] 3 = Inr (code, w')"
  using calm_options [of "[''lklftpd'']" "default_options (config calm_host)"]
    server_returns [of calm_host "[''lklftpd'']" _ "\<lambda>w. w" 3] by fastforce

lemma calm_serves: "\<exists>w'. lfd_listen (calm_host\<lparr>config := cfg\<rparr>) w = Inr w'"
  by (rule listener_returns [where ticks = "\<lambda>w. w"])
    (auto simp: signalled_def accept_doc_def host_defs APR_TIMEUP_def Let_def)

theorem clean_exit_unmounts_witness:
  "\<exists>w' (opts :: options) f v1 v2. main calm_host [''lklftpd''] 3 = Inr (0, w')
    \<and> lfd_listen (calm_host\<lparr>config := settings opts\<rparr>) v1 = Inr v2
    \<and> w' = snd (apr_file_close calm_host f (lkl_sys_halt calm_host (snd (lkl_sys_umount calm_host ''/'' 0 v2))))"
proof -
  obtain opts where "parse_command_line calm_host [''lklftpd''] (default_options (config calm_host)) = Inr (0, opts)"
    using calm_options by blast
  moreover obtain w1 where "lfd_listen (calm_host\<lparr>config := settings opts\<rparr>) 3 = Inr w1"
    using calm_serves by blast
  moreover have "apr_app_initialize calm_host w = (0, w)" "apr_pool_create calm_host w = (0, w)"
    "snd (apr_atomic_init calm_host w) = w" "apr_atomic_set32 calm_host 0 w = w"
    "install_signals calm_host w = w" "lkl_env_init calm_host n w = (0, w)"
    "mount_disk calm_host opts w = (0, Some 5, w)" for w n
    by (simp_all add: host_defs install_signals_def mount_disk_def lkl_add_disk_def)
  ultimately have "\<exists>w'. main calm_host [''lklftpd''] 3 = Inr (0, w')"
    by (simp add: main_def start_up_def lfd_config_load_def Let_def)
  then obtain w' where run: "main calm_host [''lklftpd''] 3 = Inr (0, w')" by blast
  with clean_exit_unmounts [OF run] show ?thesis by blast
qed

text \<open>A kernel that does not take the disk, and a world that counts the closed files.\<close>

definition refusing_host :: "nat host" where
  "refusing_host = calm_host\<lparr>lkl_disk_add_disk := \<lambda>f n w. (0, w), apr_file_close := \<lambda>f w. (0, w + 1)\<rparr>"

theorem refused_disk_closed_twice_witness: "main refusing_host [''lklftpd''] 3 = Inr (- 1, 5)"
proof -
  have "parse_command_line refusing_host argv d = parse_command_line calm_host argv d" for argv d
    by (simp add: parse_command_line_def refusing_host_def)
  then obtain opts where "parse_command_line refusing_host [''lklftpd''] (default_options (config refusing_host)) = Inr (0, opts)"
    using calm_options by metis
  from refused_disk_closed_twice [OF _ _ this, of 3 3 3 3 5 3 1048576 3 3] show ?thesis
    by (simp add: refusing_host_def host_defs install_signals_def)
qed

end
