(* ===== verification/ReplyCodes.thy ===== *)
theory ReplyCodes
  imports Conversation
begin

text \<open>
  The language of the replies: which sequences of codes each command may be answered with, that
  every handler keeps to it, and that a whole session therefore speaks FTP.
\<close>

section \<open>The table\<close>

text \<open>
  A sentence is the list of codes with which one command is answered. \<open>grammar\<close> has the sentences
  after which the session goes on, \<open>farewell\<close> the additional ones after which the loop ends, because
  the handler reports an error to it. A word outside the table is not implemented.
\<close>

definition only :: "int set \<Rightarrow> int list set" where
  "only C = (\<lambda>c. [c]) ` C"

definition after_150 :: "int set \<Rightarrow> int list set" where
  "after_150 C = (\<lambda>c. [150, c]) ` C"

definition reply_table :: "(string \<times> int list set \<times> int list set) list" where
  "reply_table =
     [(''PASV'', only {227}, {[]}),
      (''SYST'', only {215}, {}),
      (''USER'', only {230}, {}),
      (''PASS'', only {230}, {}),
      (''QUIT'', only {221}, {}),
      (''ABOR'', only {225}, {}),
      (''PORT'', only {200}, only {500}),
      (''RMD'', only {250, 550}, {}),
      (''MKD'', only {257, 550}, {}),
      (''PWD'', only {257}, {}),
      (''CWD'', only {250, 202, 550}, {}),
      (''CDUP'', only {202}, {}),
      (''RNFR'', only {350, 550}, {}),
      (''TYPE'', only {200}, {}),
      (''RETR'', only {501, 550} \<union> after_150 {226, 426, 451}, only {425}),
      (''STOR'', only {501, 553} \<union> after_150 {226, 426, 451}, only {425}),
      (''DELE'', only {250, 501, 550}, {}),
      (''STOU'', only {501, 553} \<union> Cons 150 ` after_150 {226, 426, 451}, {[425], [150], [150, 425]}),
      (''LIST'', only {501} \<union> after_150 {226, 426}, only {425}),
      (''FEAT'', {[100211, 211]}, {}),
      (''APPE'', only {501, 553} \<union> after_150 {226, 426, 451}, only {425}),
      (''SITE'', only {214, 500} \<union> {[]}, {}),
      (''ALLO'', only {202}, {}),
      (''REIN'', only {502}, {}),
      (''ACCT'', only {502}, {}),
      (''SMNT'', only {502}, {}),
      (''RNTO'', only {250, 501, 503}, {})]"

definition grammar :: "string \<Rightarrow> int list set" where
  "grammar c = (case map_of reply_table c of None \<Rightarrow> only {502} | Some (L, F) \<Rightarrow> L)"

definition farewell :: "string \<Rightarrow> int list set" where
  "farewell c = (case map_of reply_table c of None \<Rightarrow> {} | Some (L, F) \<Rightarrow> F)"

definition codes :: "'w st \<Rightarrow> int list" where
  "codes st = map reply_code (replies st)"

definition speaks :: "int list set \<Rightarrow> 'w st \<Rightarrow> 'w st \<Rightarrow> bool" where
  "speaks L st st' \<longleftrightarrow> (\<exists>cs \<in> L. codes st' = codes st @ cs)"

text \<open>The typing of replies that RFC 959 prescribes: preliminary ones, then one that completes.\<close>

definition completes :: "int list \<Rightarrow> bool" where
  "completes cs \<longleftrightarrow> cs \<noteq> [] \<and> set (butlast cs) \<subseteq> {150, 100211} \<and> 200 \<le> last cs \<and> last cs < 600"

lemma grammar_simps [simp]:
  "grammar ''PASV'' = only {227}" "farewell ''PASV'' = {[]}"
  "grammar ''SYST'' = only {215}" "grammar ''USER'' = only {230}" "grammar ''PASS'' = only {230}"
  "grammar ''QUIT'' = only {221}" "grammar ''ABOR'' = only {225}"
  "grammar ''PORT'' = only {200}" "farewell ''PORT'' = only {500}"
  "grammar ''RMD'' = only {250, 550}" "grammar ''MKD'' = only {257, 550}" "grammar ''PWD'' = only {257}"
  "grammar ''CWD'' = only {250, 202, 550}" "grammar ''CDUP'' = only {202}" "grammar ''RNFR'' = only {350, 550}"
  "grammar ''TYPE'' = only {200}"
  "grammar ''RETR'' = only {501, 550} \<union> after_150 {226, 426, 451}" "farewell ''RETR'' = only {425}"
  "grammar ''STOR'' = only {501, 553} \<union> after_150 {226, 426, 451}" "farewell ''STOR'' = only {425}"
  "grammar ''APPE'' = only {501, 553} \<union> after_150 {226, 426, 451}" "farewell ''APPE'' = only {425}"
  "grammar ''STOU'' = only {501, 553} \<union> Cons 150 ` after_150 {226, 426, 451}"
  "farewell ''STOU'' = {[425], [150], [150, 425]}"
  "grammar ''DELE'' = only {250, 501, 550}"
  "grammar ''LIST'' = only {501} \<union> after_150 {226, 426}" "farewell ''LIST'' = only {425}"
  "grammar ''FEAT'' = {[100211, 211]}" "grammar ''SITE'' = only {214, 500} \<union> {[]}"
  "grammar ''ALLO'' = only {202}" "grammar ''REIN'' = only {502}" "grammar ''ACCT'' = only {502}"
  "grammar ''SMNT'' = only {502}" "grammar ''RNTO'' = only {250, 501, 503}" "grammar [] = only {502}"
  by (simp_all add: grammar_def farewell_def reply_table_def)

lemma grammar_completes:
  assumes "cs \<in> grammar c" and "c \<noteq> ''SITE''"
  shows "completes cs"
proof (cases "map_of reply_table c")
  case None
  with assms show ?thesis by (simp add: grammar_def only_def completes_def)
next
  case (Some LF)
  have all: "\<forall>(w, L, F) \<in> set reply_table. w \<noteq> ''SITE'' \<longrightarrow> (\<forall>cs \<in> L. completes cs)"
    by (simp add: reply_table_def only_def after_150_def completes_def)
  from map_of_SomeD [OF Some] all assms Some show ?thesis by (cases LF) (auto simp: grammar_def)
qed

section \<open>The rules of the replies\<close>

lemma codes_simps [simp]:
  "codes (st\<lparr>world := w\<rparr>) = codes st"
  "codes (st\<lparr>world := w, replies := rs\<rparr>) = map reply_code rs"
  by (simp_all add: codes_def)

lemma speaks_write:
  assumes "\<And>rc st'. codes st' = codes st @ [cmd] \<Longrightarrow> data_conn st' = data_conn st \<Longrightarrow>
    pasv_listen_fd st' = pasv_listen_fd st \<Longrightarrow> p_port_sockaddr st' = p_port_sockaddr st \<Longrightarrow> Q (rc, st')"
  shows "wp (\<lambda>_. True) Q (lfd_cmdio_write os cmd msg args st)"
  by (rule wp_write) (auto intro!: assms simp: codes_def)

text \<open>
  The contract: on success a sentence of \<open>L\<close>, otherwise one of \<open>L\<close> or \<open>F\<close>. \<open>D\<close> is what the operation
  relies on in its environment.
\<close>

definition keeps_to :: "int list set \<Rightarrow> int list set \<Rightarrow> 'w st \<Rightarrow> int \<times> 'w st \<Rightarrow> bool" where
  "keeps_to L F st = (\<lambda>(rc, st'). speaks (if rc = APR_SUCCESS then L else L \<union> F) st st')"

locale speaking_op =
  fixes opr :: "'w st \<Rightarrow> (int \<times> 'w st) res" and c :: string and D :: bool
  assumes opr_speaks: "D \<Longrightarrow> wf_sess st \<Longrightarrow>
    wp (\<lambda>_. True) (keeps_to (grammar c) (farewell c) st) (opr st)"

lemma keeps_toI: "codes st' = codes st @ cs \<Longrightarrow> cs \<in> L \<Longrightarrow> keeps_to L F st (rc, st')"
  by (auto simp: keeps_to_def speaks_def)

lemma keeps_to_fail: "codes st' = codes st @ cs \<Longrightarrow> cs \<in> F \<Longrightarrow> rc \<noteq> APR_SUCCESS \<Longrightarrow> keeps_to L F st (rc, st')"
  by (auto simp: keeps_to_def speaks_def)

lemma only_iff [simp]: "[c] \<in> only C \<longleftrightarrow> c \<in> C" "[a, b] \<notin> only C" "[] \<notin> only C"
  "[a, b] \<in> after_150 C \<longleftrightarrow> a = 150 \<and> b \<in> C" "[c] \<notin> after_150 C"
  by (auto simp: only_def after_150_def)

lemma speaking_one:
  fixes opr :: "'w st \<Rightarrow> (int \<times> 'w st) res"
  assumes "\<And>st :: 'w st. wf_sess st \<Longrightarrow>
    wp (\<lambda>_. True) (\<lambda>(rc, st'). \<exists>k. codes st' = codes st @ [k] \<and> [k] \<in> grammar c) (opr st)"
  shows "speaking_op opr c True"
  by (unfold_locales, rule wp_mono [OF assms]) (auto intro: keeps_toI)

lemmas speak_defs = handle_user_def handle_pass_def handle_syst_def handle_type_def handle_pwd_def
  handle_bad_rnto_def handle_dir_remove_def handle_dir_create_def handle_dele_def handle_rnto_def
  handle_cdup_def handle_cwd_def Let_def ftp_codes

interpretation say_user: speaking_op "handle_user os" "''USER''" True for os
  by (rule speaking_one) (auto simp: speak_defs intro!: speaks_write)

interpretation say_pass: speaking_op "handle_pass os" "''PASS''" True for os
  by (rule speaking_one) (auto simp: speak_defs intro!: speaks_write)

interpretation say_syst: speaking_op "handle_syst os" "''SYST''" True for os
  by (rule speaking_one) (auto simp: speak_defs intro!: speaks_write)

interpretation say_type: speaking_op "handle_type os" "''TYPE''" True for os
  by (rule speaking_one) (auto simp: speak_defs intro!: speaks_write)

interpretation say_pwd: speaking_op "handle_pwd os" "''PWD''" True for os
  by (rule speaking_one) (auto simp: speak_defs intro!: speaks_write)

interpretation say_bad_rnto: speaking_op "handle_bad_rnto os" "''RNTO''" True for os
  by (rule speaking_one) (auto simp: speak_defs intro!: speaks_write)

interpretation say_rmd: speaking_op "handle_dir_remove os" "''RMD''" True for os
  by (rule speaking_one) (auto simp: speak_defs split: option.splits prod.splits intro!: speaks_write)

interpretation say_mkd: speaking_op "handle_dir_create os" "''MKD''" True for os
  by (rule speaking_one) (auto simp: speak_defs split: option.splits prod.splits intro!: speaks_write)

interpretation say_dele: speaking_op "handle_dele os" "''DELE''" True for os
  by (rule speaking_one) (auto simp: speak_defs split: option.splits prod.splits intro!: speaks_write)

interpretation say_rnto: speaking_op "handle_rnto os old" "''RNTO''" True for os old
  by (rule speaking_one) (auto simp: speak_defs split: option.splits prod.splits intro!: speaks_write)

interpretation say_cdup: speaking_op "handle_cdup os" "''CDUP''" True for os
  by (rule speaking_one) (auto simp: speak_defs codes_def split: option.splits prod.splits intro!: speaks_write)

interpretation say_cwd: speaking_op "handle_cwd os" "''CWD''" True for os
  by (rule speaking_one) (auto simp: speak_defs codes_def split: option.splits prod.splits intro!: speaks_write)

interpretation say_quit: speaking_op "handle_quit os" "''QUIT''" True for os
  by (rule speaking_one) (auto simp: handle_quit_def sess_defs ftp_codes intro!: speaks_write)

interpretation say_abor: speaking_op "handle_abort os" "''ABOR''" True for os
  by (rule speaking_one) (auto simp: handle_abort_def sess_defs ftp_codes intro!: speaks_write)

interpretation say_feat: speaking_op "handle_feat os" "''FEAT''" True for os
  by unfold_locales (auto simp: handle_feat_def ftp_codes keeps_to_def speaks_def intro!: speaks_write)

interpretation say_site: speaking_op "handle_site os" "''SITE''" True for os
  by unfold_locales (auto simp: handle_site_def ftp_codes keeps_to_def speaks_def split: option.splits intro!: speaks_write)

section \<open>The data connection\<close>

lemma codes_cleanup [simp]: "codes (lfd_communication_cleanup os st) = codes st"
  by (rule wp_cleanup [where st = st]) (simp add: codes_def)

lemma codes_update [simp]:
  "codes (world_update f st) = codes st"
  "codes (data_conn_update d st) = codes st" "codes (p_port_sockaddr_update a st) = codes st"
  "codes (pasv_listen_fd_update l st) = codes st" "codes (restart_pos_update n st) = codes st"
  by (simp_all add: codes_def)

interpretation say_port: speaking_op "handle_port os" "''PORT''" True for os
proof
  fix st :: "'a st"
  show "wp (\<lambda>_. True) (keeps_to (grammar ''PORT'') (farewell ''PORT'') st) (handle_port os st)"
    unfolding handle_port_def Let_def wp_bnd
    by (rule wp_parse_uchars)
      (auto simp: ftp_codes APR_EINVAL_def keeps_to_def speaks_def
        split: option.splits prod.splits intro!: speaks_write)
qed

interpretation say_pasv: speaking_op "handle_pasv os" "''PASV''" True for os
proof
  fix st :: "'a st"
  show "wp (\<lambda>_. True) (keeps_to (grammar ''PASV'') (farewell ''PASV'') st) (handle_pasv os st)"
    unfolding handle_pasv_def Let_def wp_bnd
    by (rule wp_bind_port)
      (auto simp: ftp_codes APR_ENOSOCKET_def keeps_to_def speaks_def
        split: option.splits prod.splits intro!: speaks_write wp_parse_uchars)
qed

text \<open>Opening the connection is announced by 150, or refused with 425.\<close>

lemma speaks_connect:
  assumes "idle (data_conn st)" and "exclusive st" and "accept_doc os"
    and "\<And>fd st'. codes st' = codes st @ [if fd = None then 425 else 150] \<Longrightarrow> opened st fd st' \<Longrightarrow> Q (fd, st')"
  shows "wp (\<lambda>_. True) Q (lfd_get_remote_transfer_fd os msg st)"
proof -
  have port: "wp (\<lambda>_. True) (\<lambda>(rc, fd, st2). codes st2 = codes st1 @ (if fd = None then [425] else []))
      (ftpdataio_get_port_fd os st1)" if "idle (data_conn st1)" for st1 :: "'a st"
    unfolding ftpdataio_get_port_fd_def wp_bnd
    by (rule wp_mono [OF wp_get_bound])
      (use that in \<open>auto simp: Let_def idle_def ftp_codes intro!: speaks_write wp_init_data_sock\<close>)
  have pasv: "wp (\<lambda>_. True) (\<lambda>(rc, fd, st2). codes st2 = codes st1 @ (if fd = None then [425] else []))
      (lfd_ftpdataio_get_pasv_fd os st1)" if "idle (data_conn st1)" for st1 :: "'a st"
    using that assms(3) unfolding accept_doc_def
    by (fastforce simp: lfd_ftpdataio_get_pasv_fd_def Let_def idle_def ftp_codes
        split: option.splits prod.splits intro!: speaks_write wp_init_data_sock)
  let ?st = "st\<lparr>data_conn := (data_conn st)\<lparr>abor_received := 0\<rparr>\<rparr>"
  have idle: "idle (data_conn ?st)" using assms(1) by (simp add: idle_def)
  have "wp (\<lambda>_. True) (\<lambda>(fd, st'). codes st' = codes st @ [if fd = None then 425 else 150])
      (lfd_get_remote_transfer_fd os msg st)"
    unfolding lfd_get_remote_transfer_fd_def Let_def wp_bnd
    by (auto simp: bug_def ftp_codes simp del: split_paired_All
        intro!: wp_mono [OF wp_triv [where m = "pasv_active st"]] wp_mono [OF wp_triv [where m = "port_active st"]]
          wp_mono [OF wp_triv [where m = "pasv_active ?st"]] wp_mono [OF pasv [OF idle]] wp_mono [OF port [OF idle]]
          speaks_write split: option.splits if_splits)
  moreover have "wp (\<lambda>_. True) (\<lambda>(fd, st'). opened st fd st') (lfd_get_remote_transfer_fd os msg st)"
    by (rule wp_mono [OF wp_get_remote [OF assms(1-3)]]) auto
  ultimately show ?thesis
    by (rule wp_mono [OF wp_conj]) (auto intro: assms(4))
qed

section \<open>Transfers\<close>

lemma speaks_checks:
  assumes "exclusive st"
    and "p_port_sockaddr st \<noteq> None \<or> pasv_listen_fd st \<noteq> None \<Longrightarrow> Q (True, st)"
    and "\<And>st'. codes st' = codes st @ [425] \<Longrightarrow> Q (False, st')"
  shows "wp (\<lambda>_. True) Q (data_transfer_checks_ok os st)"
  by (rule wp_mono [OF wp_data_checks [OF assms(1)]]) (use assms(2,3) in \<open>auto simp: codes_def ftp_codes\<close>)

text \<open>After the loop, of which only the result matters: one of three replies, and the end.\<close>

lemma speaks_after_loop:
  assumes "opened st0 (Some fd) st1" and "\<And>d. abor_received (g d) = abor_received d"
    and "\<And>st' k. codes st' = codes st1 @ [k] \<Longrightarrow> k \<in> {226, 426, 451} \<Longrightarrow> Q (APR_SUCCESS, st')"
  shows "wp (\<lambda>_. True) Q (bnd (lfd_dispose_transfer_fd os (st1\<lparr>world := w\<rparr>)) (\<lambda>st2.
     bnd (transfer_reply os a b c ret (st2\<lparr>data_conn := g (data_conn st2)\<rparr>)) (\<lambda>(_, st3).
       finish_transfer os f st3)))"
proof -
  have o: "data_sock (data_conn st1) \<noteq> None" "abor_received (data_conn st1) = 0"
    using assms(1) by (simp_all add: opened_def)
  have fin: "wp (\<lambda>_. True) Q (finish_transfer os f st3)"
    if "codes st3 = codes st1 @ [k]" "k \<in> {226, 426, 451}" "abor_received (data_conn st3) = 0" for st3 k
  proof -
    have "finish_transfer os f st3 = bnd (lkl_file_close os f (world (lfd_communication_cleanup os st3)))
        (\<lambda>(_, w). Inr (APR_SUCCESS, lfd_communication_cleanup os st3\<lparr>world := w\<rparr>))"
      using that(3) by (simp add: finish_transfer_def check_abor_def Let_def)
    then show ?thesis
      using that(1,2) assms(3) by (auto intro!: wp_any [where m = "lkl_file_close a b c" for a b c])
  qed
  show ?thesis
    unfolding wp_bnd
    by (rule wp_dispose, use o(1) in simp)
      (use o(2) assms(2) in \<open>auto simp: transfer_reply_def ftp_codes intro!: speaks_write fin\<close>)
qed

lemma speaks_recv:
  "(\<And>ret f' w'. Q (ret, f', st\<lparr>world := w'\<rparr>)) \<Longrightarrow> wp (\<lambda>_. True) Q (do_file_recv os f ascii st)"
  by (rule wp_mono [OF wp_recv_loop]) auto

lemma speaks_send:
  "(\<And>ret f' w'. Q (ret, f', st\<lparr>world := w'\<rparr>)) \<Longrightarrow> wp (\<lambda>_. True) Q (do_file_send_rwloop os f ascii st)"
  by (rule wp_mono [OF wp_send_loop]) auto

text \<open>The sentences of an upload after \<open>xs\<close>.\<close>

lemma speaks_upload_connected:
  assumes "env_doc os" and "idle (data_conn st)" and "exclusive st"
    and "\<And>st'. codes st' = codes st @ [425] \<Longrightarrow> Q (APR_EINVAL, st')"
    and "\<And>st' k. codes st' = codes st @ [150, k] \<Longrightarrow> k \<in> {226, 426, 451} \<Longrightarrow> Q (APR_SUCCESS, st')"
  shows "wp (\<lambda>_. True) Q (bnd (lfd_get_remote_transfer_fd os msg st) (\<lambda>(remote_fd, st).
        if remote_fd = None then Inr (APR_EINVAL, st)
        else
          bnd (do_file_recv os f (is_ascii st \<noteq> 0) st) (\<lambda>(ret, file, st).
          bnd (lfd_dispose_transfer_fd os st) (\<lambda>st.
            let st = st\<lparr>data_conn := (data_conn st)\<lparr>transfer_size := transferred ret\<rparr>\<rparr> in
            bnd (transfer_reply os a b c ret st) (\<lambda>(_, st). finish_transfer os file st)))))"
proof (subst wp_bnd, rule speaks_connect [OF assms(2,3)], goal_cases)
  case 1
  then show ?case using assms(1) by (simp add: env_doc_def)
next
  case (2 fd st1)
  show ?case
  proof (cases fd)
    case None
    with 2 assms(4) show ?thesis by simp
  next
    case (Some d)
    show ?thesis
      unfolding Some Let_def prod.case if_not_P [OF option.distinct(2)]
    proof (subst wp_bnd, rule speaks_recv, simp only: prod.case, goal_cases)
      case (1 ret f' w')
      show ?case
        by (rule speaks_after_loop [OF 2(2) [unfolded Some], where g = "transfer_size_update (\<lambda>_. transferred ret)"])
          (use 2(1) Some assms(5) in auto)
    qed
  qed
qed

lemma speaks_upload_opened:
  assumes "env_doc os" and "wf_sess st"
  shows "wp (\<lambda>_. True) (keeps_to (if u then Cons 150 ` after_150 {226, 426, 451} else after_150 {226, 426, 451})
    (if u then {[425], [150], [150, 425]} else only {425}) st) (upload_opened os filename u f st)"
proof -
  have st: "idle (data_conn st)" "exclusive st" using assms(2) by (simp_all add: wf_sess_def)
  show ?thesis
  proof (cases u)
    case False
    then show ?thesis
      unfolding upload_opened_def Let_def
      by (auto simp: APR_EINVAL_def simp del: wp_bnd
          intro!: speaks_upload_connected [OF assms(1) st, unfolded Let_def] intro: keeps_toI keeps_to_fail)
  next
    case True
    show ?thesis
      unfolding upload_opened_def Let_def if_P [OF True] wp_bnd [of _ _ "lfd_cmdio_write _ _ _ _ _"]
    proof (rule speaks_write, simp only: prod.case, goal_cases)
      case (1 rc st1)
      have st1: "idle (data_conn st1)" "exclusive st1"
        using 1 st by (simp_all add: exclusive_def)
      have k: "codes st1 = codes st @ [150]" using 1(1) by (simp add: FTP_DATACONN_def)
      show ?case
        by (auto simp: k APR_EINVAL_def simp del: wp_bnd intro: keeps_to_fail keeps_toI
            intro!: speaks_upload_connected [OF assms(1) st1, unfolded Let_def])
    qed
  qed
qed

lemma keeps_to_mono: "keeps_to L F st r \<Longrightarrow> L \<subseteq> L' \<Longrightarrow> F \<subseteq> L' \<union> F' \<Longrightarrow> keeps_to L' F' st r"
  unfolding keeps_to_def speaks_def by (auto split: prod.splits if_splits)

lemma keeps_to_same: "codes st1 = codes st \<Longrightarrow> keeps_to L F st1 r \<Longrightarrow> keeps_to L F st r"
  by (simp add: keeps_to_def speaks_def)

lemma speaks_upload:
  assumes "env_doc os" and "wf_sess st"
    and "only {501, 553} \<union> (if u then Cons 150 ` after_150 {226, 426, 451} else after_150 {226, 426, 451}) = L"
    and "(if u then {[425], [150], [150, 425]} else only {425}) = F"
  shows "wp (\<lambda>_. True) (keeps_to L F st) (handle_upload_common os is_append u st)"
proof (cases "ftp_arg_str st = None")
  case True
  with assms(3) show ?thesis
    by (auto simp: handle_upload_common_def Let_def ftp_codes intro!: speaks_write intro: keeps_toI)
next
  case False
  have off: "restart_pos st = 0" "st\<lparr>restart_pos := 0\<rparr> = st" and ex: "exclusive st"
    using assms(2) by (simp_all add: wf_sess_def)
  have in_L: "[501] \<in> L" "[553] \<in> L" "[425] \<in> F" using assms(3,4) by auto
  show ?thesis
    unfolding handle_upload_common_def Let_def off if_not_P [OF False]
  proof (subst wp_bnd, rule speaks_checks [OF ex], goal_cases)
    case 1
    have wf: "wf_sess (st\<lparr>world := w\<rparr>)" for w using assms(2) by (simp add: sess_defs)
    have op: "wp (\<lambda>_. True) (keeps_to L F st) (upload_opened os fn u f (st\<lparr>world := w\<rparr>))" for fn f w
      by (rule wp_mono [OF speaks_upload_opened [OF assms(1) wf]])
        (auto intro!: keeps_to_same [of "st\<lparr>world := w\<rparr>" st] elim!: keeps_to_mono simp: assms(3,4) [symmetric])
    show ?case
      using in_L op
      by (auto simp: ftp_codes split: prod.splits option.splits intro!: speaks_write intro: keeps_toI
          intro!: wp_any [where m = "get_unique_filename a b c" for a b c])
  qed (use in_L in \<open>auto simp: APR_EINVAL_def intro: keeps_to_fail\<close>)
qed

interpretation say_stor: speaking_op "handle_stor os" "''STOR''" "env_doc os" for os
  unfolding handle_stor_def by unfold_locales (simp add: speaks_upload)

interpretation say_appe: speaking_op "handle_appe os" "''APPE''" "env_doc os" for os
  unfolding handle_appe_def by unfold_locales (simp add: speaks_upload)

interpretation say_stou: speaking_op "handle_stou os" "''STOU''" "env_doc os" for os
  unfolding handle_stou_def by unfold_locales (simp add: speaks_upload)

lemma speaks_retr_opened:
  assumes "env_doc os" and "wf_sess st"
  shows "wp (\<lambda>_. True) (keeps_to (grammar ''RETR'') (farewell ''RETR'') st) (retr_opened os path 0 f st)"
proof -
  have st: "idle (data_conn st)" "exclusive st" using assms(2) by (simp_all add: wf_sess_def)
  obtain rc fi w where s: "lkl_stat os (stack_finfo os) path (APR_FINFO_TYPE OR APR_FINFO_SIZE) (world st)
      = (rc, fi, w)"
    by (cases "lkl_stat os (stack_finfo os) path (APR_FINFO_TYPE OR APR_FINFO_SIZE) (world st)") auto
  have close: "wp (\<lambda>_. True) (keeps_to (grammar ''RETR'') (farewell ''RETR'') st)
      (bnd (lkl_file_close os f (world st1)) (\<lambda>(_, w). Inr (r, st1\<lparr>world := w\<rparr>)))"
    if "codes st1 = codes st @ [550] \<or> codes st1 = codes st @ [425] \<and> r \<noteq> APR_SUCCESS" for st1 r
    using that
    by (auto simp: keeps_to_def speaks_def intro!: wp_any [where m = "lkl_file_close a b c" for a b c])
  show ?thesis
  proof (cases "rc \<noteq> APR_SUCCESS \<or> fi_filetype fi \<noteq> APR_REG")
    case True
    show ?thesis
      unfolding retr_opened_def Let_def s prod.case if_P [OF True] wp_bnd [of _ _ "lfd_cmdio_write _ _ _ _ _"]
      by (rule speaks_write, simp only: prod.case, rule close) (simp add: FTP_FILEFAIL_def)
  next
    case False
    have same: "st\<lparr>world := w, world := world (st\<lparr>world := w\<rparr>)\<rparr> = st\<lparr>world := w\<rparr>" by simp
    show ?thesis
      unfolding retr_opened_def Let_def s prod.case if_not_P [OF False]
        if_not_P [OF not_not [THEN iffD2, OF refl]] bnd_Inr same
    proof (cases "apr_pvsprintf os ''Opening %s %s %s %s %u %s''
        [Str (if is_ascii (st\<lparr>world := w\<rparr>) \<noteq> 0 then ''ASCII'' else ''BINARY''),
         Str '' mode data connection for '', cstr_arg path, Str '' ( '',
         Uns (nat (fi_size fi mod 2 ^ 32)), Str '' bytes).'']", goal_cases)
      case (2 msg)
      show ?case
        unfolding 2 option.case
      proof (subst wp_bnd, rule speaks_connect, goal_cases)
        case (4 fd st1)
        show ?case
        proof (cases fd)
          case None
          show ?thesis
            unfolding None prod.case if_P [OF refl]
            by (rule close) (use 4 None in \<open>simp add: APR_EINVAL_def\<close>)
        next
          case (Some d)
          show ?thesis
            unfolding Some prod.case if_not_P [OF option.distinct(2)]
          proof (subst wp_bnd, rule speaks_send, simp only: prod.case, goal_cases)
            case (1 ret f' w')
            show ?case
              using speaks_after_loop [OF 4(2) [unfolded Some], where g = id and w = w'
                  and Q = "keeps_to (grammar ''RETR'') (farewell ''RETR'') st"] 4(1) Some
              by (simp del: wp_bnd add: keeps_toI)
          qed
        qed
      qed (use assms(1) st in \<open>simp_all add: env_doc_def exclusive_def\<close>)
    qed simp
  qed
qed

interpretation say_retr: speaking_op "handle_retr os" "''RETR''" "env_doc os" for os
proof
  fix st :: "'a st"
  assume env: "env_doc os" and wf: "wf_sess st"
  have off: "restart_pos st = 0" "st\<lparr>restart_pos := 0\<rparr> = st" "is_ascii st = 0" and ex: "exclusive st"
    using wf by (simp_all add: wf_sess_def)
  have wf': "wf_sess (st\<lparr>world := w\<rparr>)" for w using wf by (simp add: sess_defs)
  have op: "wp (\<lambda>_. True) (keeps_to (grammar ''RETR'') (farewell ''RETR'') st)
      (retr_opened os p 0 f (st\<lparr>world := w\<rparr>))" for p f w
    by (rule wp_mono [OF speaks_retr_opened [OF env wf']])
      (auto intro!: keeps_to_same [of "st\<lparr>world := w\<rparr>" st])
  show "wp (\<lambda>_. True) (keeps_to (grammar ''RETR'') (farewell ''RETR'') st) (handle_retr os st)"
  proof (cases "ftp_arg_str st = None")
    case True
    then show ?thesis
      by (auto simp: handle_retr_def Let_def ftp_codes keeps_to_def speaks_def intro!: speaks_write)
  next
    case False
    show ?thesis
      unfolding handle_retr_def Let_def off if_not_P [OF False]
    proof (subst wp_bnd, rule speaks_checks [OF ex], goal_cases)
      case 1
      show ?case
        using op
        by (auto simp: ftp_codes off keeps_to_def speaks_def split: prod.splits option.splits intro!: speaks_write)
    qed (auto simp: APR_EINVAL_def keeps_to_def speaks_def)
  qed
qed

interpretation say_list: speaking_op "handle_list os" "''LIST''" "env_doc os" for os
proof
  fix st :: "'a st"
  assume env: "env_doc os" and wf: "wf_sess st"
  have st: "idle (data_conn (st\<lparr>world := w\<rparr>))" "exclusive (st\<lparr>world := w\<rparr>)" for w
    using wf by (simp_all add: wf_sess_def exclusive_def)
  have acc: "accept_doc os" using env by (simp add: env_doc_def)
  have d: "data_sock (data_conn st1) \<noteq> None" if "opened st (Some k) st1" for k and st st1 :: "'a st"
    using that by (simp add: opened_def)
  show "wp (\<lambda>_. True) (keeps_to (grammar ''LIST'') (farewell ''LIST'') st) (handle_list os st)"
    unfolding handle_list_def Let_def
    by (auto simp: ftp_codes APR_EINVAL_def split: prod.splits option.splits
        intro!: speaks_write speaks_connect [OF st acc] wp_any [where m = "list_dir a b c d" for a b c d]
          wp_dispose intro: keeps_toI keeps_to_fail dest!: d)
qed

interpretation say_rnfr: speaking_op "\<lambda>st. bnd (handle_rnfr os st) (\<lambda>(rc, temp, st). Inr (rc, st))" "''RNFR''" True for os
  by (rule speaking_one)
    (auto simp: handle_rnfr_def Let_def ftp_codes split: option.splits prod.splits intro!: speaks_write)

section \<open>One command\<close>

text \<open>What an iteration makes of a command: it is a word of the table, or it is not implemented.\<close>

definition words :: "string set" where
  "words = fst ` set reply_table - {''RNTO''}"

definition word_of :: "('w, 'z) server_scheme \<Rightarrow> 'w st \<Rightarrow> string \<Rightarrow> bool" where
  "word_of os st c \<longleftrightarrow> (if c = [] then \<forall>x \<in> words. \<not> lfd_cmdio_cmd_equals os st x
     else c \<in> words \<and> lfd_cmdio_cmd_equals os st c)"

definition outcome_speaks :: "int list set \<Rightarrow> int list set \<Rightarrow> 'w st \<Rightarrow> ('w loop_vars, int \<times> 'w st) ctl \<Rightarrow> bool" where
  "outcome_speaks L F st c = (case c of
       Again s \<Rightarrow> speaks L st (snd (snd s))
     | Done (rc, st') \<Rightarrow> speaks (L \<union> F) st st')"

definition said :: "('w, 'z) server_scheme \<Rightarrow> 'w st \<Rightarrow> ('w loop_vars, int \<times> 'w st) ctl \<Rightarrow> bool" where
  "said os st ctl \<longleftrightarrow> (\<exists>c. word_of os st c \<and> outcome_speaks (grammar c) (farewell c) st ctl)"

lemma words_eq: "words = {''PASV'', ''SYST'', ''USER'', ''PASS'', ''QUIT'', ''ABOR'', ''PORT'', ''RMD'', ''MKD'',
  ''PWD'', ''CWD'', ''CDUP'', ''RNFR'', ''TYPE'', ''RETR'', ''STOR'', ''DELE'', ''STOU'', ''LIST'', ''FEAT'',
  ''APPE'', ''SITE'', ''ALLO'', ''REIN'', ''ACCT'', ''SMNT''}"
  unfolding words_def reply_table_def list.set image_insert image_empty fst_conv
  by (simp add: insert_Diff_if)

lemma speaks_test: "keeps_to L F st (rc, st') \<Longrightarrow>
    wp E (outcome_speaks L F st) (loop_test b temp (rc, st'))"
  by (auto simp: loop_test_def keeps_to_def outcome_speaks_def speaks_def)

lemma speaks_run:
  assumes "wp (\<lambda>_. True) (keeps_to L F st) m"
  shows "wp (\<lambda>_. True) (outcome_speaks L F st) (bnd m (loop_test b temp))"
  unfolding wp_bnd by (rule wp_mono [OF assms]) (auto intro: speaks_test)

lemma said_word:
  assumes "lfd_cmdio_cmd_equals os st c" and "c \<in> words" and "c \<noteq> []"
    and "wp (\<lambda>_. True) (outcome_speaks (grammar c) (farewell c) st) m"
  shows "wp (\<lambda>_. True) (said os st) m"
  by (rule wp_mono [OF assms(4)]) (use assms(1-3) in \<open>auto simp: said_def word_of_def\<close>)

lemma speaks_say:
  assumes "[cmd] \<in> L"
  shows "wp (\<lambda>_. True) (keeps_to L F st) (lfd_cmdio_write os cmd msg args st)"
  by (rule speaks_write) (auto intro: keeps_toI assms)

lemma speaks_quit_branch:
  assumes "wf_sess st"
  shows "wp (\<lambda>_. True) (outcome_speaks (grammar ''QUIT'') (farewell ''QUIT'') st)
    (bnd (handle_quit os st) (\<lambda>r. Inr (Done r)))"
  unfolding wp_bnd
  by (rule wp_mono [OF say_quit.opr_speaks [OF TrueI assms]])
    (auto simp: outcome_speaks_def keeps_to_def speaks_def split: if_splits)

lemma speaks_rnfr_branch:
  assumes "wf_sess st"
  shows "wp (\<lambda>_. True) (outcome_speaks (grammar ''RNFR'') (farewell ''RNFR'') st)
    (bnd (handle_rnfr os st) (\<lambda>(rc, temp, st'). loop_test (rc = APR_SUCCESS \<and> temp \<noteq> None) temp (rc, st')))"
  using say_rnfr.opr_speaks [OF TrueI assms, of os]
  by (cases "handle_rnfr os st") (auto intro: speaks_test)

lemma speaks_other:
  assumes "\<forall>x \<in> words. \<not> lfd_cmdio_cmd_equals os st x"
  shows "wp (\<lambda>_. True) (said os st) (bnd (lfd_cmdio_write os FTP_COMMANDNOTIMPL msg [] st)
    (\<lambda>(_, st'). Inr (Again (b, temp, st'))))"
  unfolding wp_bnd
  by (rule speaks_write)
    (auto simp: said_def word_of_def outcome_speaks_def speaks_def FTP_COMMANDNOTIMPL_def assms intro!: exI [of _ "[]"])

lemmas own_words = say_pasv.opr_speaks say_syst.opr_speaks say_user.opr_speaks say_pass.opr_speaks
  say_abor.opr_speaks say_port.opr_speaks say_rmd.opr_speaks say_mkd.opr_speaks say_pwd.opr_speaks
  say_cwd.opr_speaks say_cdup.opr_speaks say_type.opr_speaks say_dele.opr_speaks say_feat.opr_speaks
  say_site.opr_speaks
lemmas transfer_words = say_retr.opr_speaks say_stor.opr_speaks say_stou.opr_speaks say_appe.opr_speaks
  say_list.opr_speaks

lemma dispatch_speaks:
  assumes "env_doc os" and "wf_sess st"
  shows "wp (\<lambda>_. True) (said os st) (dispatch os temp st)"
  unfolding dispatch_def Let_def
  by ((rule wp_ifI, (rule said_word, assumption, simp only: words_eq insert_iff simp_thms, rule list.distinct(2)),
       (rule speaks_quit_branch [OF assms(2)] | rule speaks_rnfr_branch [OF assms(2)]
        | rule speaks_run, (rule own_words [OF TrueI assms(2)] | rule transfer_words [OF assms]
          | rule speaks_say, simp add: FTP_ALLOOK_def FTP_COMMANDNOTIMPL_def)))+,
      rule speaks_other, simp add: words_eq)

section \<open>One iteration, and a session\<close>

lemma get_cmd_silent:
  assumes "strtok_doc (apr_strtok os)" and "wf_sess st"
  shows "wp (\<lambda>_. True) (\<lambda>(rc, st'). codes st' = codes st \<and> wf_sess st') (lfd_cmdio_get_cmd_and_arg os st)"
proof -
  have "wp (\<lambda>_. True) (\<lambda>(rc, st'). codes st' = codes st) (lfd_cmdio_get_cmd_and_arg os st)"
    by (auto simp: lfd_cmdio_get_cmd_and_arg_def Let_def codes_def split: prod.splits
        intro!: wp_any [where m = "parse_command a b" for a b])
  moreover have "wp (\<lambda>_. True) (\<lambda>(rc, st'). wf_sess st') (lfd_cmdio_get_cmd_and_arg os st)"
    by (rule wp_mono [OF wp_get_cmd [OF assms]]) (auto simp: served_def)
  ultimately show ?thesis by (rule wp_mono [OF wp_conj]) auto
qed

lemma outcome_speaks_same:
  "codes st1 = codes st \<Longrightarrow> outcome_speaks L F st1 c \<Longrightarrow> outcome_speaks L F st c"
  by (auto simp: outcome_speaks_def speaks_def split: ctl.splits)

text \<open>After the line has been read, whatever it was.\<close>

lemma step_speaks:
  assumes "env_doc os" and "strtok_doc (apr_strtok os)" and "wf_sess st"
  shows "wp (\<lambda>_. True) (\<lambda>ctl. \<exists>L F. outcome_speaks L F st ctl \<and> (\<forall>cs \<in> L. cs = [] \<or> completes cs))
    (protocol_step os (rnfrto, temp, st))"
proof -
  let ?P = "\<lambda>st ctl. \<exists>L F. outcome_speaks L F st ctl \<and> (\<forall>cs \<in> L. cs = [] \<or> completes cs)"
  have g: "\<forall>cs \<in> grammar c. cs = [] \<or> completes cs" for c
  proof
    fix cs assume "cs \<in> grammar c"
    then show "cs = [] \<or> completes cs"
      by (cases "c = ''SITE''") (use grammar_completes in \<open>auto simp: only_def completes_def\<close>)
  qed
  have run: "wp (\<lambda>_. True) (?P st1) (bnd m (loop_test b temp))"
    if "wp (\<lambda>_. True) (keeps_to (grammar ''RNTO'') (farewell ''RNTO'') st1) m" for m b st1
    by (rule wp_mono [OF speaks_run [OF that]]) (use g [of "''RNTO''"] in blast)+
  have after: "wp (\<lambda>_. True) (?P st1)
      (if lfd_cmdio_cmd_equals os st1 ''RNTO'' then
         if rnfrto then bnd (handle_rnto os temp st1) (loop_test False temp)
         else bnd (handle_bad_rnto os st1) (loop_test rnfrto temp)
       else if rnfrto then bnd (handle_bad_rnto os st1) (loop_test False temp)
       else dispatch os temp st1)" if wf: "wf_sess st1" for st1
  proof -
    have "wp (\<lambda>_. True) (?P st1) (dispatch os temp st1)"
      by (rule wp_mono [OF dispatch_speaks [OF assms(1) wf]]) (use g in \<open>auto simp: said_def\<close>)
    then show ?thesis
      using run [OF say_rnto.opr_speaks [OF TrueI wf, where os = os]]
        run [OF say_bad_rnto.opr_speaks [OF TrueI wf, where os = os]] by (simp del: wp_bnd)
  qed
  have wf: "wf_sess (st\<lparr>world := w\<rparr>)" for w using assms(3) by (simp add: sess_defs)
  show ?thesis
    unfolding protocol_step_def prod.case
  proof (subst wp_bnd, rule wp_mono [OF get_cmd_silent [OF assms(2) wf]], simp, goal_cases)
    case (1 r)
    obtain rc st1 where r: "r = (rc, st1)" by (cases r)
    have st1: "codes st1 = codes st" "wf_sess st1" using 1 by (simp_all add: r)
    have up: "?P st1 ctl \<Longrightarrow> ?P st ctl" for ctl
      using outcome_speaks_same [OF st1(1)] by blast
    show ?case
    proof (cases "rc = APR_SUCCESS")
      case True
      show ?thesis
        unfolding r prod.case True if_not_P [OF not_not [THEN iffD2, OF refl]]
        by (rule wp_mono [OF after [OF st1(2)]]) (simp, rule up)
    next
      case False
      have "outcome_speaks {[]} {} st (Done (rc, st1))" by (simp add: outcome_speaks_def speaks_def st1)
      then have "?P st (Done (rc, st1))" by (intro exI) auto
      with False show ?thesis by (simp add: r)
    qed
  qed
qed

text \<open>What the loop makes of a known word: with RNFR behind it, and as one that is dispatched.\<close>

definition expected :: "bool \<Rightarrow> string \<Rightarrow> int list set" where
  "expected rnfrto c = (if rnfrto \<and> c \<noteq> ''RNTO'' then only {503} else grammar c)"

lemma speaks_rename:
  assumes "wf_sess st" and "rnfrto \<or> c = ''RNTO''"
  shows "wp (\<lambda>_. True) (outcome_speaks (expected rnfrto c) (farewell c) st)
    (bnd (if rnfrto \<and> c = ''RNTO'' then handle_rnto os temp st else handle_bad_rnto os st) (loop_test b temp))"
proof (rule speaks_run)
  show "wp (\<lambda>_. True) (keeps_to (expected rnfrto c) (farewell c) st)
    (if rnfrto \<and> c = ''RNTO'' then handle_rnto os temp st else handle_bad_rnto os st)"
  proof (cases "rnfrto \<and> c = ''RNTO''")
    case True
    with say_rnto.opr_speaks [OF TrueI assms(1)] show ?thesis by (simp add: expected_def)
  next
    case False
    with assms(2) show ?thesis
      by (auto simp: handle_bad_rnto_def FTP_BADPROT_def expected_def intro!: speaks_say)
  qed
qed

lemma same_word:
  assumes "word_of os st d" and "\<And>x. upper_word x \<Longrightarrow> lfd_cmdio_cmd_equals os st x \<longleftrightarrow> c = x" and "c \<noteq> ''RNTO''"
    and "c \<noteq> []"
  shows "grammar d = grammar c \<and> farewell d = farewell c"
proof -
  have upper: "\<forall>x \<in> words. upper_word x" unfolding words_eq by (simp add: upper_words)
  show ?thesis
  proof (cases "d = []")
    case True
    with assms(1,2) upper have "c \<notin> words" by (auto simp: word_of_def)
    with assms(3) have "map_of reply_table c = None" by (auto simp: words_def map_of_eq_None_iff)
    moreover have "map_of reply_table [] = None" by (simp add: reply_table_def)
    ultimately show ?thesis by (simp add: True grammar_def farewell_def)
  next
    case False
    with assms(1,2) upper have "d = c" unfolding word_of_def by (metis (full_types))
    then show ?thesis by simp
  qed
qed

lemma word_speaks:
  assumes "env_doc os" and "wf_sess st" and "c \<noteq> []"
    and eq: "\<And>x. upper_word x \<Longrightarrow> lfd_cmdio_cmd_equals os st x \<longleftrightarrow> c = x"
  shows "wp (\<lambda>_. True) (outcome_speaks (expected rnfrto c) (farewell c) st)
    (if lfd_cmdio_cmd_equals os st ''RNTO'' then
       if rnfrto then bnd (handle_rnto os temp st) (loop_test False temp)
       else bnd (handle_bad_rnto os st) (loop_test rnfrto temp)
     else if rnfrto then bnd (handle_bad_rnto os st) (loop_test False temp)
     else dispatch os temp st)"
proof (cases "rnfrto \<or> c = ''RNTO''")
  case True
  with speaks_rename [OF assms(2) True, of os temp] eq show ?thesis
    by (auto simp del: wp_bnd)
next
  case False
  have "wp (\<lambda>_. True) (outcome_speaks (expected rnfrto c) (farewell c) st) (dispatch os temp st)"
    by (rule wp_mono [OF dispatch_speaks [OF assms(1,2)]])
      (use False same_word [OF _ eq _ assms(3)] in \<open>auto simp: said_def expected_def\<close>)
  with False eq show ?thesis by simp
qed

text \<open>
  C7. Every command is answered by a sentence of its own grammar, in the order of the table: for
  instance RETR by 501 or 550, or by 150 and then 226, 426 or 451. When the loop ends with an error the
  sentence may also be one of the farewell. After RNFR every command but RNTO is answered 503.
\<close>
theorem answered_by_grammar:
  assumes "env_doc os" and "strtok_doc (apr_strtok os)" and "natcasecmp_doc (apr_strnatcasecmp os)"
    and "wf_sess st" and "receives os st cmd arg st1" and "cmd \<in> {c, c @ CRLF}" and "upper_word c" and "c \<noteq> []"
    and "protocol_step os (rnfrto, temp, st) = Inr ctl"
  shows "case ctl of
      Again (_, _, st') \<Rightarrow> speaks (if rnfrto \<and> c \<noteq> ''RNTO'' then only {503} else grammar c) st st'
    | Done (_, st') \<Rightarrow> speaks ((if rnfrto \<and> c \<noteq> ''RNTO'' then only {503} else grammar c) \<union> farewell c) st st'"
proof -
  have eq: "lfd_cmdio_cmd_equals os st1 x \<longleftrightarrow> c = x" if "upper_word x" for x
    by (rule cmd_equals_word [OF assms(3) _ assms(7) that]) (use assms(5,6) in \<open>auto simp: receives_def\<close>)
  have wf: "wf_sess (st\<lparr>world := w\<rparr>)" for w using assms(4) by (simp add: sess_defs)
  from assms(5) get_cmd_silent [OF assms(2) wf, of "apr_pool_clear os (world st)"]
  have st1: "codes st1 = codes st" "wf_sess st1" by (auto simp: receives_def)
  from word_speaks [OF assms(1) st1(2) assms(8) eq, of rnfrto temp] assms(9)
  have "outcome_speaks (expected rnfrto c) (farewell c) st1 ctl"
    unfolding step_receives [OF assms(5)] by (simp del: wp_bnd)
  from outcome_speaks_same [OF st1(1) this] show ?thesis
    by (auto simp: outcome_speaks_def expected_def split: ctl.splits)
qed

text \<open>
  Whatever the client sends, the replies of a session are a sequence of sentences, each of which is
  empty (SITE) or consists of preliminary replies and one that completes the command, as RFC 959 demands.
\<close>
theorem session_speaks_ftp:
  assumes "env_doc os" and "strtok_doc (apr_strtok os)" and "wf_sess st"
    and "reachable os st (rnfrto, temp, st')"
  shows "\<exists>css. codes st' = codes st @ concat css \<and> (\<forall>cs \<in> set css. cs = [] \<or> completes cs)"
proof -
  have "\<exists>css. codes (snd (snd s)) = codes st @ concat css \<and> (\<forall>cs \<in> set css. cs = [] \<or> completes cs)"
    if "reachable os st s" for s
    using that
  proof induction
    case start
    show ?case by (intro exI [of _ "[]"]) simp
  next
    case (iterate s s')
    obtain b t u where s: "s = (b, t, u)" by (cases s)
    from iterate.IH obtain css where css: "codes u = codes st @ concat css"
      "\<forall>cs \<in> set css. cs = [] \<or> completes cs" by (auto simp: s)
    have "wf_sess u" using reachable_served [OF iterate.hyps(1) assms(1-3)] by (simp add: s served_def)
    from step_speaks [OF assms(1,2) this, of b t] iterate.hyps(2) css(2) obtain cs where
      "codes (snd (snd s')) = codes u @ cs" "cs = [] \<or> completes cs"
      by (auto simp: s outcome_speaks_def speaks_def)
    with css show ?case by (intro exI [of _ "css @ [cs]"]) auto
  qed
  from this [OF assms(4)] show ?thesis by simp
qed

end
