(* ===== verification/RoundTrip.thy ===== *)
theory RoundTrip
  imports ReplyCodes Delivery
begin

text \<open>
  A whole session in which a client uploads a file and downloads it again: the command loop, PASV, the
  data connection, the transfer loops and the file operations together.
\<close>

section \<open>The environment of such a session\<close>

text \<open>
  The observations of the world: \<open>todo\<close> are the command lines the client will still send, \<open>incoming\<close> is
  what it will send on the data connection, \<open>content\<close> the content of the file, \<open>rest\<close> what an open
  descriptor has not read of it, \<open>sent\<close> what the client has received on data connections. They change by
  the calls that are about them, and by no others.
\<close>

definition commands_keep :: "('w, 'z) server_scheme \<Rightarrow> sock \<Rightarrow> ('w \<Rightarrow> 'b) \<Rightarrow> bool" where
  "commands_keep os c g \<longleftrightarrow> (\<forall>w. g (apr_pool_clear os w) = g w)
     \<and> (\<forall>n w. g (snd (snd (apr_socket_recv os c n w))) = g w)"

text \<open>Setting up a passive port succeeds and touches nothing of interest.\<close>

definition passive_works :: "('w, 'z) server_scheme \<Rightarrow> ('w \<Rightarrow> 'b) \<Rightarrow> bool" where
  "passive_works os g \<longleftrightarrow>
     max_pasv_port (config os) \<noteq> 0
   \<and> (word_of_int (lfd_config_max_sockets_to_try_to_bind (config os)) :: 16 word) \<noteq> 1
   \<and> (\<forall>n w. fst (apr_generate_random_bytes os n w) = APR_SUCCESS
        \<and> g (snd (snd (apr_generate_random_bytes os n w))) = g w)
   \<and> (\<forall>h p w. fst (apr_sockaddr_info_get os h p w) = APR_SUCCESS
        \<and> fst (snd (apr_sockaddr_info_get os h p w)) \<noteq> []
        \<and> g (snd (snd (apr_sockaddr_info_get os h p w))) = g w)
   \<and> (\<forall>fam w. fst (apr_socket_create os fam w) = APR_SUCCESS \<and> g (snd (snd (apr_socket_create os fam w))) = g w)
   \<and> (\<forall>s opt v w. fst (apr_socket_opt_set os s opt v w) = APR_SUCCESS \<and> g (snd (apr_socket_opt_set os s opt v w)) = g w)
   \<and> (\<forall>s a w. fst (apr_socket_bind os s a w) = APR_SUCCESS \<and> g (snd (apr_socket_bind os s a w)) = g w)
   \<and> (\<forall>s n w. fst (apr_socket_listen os s n w) = APR_SUCCESS \<and> g (snd (apr_socket_listen os s n w)) = g w)
   \<and> (\<forall>s w. g (snd (apr_socket_close os s w)) = g w)
   \<and> (\<forall>a. \<exists>x y z u. x \<le> 255 \<and> y \<le> 255 \<and> z \<le> 255 \<and> u \<le> 255
        \<and> apr_sockaddr_ip_get os a = (APR_SUCCESS, join (CHR ''.'') (map dec_nat [x, y, z, u])))"

section \<open>PASV\<close>

lemma bind_works:
  assumes "passive_works os g"
  shows "\<exists>saddr port fd w. bind_to_random_passive_port os st
      = Inr (APR_SUCCESS, Some (saddr, port), st\<lparr>world := w, pasv_listen_fd := Some fd\<rparr>) \<and> g w = g (world st)"
proof -
  note d = assms [unfolded passive_works_def]
  obtain b w1 where r: "apr_generate_random_bytes os 2 (world st) = (APR_SUCCESS, b, w1)" "g w1 = g (world st)"
    using d by (metis prod.collapse)
  let ?port = "scale_port (min_pasv_port (config os)) (max_pasv_port (config os)) (rand16 b)"
  let ?host = "Some (lfd_config_listen_host (config os))"
  obtain sa sas w2 where a: "apr_sockaddr_info_get os ?host ?port w1 = (APR_SUCCESS, sa # sas, w2)" "g w2 = g w1"
    using d by (metis list.exhaust prod.collapse)
  obtain fd w3 where c: "apr_socket_create os (family sa) w2 = (APR_SUCCESS, fd, w3)" "g w3 = g w2"
    using d by (metis prod.collapse)
  obtain w4 where o: "apr_socket_opt_set os fd SO_REUSEADDR 1 w3 = (APR_SUCCESS, w4)" "g w4 = g w3"
    using d by (metis prod.collapse)
  obtain w5 where b: "apr_socket_bind os fd sa w4 = (APR_SUCCESS, w5)" "g w5 = g w4"
    using d by (metis prod.collapse)
  have "bind_attempt os (world st) = Inr (Some (?port, sa, fd), w5)"
    using d by (simp add: bind_attempt_def Let_def r a c o b)
  then have "run_loop (bind_step os) (word_of_int (lfd_config_max_sockets_to_try_to_bind (config os)), world st)
      = Inr (Some (?port, sa, fd), w5)"
    using d by (intro run_loop_Done) (simp add: bind_step_def Let_def)
  then show ?thesis
    using r a c o b by (auto simp: bind_to_random_passive_port_def)
qed

lemma pasv_format:
  assumes "printf_doc (apr_pvsprintf os)"
  shows "\<exists>buff. apr_pvsprintf os (reply_format FTP_PASVOK PASV_MSG) [Dec a, Dec b, Dec c, Dec d, Dec e, Dec f] = Some buff"
  using reply_format_eq [of FTP_PASVOK PASV_MSG]
  by (simp add: FTP_PASVOK_def PASV_MSG_def printf_docD [OF assms] digit_not_percent CR_def LF_def)

lemma pasv_works:
  assumes "passive_works os g" and "strtok_doc (apr_strtok os)" and "strtoff_doc (apr_strtoff os)"
    and "printf_doc (apr_pvsprintf os)" and "client_lines os (comm_sock st) todo" and "\<And>b w. g (snd (snd (apr_socket_send os (comm_sock st) b w))) = g w"
  shows "\<exists>st'. handle_pasv os st = Inr (APR_SUCCESS, st') \<and> g (world st') = g (world st)
    \<and> pasv_listen_fd st' \<noteq> None \<and> cwd_path st' = cwd_path st \<and> codes st' = codes st @ [227]"
proof -
  note d = assms(1) [unfolded passive_works_def]
  let ?st = "lfd_communication_cleanup os st"
  obtain w0 where st0: "?st = st\<lparr>world := w0, p_port_sockaddr := None, pasv_listen_fd := None\<rparr>" "g w0 = g (world st)"
  proof -
    have "?st = st\<lparr>world := world ?st, p_port_sockaddr := None, pasv_listen_fd := None\<rparr>"
      using cleanup_fields [of os st] by auto
    moreover have "g (world ?st) = g (world st)"
      using d by (cases "pasv_listen_fd st") (auto simp: lfd_communication_cleanup_def port_cleanup_def pasv_cleanup_def)
    ultimately show thesis by (rule that)
  qed
  obtain saddr port fd w1 where bound: "bind_to_random_passive_port os ?st
      = Inr (APR_SUCCESS, Some (saddr, port), ?st\<lparr>world := w1, pasv_listen_fd := Some fd\<rparr>)" "g w1 = g w0"
    using bind_works [OF assms(1), of ?st] st0 by auto
  obtain w2 where l: "apr_socket_listen os fd 1 w1 = (APR_SUCCESS, w2)" "g w2 = g w1"
    using d by (metis prod.collapse)
  obtain x y z u where ip: "x \<le> 255" "y \<le> 255" "z \<le> 255" "u \<le> 255"
    "apr_sockaddr_ip_get os saddr = (APR_SUCCESS, join (CHR ''.'') (map dec_nat [x, y, z, u]))"
    using d by metis
  have "lfd_str_parse_uchar_string_sep os (Some (join (CHR ''.'') (map dec_nat [x, y, z, u]))) (CHR ''.'') 4
      = Inr (True, [x, y, z, u])"
    by (rule parse_string_join [OF assms(2,3)]) (use ip in \<open>auto simp: is_digit_def\<close>)
  then have "handle_pasv os st = lfd_cmdio_write os FTP_PASVOK PASV_MSG
      [Dec (int x), Dec (int y), Dec (int z), Dec (int u), Dec (uint (drop_bit 8 port)), Dec (uint (port AND 0xFF))]
      (st\<lparr>world := w2, p_port_sockaddr := None, pasv_listen_fd := Some fd\<rparr>)"
    using bound(1) l(1) ip(5) by (simp add: handle_pasv_def Let_def st0(1)) (cases st, simp)
  moreover obtain buff where "apr_pvsprintf os (reply_format FTP_PASVOK PASV_MSG) [Dec (int x), Dec (int y),
      Dec (int z), Dec (int u), Dec (uint (drop_bit 8 port)), Dec (uint (port AND 0xFF))] = Some buff"
    using pasv_format [OF assms(4)] by blast
  moreover obtain n w3 where "apr_socket_send os (comm_sock st) buff w2 = (APR_SUCCESS, n, w3)" "g w3 = g w2"
    using client_linesD(2) [OF assms(5), of buff w2] assms(6) [of buff w2] by (metis prod.collapse)
  ultimately show ?thesis
    using st0 bound l by (auto simp: lfd_cmdio_write_def FTP_PASVOK_def codes_def)
qed


section \<open>The iterations of the loop\<close>

text \<open>The kernel's side: what opening the file \<open>p\<close> does, for writing and for reading.\<close>

definition disk_file_works :: "('w, 'z) server_scheme \<Rightarrow> string \<Rightarrow> ('w \<Rightarrow> string) \<Rightarrow> ('w \<Rightarrow> string) \<Rightarrow>
    ('w \<Rightarrow> string \<times> string \<times> string list) \<Rightarrow> bool" where
  "disk_file_works os p content rest others \<longleftrightarrow>
     (\<forall>w fd w'. lkl_sys_open os (Some p) (O_WRONLY OR O_CREAT OR O_APPEND OR O_TRUNC OR O_LARGEFILE) 0x1B6 w = (fd, w') \<longrightarrow>
        0 \<le> fd \<and> content w' = [] \<and> others w' = others w \<and> (\<exists>\<mu>. kernel_writes os fd content \<mu>))
   \<and> (\<forall>w fd w'. lkl_sys_open os (Some p) (O_RDONLY OR O_LARGEFILE) 0 w = (fd, w') \<longrightarrow>
        0 \<le> fd \<and> rest w' = content w \<and> content w' = content w \<and> others w' = others w
        \<and> (\<exists>\<mu>. kernel_reads os fd rest \<mu>))"

text \<open>The network's side, and which stream a call on the file or on a socket leaves alone.\<close>

definition data_works :: "('w, 'z) server_scheme \<Rightarrow> sock \<Rightarrow> ('w \<Rightarrow> string list) \<Rightarrow> ('w \<Rightarrow> string) \<Rightarrow> ('w \<Rightarrow> string)
    \<Rightarrow> ('w \<Rightarrow> string) \<Rightarrow> ('w \<Rightarrow> string) \<Rightarrow> bool" where
  "data_works os c todo incoming content rest sent \<longleftrightarrow>
     (\<forall>sk. sk \<noteq> c \<longrightarrow> socket_recvs os sk incoming \<and> socket_sends os sk sent)
   \<and> recvs_keep os content \<and> writes_keep os incoming \<and> reads_keep os sent \<and> sends_keep os rest
   \<and> upload_keeps os c (\<lambda>w. (sent w, todo w)) \<and> download_keeps os c (\<lambda>w. (incoming w, content w, todo w))
   \<and> control_keeps os c (\<lambda>w. (content w, incoming w)) \<and> control_keeps os c (\<lambda>w. (rest w, sent w))"

lemma abs_path_cong: "cwd_path st' = cwd_path st \<Longrightarrow> get_abs_path a st' = get_abs_path a st"
  by (simp add: get_abs_path_def split: option.splits list.splits)

text \<open>An argument that fits into the line.\<close>

definition plain_arg :: "string \<Rightarrow> bool" where
  "plain_arg a \<longleftrightarrow> a \<noteq> [] \<and> CR \<notin> set a \<and> LF \<notin> set a \<and> NUL \<notin> set a \<and> length a < 93"

lemma transfer_sentence:
  assumes "keeps_to (only C \<union> after_150 D) F st (APR_SUCCESS, st')" and "reply_code (last (replies st')) = 226"
    and "226 \<notin> C"
  shows "codes st' = codes st @ [150, 226]"
proof -
  from assms(1) obtain cs where cs: "cs \<in> only C \<union> after_150 D" "codes st' = codes st @ cs"
    by (auto simp: keeps_to_def speaks_def)
  have "replies st' \<noteq> []" using cs by (auto simp: codes_def only_def after_150_def)
  then have "last (codes st') = 226" using assms(2) by (simp add: codes_def last_map)
  with cs assms(3) show ?thesis by (auto simp: only_def after_150_def)
qed

text \<open>One command with an argument, handled by \<open>h\<close>; the iteration is the handler's.\<close>

lemma dispatch_transfer:
  assumes "natcasecmp_doc (apr_strnatcasecmp os)" and "receives os st c (Some a) st1"
  shows "c = ''STOR'' \<Longrightarrow> protocol_step os (False, temp, st) = bnd (handle_stor os st1) (loop_test False temp)"
    and "c = ''RETR'' \<Longrightarrow> protocol_step os (False, temp, st) = bnd (handle_retr os st1) (loop_test False temp)"
proof -
  have eq: "lfd_cmdio_cmd_equals os st1 x \<longleftrightarrow> c = x" if "upper_word x" "upper_word c" for x
    by (rule cmd_equals_word [OF assms(1) _ that(2,1)]) (use assms(2) in \<open>simp add: receives_def\<close>)
  show "c = ''STOR'' \<Longrightarrow> protocol_step os (False, temp, st) = bnd (handle_stor os st1) (loop_test False temp)"
    "c = ''RETR'' \<Longrightarrow> protocol_step os (False, temp, st) = bnd (handle_retr os st1) (loop_test False temp)"
    using eq by (simp_all add: step_receives [OF assms(2)] dispatch_def)
qed


text \<open>What an iteration leaves for the next.\<close>

definition ready :: "('w \<Rightarrow> string list) \<Rightarrow> sock \<Rightarrow> string \<Rightarrow> string list \<Rightarrow> 'w st \<Rightarrow> bool" where
  "ready todo c cwd ls st \<longleftrightarrow> wf_sess st \<and> comm_sock st = c \<and> cwd_path st = cwd \<and> todo (world st) = ls"

lemma receives_keeps:
  assumes "receives os st cmd a st1" and "commands_keep os (comm_sock st) g"
  shows "g (world st1) = g (world st)"
proof -
  obtain rc bytes w where r: "apr_socket_recv os (comm_sock st) cmd_input_buffer_len (apr_pool_clear os (world st))
      = (rc, bytes, w)" by (metis prod_cases3)
  have "g (snd (snd (apr_socket_recv os (comm_sock st) cmd_input_buffer_len (apr_pool_clear os (world st)))))
      = g (world st)"
    using assms(2) by (simp add: commands_keep_def)
  moreover have "world st1 = w"
    using assms(1)
    by (auto simp: receives_def lfd_cmdio_get_cmd_and_arg_def Let_def r bnd_eq_Inr split: if_splits)
  ultimately show ?thesis by (simp add: r)
qed

text \<open>The iteration that begins with a command and its argument.\<close>

lemma transfer_received:
  assumes "ready todo c cwd ((cmd @ '' '' @ a @ CRLF) # ls) st" and "client_lines os c todo"
    and "strtok_doc (apr_strtok os)" and "commands_keep os c g" and "plain_arg a" and "cmd \<in> {''STOR'', ''RETR''}"
  obtains st1 where "receives os st cmd (Some a) st1" and "todo (world st1) = ls" and "wf_sess st1"
    and "comm_sock st1 = c" and "cwd_path st1 = cwd" and "codes st1 = codes st" and "g (world st1) = g (world st)"
    and "pasv_listen_fd st1 = pasv_listen_fd st"
proof -
  have st: "wf_sess st" "comm_sock st = c" "cwd_path st = cwd" "todo (world st) = (cmd @ '' '' @ a @ CRLF) # ls"
    using assms(1) by (simp_all add: ready_def)
  have lines: "client_lines os (comm_sock st) todo" using assms(2) st(2) by simp
  have cmd: "cmd \<noteq> []" "CHR '' '' \<notin> set cmd" "NUL \<notin> set (cmd @ a)" "length cmd + length a < 97"
    "a \<noteq> []" "CR \<notin> set a" "LF \<notin> set a"
    using assms(5,6) by (auto simp: plain_arg_def NUL_def)
  from receives_arg [OF lines assms(3) st(4) cmd(1,2,5,6,7,3,4)] obtain st1 where
    r: "receives os st cmd (Some a) st1" "todo (world st1) = ls"
    and st1: "st1 = st\<lparr>world := world st1, cmd_input_buffer := cmd_input_buffer st1,
        ftp_cmd_str := Some cmd, ftp_arg_str := Some a\<rparr>" by blast
  have f: "wf_sess st1" "comm_sock st1 = c" "cwd_path st1 = cwd" "codes st1 = codes st"
    "pasv_listen_fd st1 = pasv_listen_fd st"
    using st cmd(3,5) by (subst st1; simp add: sess_defs wf_arg_def codes_def)+
  moreover have "g (world st1) = g (world st)" using receives_keeps [OF r(1)] assms(4) st(2) by simp
  ultimately show thesis using r that by blast
qed

lemma pasv_iteration:
  assumes "ready todo c cwd ((''PASV'' @ CRLF) # ls) st" and "client_lines os c todo"
    and "strtok_doc (apr_strtok os)" and "strtoff_doc (apr_strtoff os)" and "printf_doc (apr_pvsprintf os)"
    and "natcasecmp_doc (apr_strnatcasecmp os)" and "passive_works os (\<lambda>w. (todo w, g w))"
    and "commands_keep os c g" and "\<And>b w. g (snd (snd (apr_socket_send os c b w))) = g w"
  shows "\<exists>st'. protocol_step os (False, temp, st) = Inr (Again (False, temp, st')) \<and> ready todo c cwd ls st'
    \<and> pasv_listen_fd st' \<noteq> None \<and> g (world st') = g (world st) \<and> codes st' = codes st @ [227]"
proof -
  have st: "wf_sess st" "comm_sock st = c" "cwd_path st = cwd" "todo (world st) = (''PASV'' @ CRLF) # ls"
    using assms(1) by (simp_all add: ready_def)
  have lines: "client_lines os (comm_sock st) todo" using assms(2) st(2) by simp
  have "short_word ''PASV''" by (simp add: short_word_def)
  from receives_word [OF lines assms(3) st(4) this] obtain st1 where
    r: "receives os st (''PASV'' @ CRLF) None st1" "todo (world st1) = ls"
    and st1: "st1 = st\<lparr>world := world st1, cmd_input_buffer := cmd_input_buffer st1,
        ftp_cmd_str := Some (''PASV'' @ CRLF), ftp_arg_str := None\<rparr>" by blast
  have f: "wf_sess st1" "comm_sock st1 = c" "cwd_path st1 = cwd" "codes st1 = codes st"
    using st by (subst st1; simp add: sess_defs wf_arg_def codes_def)+
  have g1: "g (world st1) = g (world st)" using receives_keeps [OF r(1)] assms(8) st(2) by simp
  have eq: "lfd_cmdio_cmd_equals os st1 x \<longleftrightarrow> ''PASV'' = x" if "upper_word x" for x
    by (rule cmd_equals_word [OF assms(6) _ _ that]) (use r(1) in \<open>simp_all add: receives_def\<close>)
  obtain st2 where st2: "handle_pasv os st1 = Inr (APR_SUCCESS, st2)"
    "(todo (world st2), g (world st2)) = (todo (world st1), g (world st1))" "pasv_listen_fd st2 \<noteq> None"
    "cwd_path st2 = cwd_path st1" "codes st2 = codes st1 @ [227]"
    using pasv_works [OF assms(7,3,4,5), of st1 todo] assms(2,9) client_linesD(3) [OF assms(2)] f(2) by auto
  have "served st1 st2" using pasv.opr_served [OF TrueI f(1), of os] st2(1) by simp
  then show ?thesis
    using st2 f r(2) g1
    by (simp add: step_receives [OF r(1)] eq dispatch_def loop_test_def ready_def served_def)
qed


lemma stor_iteration:
  assumes "ready todo c cwd ((''STOR'' @ '' '' @ a @ CRLF) # ls) st" and "client_lines os c todo"
    and "strtok_doc (apr_strtok os)" and "printf_doc (apr_pvsprintf os)"
    and "natcasecmp_doc (apr_strnatcasecmp os)" and "env_doc os" and "smooth_network os"
    and "commands_keep os c (\<lambda>w. (content w, incoming w, sent w))"
    and "disk_file_works os p content rest (\<lambda>w. (incoming w, sent w, todo w))"
    and "data_works os c todo incoming content rest sent"
    and "plain_arg a" and "get_abs_path (Some a) st = Some p" and "pasv_listen_fd st \<noteq> None" and "resolver_doc os"
  shows "\<exists>st'. protocol_step os (False, temp, st) = Inr (Again (False, temp, st')) \<and> ready todo c cwd ls st'
    \<and> content (world st') = incoming (world st) \<and> sent (world st') = sent (world st)
    \<and> codes st' = codes st @ [150, 226]"
proof -
  obtain st1 where r: "receives os st ''STOR'' (Some a) st1" "todo (world st1) = ls" "wf_sess st1"
    "comm_sock st1 = c" "cwd_path st1 = cwd" "codes st1 = codes st"
    and g: "(content (world st1), incoming (world st1), sent (world st1))
      = (content (world st), incoming (world st), sent (world st))"
    and l: "pasv_listen_fd st1 = pasv_listen_fd st"
    by (rule transfer_received [OF assms(1-3,8,11)]) auto
  have k: "pasv_listen_fd st1 \<noteq> None \<or> p_port_sockaddr st1 \<noteq> None" using assms(13) l by auto
  have arg: "ftp_arg_str st1 = Some a" "get_abs_path (Some a) st1 = Some p"
    using r(1,5) assms(1,12) by (auto simp: receives_def ready_def abs_path_cong [of st1 st])
  obtain fd w1 where op: "lkl_sys_open os (Some p) (O_WRONLY OR O_CREAT OR O_APPEND OR O_TRUNC OR O_LARGEFILE) 0x1B6
      (world st1) = (fd, w1)" by (metis prod.collapse)
  with assms(9) obtain \<mu> where w1: "0 \<le> fd" "content w1 = []"
    "(incoming w1, sent w1, todo w1) = (incoming (world st1), sent (world st1), todo (world st1))"
    "kernel_writes os fd content \<mu>"
    unfolding disk_file_works_def by blast
  note d = assms(10) [unfolded data_works_def]
  have "\<exists>rc st2. handle_stor os st1 = Inr (rc, st2) \<and> untouched (\<lambda>w. (sent w, todo w)) st1 st2
      \<and> (reply_code (last (replies st2)) = 226 \<longrightarrow> content (world st2) = incoming (world st1))
      \<and> (0 \<le> fd \<and> smooth_network os \<longrightarrow> completed (\<lambda>w. (sent w, todo w)) st1 rc st2)"
    by (rule stor_works [where log = content and incoming = incoming and h = "\<lambda>w. (sent w, todo w)",
          OF r(3) k arg op w1(2) _ _ assms(4,6) w1(4)])
      (use w1 d r(4) assms(14) in simp_all)
  then obtain rc st2 where st2: "handle_stor os st1 = Inr (rc, st2)"
    "reply_code (last (replies st2)) = 226 \<longrightarrow> content (world st2) = incoming (world st1)"
    "completed (\<lambda>w. (sent w, todo w)) st1 rc st2"
    using w1(1) assms(7) by blast
  have rc: "rc = APR_SUCCESS" "reply_code (last (replies st2)) = 226" "sent (world st2) = sent (world st1)"
    "todo (world st2) = ls" "cwd_path st2 = cwd"
    using st2(3) r by (simp_all add: completed_def untouched_def)
  have served: "served st1 st2" using stor.opr_served [OF assms(6) r(3)] st2(1) by simp
  have "keeps_to (grammar ''STOR'') (farewell ''STOR'') st1 (rc, st2)"
    using say_stor.opr_speaks [OF assms(6) r(3)] st2(1) by simp
  then have "codes st2 = codes st1 @ [150, 226]"
    using rc(1,2) by (intro transfer_sentence [where C = "{501, 553}"]) simp_all
  then show ?thesis
    using st2(1,2) rc served r g dispatch_transfer(1) [OF assms(5) r(1)]
    by (simp add: loop_test_def ready_def served_def)
qed


lemma retr_iteration:
  assumes "ready todo c cwd ((''RETR'' @ '' '' @ a @ CRLF) # ls) st" and "client_lines os c todo"
    and "strtok_doc (apr_strtok os)" and "printf_doc (apr_pvsprintf os)"
    and "natcasecmp_doc (apr_strnatcasecmp os)" and "env_doc os" and "smooth_network os" and "smooth_reads os (Some p)"
    and "commands_keep os c (\<lambda>w. (content w, incoming w, sent w))"
    and "disk_file_works os p content rest (\<lambda>w. (incoming w, sent w, todo w))"
    and "data_works os c todo incoming content rest sent"
    and "plain_arg a" and "get_abs_path (Some a) st = Some p" and "CHR ''%'' \<notin> set p" and "pasv_listen_fd st \<noteq> None" and "resolver_doc os"
  shows "\<exists>st'. protocol_step os (False, temp, st) = Inr (Again (False, temp, st')) \<and> ready todo c cwd ls st'
    \<and> sent (world st') = sent (world st) @ content (world st) \<and> content (world st') = content (world st)
    \<and> codes st' = codes st @ [150, 226]"
proof -
  obtain st1 where r: "receives os st ''RETR'' (Some a) st1" "todo (world st1) = ls" "wf_sess st1"
    "comm_sock st1 = c" "cwd_path st1 = cwd" "codes st1 = codes st"
    and g: "(content (world st1), incoming (world st1), sent (world st1))
      = (content (world st), incoming (world st), sent (world st))"
    and l: "pasv_listen_fd st1 = pasv_listen_fd st"
    by (rule transfer_received [OF assms(1-3,9,12)]) auto
  have k: "pasv_listen_fd st1 \<noteq> None \<or> p_port_sockaddr st1 \<noteq> None" using assms(15) l by auto
  have arg: "ftp_arg_str st1 = Some a" "get_abs_path (Some a) st1 = Some p"
    using r(1,5) assms(1,13) by (auto simp: receives_def ready_def abs_path_cong [of st1 st])
  obtain fd w1 where op: "lkl_sys_open os (Some p) (O_RDONLY OR O_LARGEFILE) 0 (world st1) = (fd, w1)"
    by (metis prod.collapse)
  with assms(10) obtain \<mu> where w1: "0 \<le> fd" "rest w1 = content (world st1)" "content w1 = content (world st1)"
    "(incoming w1, sent w1, todo w1) = (incoming (world st1), sent (world st1), todo (world st1))"
    "kernel_reads os fd rest \<mu>"
    unfolding disk_file_works_def by blast
  note d = assms(11) [unfolded data_works_def]
  have "\<exists>rc st2. handle_retr os st1 = Inr (rc, st2) \<and> untouched (\<lambda>w. (incoming w, content w, todo w)) st1 st2
      \<and> (reply_code (last (replies st2)) = 226 \<longrightarrow> sent (world st2) = sent (world st1) @ content (world st1))
      \<and> (0 \<le> fd \<and> smooth_network os \<and> smooth_reads os (Some p) \<longrightarrow>
          completed (\<lambda>w. (incoming w, content w, todo w)) st1 rc st2)"
    by (rule retr_works [where rest = rest and sent = sent and h = "\<lambda>w. (incoming w, content w, todo w)",
          OF r(3) k arg assms(14) op w1(2) _ _ assms(4,6) w1(5)])
      (use w1 d r(4) assms(16) in simp_all)
  then obtain rc st2 where st2: "handle_retr os st1 = Inr (rc, st2)"
    "reply_code (last (replies st2)) = 226 \<longrightarrow> sent (world st2) = sent (world st1) @ content (world st1)"
    "completed (\<lambda>w. (incoming w, content w, todo w)) st1 rc st2"
    using w1(1) assms(7,8) by blast
  have rc: "rc = APR_SUCCESS" "reply_code (last (replies st2)) = 226" "content (world st2) = content (world st1)"
    "todo (world st2) = ls" "cwd_path st2 = cwd"
    using st2(3) r by (simp_all add: completed_def untouched_def)
  have served: "served st1 st2" using retr.opr_served [OF assms(6) r(3)] st2(1) by simp
  have "keeps_to (grammar ''RETR'') (farewell ''RETR'') st1 (rc, st2)"
    using say_retr.opr_speaks [OF assms(6) r(3)] st2(1) by simp
  then have "codes st2 = codes st1 @ [150, 226]"
    using rc(1,2) by (intro transfer_sentence [where C = "{501, 550}"]) simp_all
  then show ?thesis
    using st2(1,2) rc served r g dispatch_transfer(2) [OF assms(5) r(1)]
    by (simp add: loop_test_def ready_def served_def)
qed

lemma quit_last:
  assumes "ready todo c cwd ((''QUIT'' @ CRLF) # ls) st" and "client_lines os c todo"
    and "strtok_doc (apr_strtok os)" and "printf_doc (apr_pvsprintf os)"
    and "natcasecmp_doc (apr_strnatcasecmp os)" and "commands_keep os c g"
    and "\<And>b w. g (snd (snd (apr_socket_send os c b w))) = g w"
  shows "\<exists>st'. protocol_step os (False, temp, st) = Inr (Done (APR_SUCCESS, st'))
    \<and> g (world st') = g (world st) \<and> codes st' = codes st @ [221]"
proof -
  have st: "wf_sess st" "comm_sock st = c" "todo (world st) = (''QUIT'' @ CRLF) # ls"
    using assms(1) by (simp_all add: ready_def)
  have lines: "client_lines os (comm_sock st) todo" using assms(2) st(2) by simp
  have "short_word ''QUIT''" by (simp add: short_word_def)
  from receives_word [OF lines assms(3) st(3) this] obtain st1 where r: "receives os st (''QUIT'' @ CRLF) None st1"
    and st1: "st1 = st\<lparr>world := world st1, cmd_input_buffer := cmd_input_buffer st1,
        ftp_cmd_str := Some (''QUIT'' @ CRLF), ftp_arg_str := None\<rparr>" by blast
  have f: "comm_sock st1 = c" "in_progress (data_conn st1) = 0" "codes st1 = codes st"
    using st by (subst st1; simp add: sess_defs codes_def)+
  have g1: "g (world st1) = g (world st)" using receives_keeps [OF r] assms(6) st(2) by simp
  have eq: "lfd_cmdio_cmd_equals os st1 x \<longleftrightarrow> ''QUIT'' = x" if "upper_word x" for x
    by (rule cmd_equals_word [OF assms(5) _ _ that]) (use r in \<open>simp_all add: receives_def\<close>)
  have "\<exists>st'. handle_quit os st1 = Inr (APR_SUCCESS, st') \<and> g (world st') = g (world st1) \<and> codes st' = codes st1 @ [221]"
    using f(1,2) assms(7) write_plain [OF assms(4), of FTP_GOODBYE "''See you later, aligator.''" "[]" st1]
    by (simp add: handle_quit_def FTP_GOODBYE_def codes_def case_prod_unfold)
  then show ?thesis
    using g1 f(3) by (auto simp: step_receives [OF r] eq dispatch_def)
qed

section \<open>The session\<close>

text \<open>The environment of the whole session, and the two iterations of each transfer together.\<close>

definition file_session :: "('w, 'z) server_scheme \<Rightarrow> sock \<Rightarrow> string \<Rightarrow> string \<Rightarrow> ('w \<Rightarrow> string list)
    \<Rightarrow> ('w \<Rightarrow> string) \<Rightarrow> ('w \<Rightarrow> string) \<Rightarrow> ('w \<Rightarrow> string) \<Rightarrow> ('w \<Rightarrow> string) \<Rightarrow> bool" where
  "file_session os c p a todo content incoming rest sent \<longleftrightarrow>
     env_doc os \<and> strtok_doc (apr_strtok os) \<and> strtoff_doc (apr_strtoff os)
   \<and> printf_doc (apr_pvsprintf os) \<and> natcasecmp_doc (apr_strnatcasecmp os)
   \<and> client_lines os c todo \<and> plain_arg a \<and> CHR ''%'' \<notin> set p
   \<and> smooth_network os \<and> smooth_reads os (Some p)
   \<and> commands_keep os c (\<lambda>w. (content w, incoming w, sent w))
   \<and> passive_works os (\<lambda>w. (todo w, content w, incoming w, sent w))
   \<and> disk_file_works os p content rest (\<lambda>w. (incoming w, sent w, todo w))
   \<and> data_works os c todo incoming content rest sent"

lemma file_sessionD:
  assumes "file_session os c p a todo content incoming rest sent"
  shows "env_doc os" "strtok_doc (apr_strtok os)" "strtoff_doc (apr_strtoff os)"
    "printf_doc (apr_pvsprintf os)" "natcasecmp_doc (apr_strnatcasecmp os)"
    "client_lines os c todo" "plain_arg a" "CHR ''%'' \<notin> set p"
    "smooth_network os" "smooth_reads os (Some p)"
    "commands_keep os c (\<lambda>w. (content w, incoming w, sent w))"
    "passive_works os (\<lambda>w. (todo w, content w, incoming w, sent w))"
    "disk_file_works os p content rest (\<lambda>w. (incoming w, sent w, todo w))"
    "data_works os c todo incoming content rest sent"
    "(content (snd (snd (apr_socket_send os c b w))), incoming (snd (snd (apr_socket_send os c b w))),
       sent (snd (snd (apr_socket_send os c b w)))) = (content w, incoming w, sent w)"
    "resolver_doc os"
  using assms by (auto simp: file_session_def data_works_def control_keeps_def resolver_doc_def passive_works_def)

lemma pasv_first:
  assumes "file_session os c p a todo content incoming rest sent"
    and "ready todo c cwd ((''PASV'' @ CRLF) # ls) st" and "get_abs_path (Some a) st = Some p"
  obtains st' where "protocol_step os (False, None, st) = Inr (Again (False, None, st'))"
    "ready todo c cwd ls st'" "pasv_listen_fd st' \<noteq> None" "get_abs_path (Some a) st' = Some p"
    "content (world st') = content (world st)" "incoming (world st') = incoming (world st)"
    "sent (world st') = sent (world st)" "codes st' = codes st @ [227]"
proof -
  note e = file_sessionD [OF assms(1)]
  obtain st' where st': "protocol_step os (False, None, st) = Inr (Again (False, None, st'))"
    "ready todo c cwd ls st'" "pasv_listen_fd st' \<noteq> None"
    "(content (world st'), incoming (world st'), sent (world st')) = (content (world st), incoming (world st), sent (world st))"
    "codes st' = codes st @ [227]"
    using pasv_iteration [OF assms(2) e(6,2-5,12,11,15)] by blast
  moreover have "cwd_path st' = cwd_path st" using st'(2) assms(2) by (simp add: ready_def)
  ultimately show thesis using assms(3) that by (simp add: abs_path_cong [of st' st])
qed

lemma pasv_stor:
  assumes "file_session os c p a todo content incoming rest sent" and "get_abs_path (Some a) st = Some p"
    and "ready todo c cwd ((''PASV'' @ CRLF) # (''STOR '' @ a @ CRLF) # ls) st"
  shows "\<exists>st'. run_loop (protocol_step os) (False, None, st) = run_loop (protocol_step os) (False, None, st')
    \<and> ready todo c cwd ls st' \<and> get_abs_path (Some a) st' = Some p \<and> content (world st') = incoming (world st)
    \<and> sent (world st') = sent (world st) \<and> codes st' = codes st @ [227, 150, 226]"
proof -
  note e = file_sessionD [OF assms(1)]
  have "ready todo c cwd ((''PASV'' @ CRLF) # (''STOR'' @ '' '' @ a @ CRLF) # ls) st" using assms(3) by simp
  then obtain st1 where 1: "protocol_step os (False, None, st) = Inr (Again (False, None, st1))"
    "ready todo c cwd ((''STOR'' @ '' '' @ a @ CRLF) # ls) st1" "pasv_listen_fd st1 \<noteq> None"
    "get_abs_path (Some a) st1 = Some p" "incoming (world st1) = incoming (world st)"
    "sent (world st1) = sent (world st)" "codes st1 = codes st @ [227]"
    by (rule pasv_first [OF assms(1) _ assms(2)])
  from stor_iteration [OF 1(2) e(6,2,4,5,1,9,11,13,14,7) 1(4,3) e(16)] obtain st2 where
    2: "protocol_step os (False, None, st1) = Inr (Again (False, None, st2))" "ready todo c cwd ls st2"
      "content (world st2) = incoming (world st1)" "sent (world st2) = sent (world st1)" "codes st2 = codes st1 @ [150, 226]"
    by blast
  have "cwd_path st2 = cwd_path st1" using 1(2) 2(2) by (simp add: ready_def)
  with 1 2 show ?thesis
    by (auto simp: run_loop_Again [of "protocol_step os"] abs_path_cong [of st2 st1])
qed

lemma pasv_retr:
  assumes "file_session os c p a todo content incoming rest sent" and "get_abs_path (Some a) st = Some p"
    and "ready todo c cwd ((''PASV'' @ CRLF) # (''RETR '' @ a @ CRLF) # ls) st"
  shows "\<exists>st'. run_loop (protocol_step os) (False, None, st) = run_loop (protocol_step os) (False, None, st')
    \<and> ready todo c cwd ls st' \<and> sent (world st') = sent (world st) @ content (world st)
    \<and> codes st' = codes st @ [227, 150, 226]"
proof -
  note e = file_sessionD [OF assms(1)]
  have "ready todo c cwd ((''PASV'' @ CRLF) # (''RETR'' @ '' '' @ a @ CRLF) # ls) st" using assms(3) by simp
  then obtain st1 where 1: "protocol_step os (False, None, st) = Inr (Again (False, None, st1))"
    "ready todo c cwd ((''RETR'' @ '' '' @ a @ CRLF) # ls) st1" "pasv_listen_fd st1 \<noteq> None"
    "get_abs_path (Some a) st1 = Some p" "content (world st1) = content (world st)"
    "sent (world st1) = sent (world st)" "codes st1 = codes st @ [227]"
    by (rule pasv_first [OF assms(1) _ assms(2)])
  from retr_iteration [OF 1(2) e(6,2,4,5,1,9,10,11,13,14,7) 1(4) e(8) 1(3) e(16)] obtain st2 where
    2: "protocol_step os (False, None, st1) = Inr (Again (False, None, st2))" "ready todo c cwd ls st2"
      "sent (world st2) = sent (world st1) @ content (world st1)" "codes st2 = codes st1 @ [150, 226]"
    by blast
  with 1 show ?thesis by (auto simp: run_loop_Again [of "protocol_step os"])
qed

text \<open>
  C6. A client uploads a file and downloads it again, in one session: on a network and a kernel that work
  it gets back exactly the bytes it has sent, the replies are those of RFC 959, and the session ends with
  the goodbye to QUIT.
\<close>
theorem uploaded_file_comes_back:
  assumes "wf_sess st" and "env_doc os" and "strtok_doc (apr_strtok os)" and "strtoff_doc (apr_strtoff os)"
    and "printf_doc (apr_pvsprintf os)" and "natcasecmp_doc (apr_strnatcasecmp os)"
    and "client_lines os (comm_sock st) todo"
    and "todo (world st) = [''PASV'' @ CRLF, ''STOR '' @ a @ CRLF, ''PASV'' @ CRLF, ''RETR '' @ a @ CRLF, ''QUIT'' @ CRLF]"
    and "plain_arg a" and "get_abs_path (Some a) st = Some p" and "CHR ''%'' \<notin> set p"
    and "smooth_network os" and "smooth_reads os (Some p)"
    and "commands_keep os (comm_sock st) (\<lambda>w. (content w, incoming w, sent w))"
    and "passive_works os (\<lambda>w. (todo w, content w, incoming w, sent w))"
    and "disk_file_works os p content rest (\<lambda>w. (incoming w, sent w, todo w))"
    and "data_works os (comm_sock st) todo incoming content rest sent"
  shows "\<exists>st'. ftp_protocol_loop os st = Inr (APR_SUCCESS, st')
    \<and> sent (world st') = sent (world st) @ incoming (world st)
    \<and> map reply_code (replies st') = map reply_code (replies st) @ [227, 150, 226, 227, 150, 226, 221]"
proof -
  let ?run = "\<lambda>st. run_loop (protocol_step os) (False, None, st)"
  have env: "file_session os (comm_sock st) p a todo content incoming rest sent"
    using assms by (simp add: file_session_def)
  note e = file_sessionD [OF env]
  have "ready todo (comm_sock st) (cwd_path st) [''PASV'' @ CRLF, ''STOR '' @ a @ CRLF, ''PASV'' @ CRLF,
      ''RETR '' @ a @ CRLF, ''QUIT'' @ CRLF] st"
    using assms(1,8) by (simp add: ready_def)
  from pasv_stor [OF env assms(10) this] obtain st1 where
    1: "?run st = ?run st1" "content (world st1) = incoming (world st)" "sent (world st1) = sent (world st)"
      "codes st1 = codes st @ [227, 150, 226]" and path: "get_abs_path (Some a) st1 = Some p"
    and ready: "ready todo (comm_sock st) (cwd_path st) [''PASV'' @ CRLF, ''RETR '' @ a @ CRLF, ''QUIT'' @ CRLF] st1"
    by blast
  from pasv_retr [OF env path ready] obtain st2 where
    2: "?run st1 = ?run st2" "sent (world st2) = sent (world st1) @ content (world st1)"
      "codes st2 = codes st1 @ [227, 150, 226]" and ready: "ready todo (comm_sock st) (cwd_path st) [''QUIT'' @ CRLF] st2"
    by blast
  from quit_last [OF ready e(6,2,4,5,11,15)] obtain st3 where
    3: "protocol_step os (False, None, st2) = Inr (Done (APR_SUCCESS, st3))" "sent (world st3) = sent (world st2)"
      "codes st3 = codes st2 @ [221]"
    by blast
  have "ftp_protocol_loop os st = Inr (APR_SUCCESS, st3)"
    by (simp only: ftp_protocol_loop_def 1(1) 2(1) run_loop_Done [of "protocol_step os", OF 3(1)])
  with 1 2 3 show ?thesis by (auto simp: codes_def)
qed

end
