(* ===== verification/Sessions.thy ===== *)
theory Sessions
  imports ReplyCodes
begin

text \<open>
  Several sessions at once: the threads that the listener has started share the world, that is the kernel,
  the network and the configuration, and nothing else.
\<close>

section \<open>The process with its threads\<close>

text \<open>
  A running process has a world and, for each thread, the variables of its command loop; the world in those
  is out of date until the thread goes on. A fault of one thread, other than not returning and its own end,
  takes the process down. One step is one iteration of one thread: what other threads do during an iteration
  is part of what its calls return, which the model leaves open. A thread whose session cannot be created
  logs the failure with a format that lacks its argument, which is a fault.
\<close>

datatype 'w process = Running 'w "nat \<rightharpoonup> 'w loop_vars" | Crashed fault

definition resume :: "'w \<Rightarrow> 'w loop_vars \<Rightarrow> 'w loop_vars" where
  "resume w = (\<lambda>(rnfrto, temp_name, st). (rnfrto, temp_name, st\<lparr>world := w\<rparr>))"

definition world_of :: "'w loop_vars \<Rightarrow> 'w" where
  "world_of s = world (snd (snd s))"

inductive server_step :: "('w, 'z) server_scheme \<Rightarrow> 'w process \<Rightarrow> 'w process \<Rightarrow> bool"
  for os where
  connect: "T i = None \<Longrightarrow> lfd_sess_create os sk w = (rc, Some st, w1) \<Longrightarrow>
    emit_greeting os st = Inr (APR_SUCCESS, st1) \<Longrightarrow>
    server_step os (Running w T) (Running (world st1) (T(i \<mapsto> (False, None, st1))))"
| turn_away: "T i = None \<Longrightarrow> lfd_sess_create os sk w = (rc, None, w1) \<Longrightarrow>
    server_step os (Running w T) (Crashed Bad_Format)"
| no_greeting: "T i = None \<Longrightarrow> lfd_sess_create os sk w = (rc, Some st, w1) \<Longrightarrow>
    emit_greeting os st = Inr (rc', st1) \<Longrightarrow> rc' \<noteq> APR_SUCCESS \<Longrightarrow>
    server_step os (Running w T) (Running (lfd_sess_destroy os st1) T)"
| bad_banner: "T i = None \<Longrightarrow> lfd_sess_create os sk w = (rc, Some st, w1) \<Longrightarrow>
    emit_greeting os st = Inl e \<Longrightarrow> server_step os (Running w T) (Crashed e)"
| command: "T i = Some s \<Longrightarrow> protocol_step os (resume w s) = Inr (Again s') \<Longrightarrow>
    server_step os (Running w T) (Running (world_of s') (T(i \<mapsto> s')))"
| finish: "T i = Some s \<Longrightarrow> protocol_step os (resume w s) = Inr (Done (rc, st')) \<Longrightarrow>
    server_step os (Running w T) (Running (lfd_sess_destroy os st') (T(i := None)))"
| crash: "T i = Some s \<Longrightarrow> protocol_step os (resume w s) = Inl e \<Longrightarrow> e \<noteq> Diverge \<Longrightarrow> e \<noteq> Thread_Exit \<Longrightarrow>
    server_step os (Running w T) (Crashed e)"
| outside: "server_step os (Running w T) (Running w' T)"

inductive_cases server_stepE: "server_step os (Running w T) p"
inductive_simps crashed_stuck [simp]: "server_step os (Crashed e) p"

definition server_runs :: "('w, 'z) server_scheme \<Rightarrow> 'w process \<Rightarrow> bool" where
  "server_runs os p \<longleftrightarrow> (\<exists>w. (server_step os)\<^sup>*\<^sup>* (Running w Map.empty) p)"

section \<open>The runs of the server\<close>

text \<open>A session as the thread finds it after the greeting.\<close>

definition greeted :: "('w, 'z) server_scheme \<Rightarrow> 'w st \<Rightarrow> bool" where
  "greeted os st \<longleftrightarrow> (\<exists>sk w rc st0 w1. lfd_sess_create os sk w = (rc, Some st0, w1)
     \<and> emit_greeting os st0 = Inr (APR_SUCCESS, st))"

lemma create_greeted:
  "lfd_sess_create os sk w = (rc, Some st0, w1) \<Longrightarrow> emit_greeting os st0 = Inr (APR_SUCCESS, st) \<Longrightarrow>
    greeted os st"
  unfolding greeted_def by blast

lemma server_runs_induct [consumes 1, case_names start step]:
  assumes "server_runs os p" and "\<And>w. P (Running w Map.empty)"
    and "\<And>p q. server_runs os p \<Longrightarrow> P p \<Longrightarrow> server_step os p q \<Longrightarrow> P q"
  shows "P p"
proof -
  from assms(1) obtain w where "(server_step os)\<^sup>*\<^sup>* (Running w Map.empty) p" by (auto simp: server_runs_def)
  then show ?thesis
    by induction (use assms(2,3) in \<open>auto simp: server_runs_def\<close>)
qed

section \<open>What every session keeps\<close>

definition sentences :: "int list \<Rightarrow> bool" where
  "sentences cs \<longleftrightarrow> (\<exists>css. cs = concat css \<and> (\<forall>c \<in> set css. c = [] \<or> completes c))"

lemma sentences_Nil: "sentences []"
  unfolding sentences_def by (intro exI [of _ "[]"]) simp

lemma sentences_append: "sentences cs \<Longrightarrow> c = [] \<or> completes c \<Longrightarrow> sentences (cs @ c)"
  unfolding sentences_def by (elim exE, rule_tac x = "css @ [c]" in exI) auto

definition sound :: "'w loop_vars \<Rightarrow> bool" where
  "sound s \<longleftrightarrow> wf_sess (snd (snd s)) \<and> rename_pending s \<and> sentences (codes (snd (snd s)))"

lemma greeted_sound:
  assumes "greeted os st"
  shows "sound (False, None, st)"
proof -
  from assms obtain sk w rc st0 w1 where c: "lfd_sess_create os sk w = (rc, Some st0, w1)"
    and g: "emit_greeting os st0 = Inr (APR_SUCCESS, st)" by (auto simp: greeted_def)
  from c have st0: "wf_sess st0" "codes st0 = []"
    using sess_create_wf [of os sk w rc st0 w1] 
    by (auto simp: lfd_sess_create_def codes_def split: prod.splits if_splits)
  have "wp (\<lambda>_. True) (\<lambda>(rc, st). wf_sess st \<and> sentences (codes st)) (emit_greeting os st0)"
  proof -
    have "completes [220]" by (simp add: completes_def)
    from sentences_append [OF sentences_Nil disjI2 [OF this]]
    have "wp (\<lambda>_. True) (\<lambda>(rc, st). sentences (codes st)) (emit_greeting os st0)"
      by (auto simp: emit_greeting_def st0 sentences_Nil FTP_GREET_def intro!: speaks_write)
    moreover have "wp (\<lambda>_. True) (\<lambda>(rc, st). wf_sess st) (emit_greeting os st0)"
      by (auto simp: emit_greeting_def st0 served_def intro!: wp_mono [OF wp_say [OF st0(1)]])
    ultimately show ?thesis by (rule wp_mono [OF wp_conj]) auto
  qed
  with g show ?thesis by (simp add: sound_def rename_pending_def)
qed

lemma sound_step:
  assumes "env_doc os" and "strtok_doc (apr_strtok os)" and "sound s"
  shows "wp list_faults (\<lambda>c. \<forall>s'. c = Again s' \<longrightarrow> sound s') (protocol_step os (resume w s))"
proof -
  obtain b t st where s: "s = (b, t, st)" by (cases s)
  have wf: "wf_sess (st\<lparr>world := w\<rparr>)" and cs: "sentences (codes st)"
    using assms(3) by (simp_all add: s sound_def sess_defs)
  have "wp (\<lambda>_. True) (\<lambda>c. \<forall>s'. c = Again s' \<longrightarrow> sentences (codes (snd (snd s'))))
      (protocol_step os (b, t, st\<lparr>world := w\<rparr>))"
  proof (rule wp_mono [OF step_speaks [OF assms(1,2) wf]], simp, goal_cases)
    case (1 c)
    then obtain L F where "outcome_speaks L F (st\<lparr>world := w\<rparr>) c" "\<forall>cs \<in> L. cs = [] \<or> completes cs" by blast
    then show ?case
      by (cases c) (auto simp: outcome_speaks_def speaks_def intro!: sentences_append [OF cs])
  qed
  with wp_step [OF assms(1,2) wf, of b t] show ?thesis
    by (cases "protocol_step os (b, t, st\<lparr>world := w\<rparr>)")
      (auto simp: s resume_def sound_def step_ok_def served_def)
qed

definition server_sound :: "'w process \<Rightarrow> bool" where
  "server_sound p = (case p of Running w T \<Rightarrow> \<forall>s \<in> ran T. sound s | Crashed e \<Rightarrow> list_faults e \<and> e \<noteq> Diverge)"

lemma server_sound_step:
  assumes "env_doc os" and "strtok_doc (apr_strtok os)" and "server_step os p q" and "server_sound p"
  shows "server_sound q"
  using assms(3,4)
proof induction
  case (connect T i sk w rc st w1 st1)
  have "sound (False, None, st1)"
    by (rule greeted_sound [OF create_greeted]) (rule connect.hyps)+
  with connect.prems connect.hyps(1) show ?case
    by (simp add: server_sound_def ran_map_upd)
next
  case (command T i s w s')
  from command have "sound s" by (auto simp: server_sound_def intro: ranI)
  from sound_step [OF assms(1,2) this, of w] command have "sound s'" by (simp del: split_paired_All)
  with command.prems show ?case by (auto simp: server_sound_def ran_def simp del: split_paired_All split_paired_Ex)
next
  case (bad_banner T i sk w rc st w1 e)
  have "wp (\<lambda>e. e = Bad_Format) (\<lambda>_. True) (emit_greeting os st)"
    by (auto simp: emit_greeting_def intro!: wp_write)
  with bad_banner(3) show ?case by (simp add: server_sound_def list_faults_def)
next
  case (crash T i s w e)
  from crash have "sound s" by (auto simp: server_sound_def intro: ranI)
  from sound_step [OF assms(1,2) this, of w] crash show ?case by (simp add: server_sound_def)
next
  case (finish T i s w rc st')
  then show ?case by (auto simp: server_sound_def ran_def)
qed (auto simp: server_sound_def list_faults_def)

lemma runs_sound:
  assumes "env_doc os" and "strtok_doc (apr_strtok os)" and "server_runs os p"
  shows "server_sound p"
  using assms(3) by (induction rule: server_runs_induct)
    (simp add: server_sound_def, rule server_sound_step [OF assms(1,2)])

text \<open>
  C8. With any number of clients, whatever they send and however their threads interleave, every session
  of the server keeps its invariant, waits for a new name only after a 350, and has answered with
  sentences only.
\<close>
theorem sessions_stay_sound:
  assumes "env_doc os" and "strtok_doc (apr_strtok os)"
    and "server_runs os (Running w T)" and "T i = Some (rnfrto, temp, st)"
  shows "wf_sess st \<and> rename_pending (rnfrto, temp, st)
    \<and> (\<exists>css. codes st = concat css \<and> (\<forall>c \<in> set css. c = [] \<or> completes c))"
proof -
  have "sound (rnfrto, temp, st)"
    using runs_sound [OF assms(1-3)] assms(4) by (auto simp: server_sound_def ran_def)
  then show ?thesis by (simp add: sound_def sentences_def)
qed

text \<open>
  No client takes the process down for the others by any of the program's own stops, \<open>bug\<close> and
  \<open>exit\<close>, but by a LIST without a data connection, or by a fault of memory, of a format or of arithmetic.
\<close>
theorem only_list_stops_the_server:
  assumes "env_doc os" and "strtok_doc (apr_strtok os)" and "server_runs os (Crashed e)"
  shows "e \<in> {Null_Deref, Out_Of_Bounds, Bad_Format, Uninitialised, Div_By_Zero} \<or> e = no_connection"
  using runs_sound [OF assms] by (auto simp: server_sound_def list_faults_def elim: nobug.elims)

end
