(* ===== verification/ListDelivery.thy ===== *)
theory ListDelivery
  imports Delivery ListProps
begin

text \<open>
  LIST, from the command to the kernel and the network: what the client has been sent
  when it is told 226.
\<close>

section \<open>Making the listing sends nothing\<close>

text \<open>\<open>g\<close> reads off the world what reading a directory does not touch.\<close>

definition list_keeps :: "('w, 'z) server_scheme \<Rightarrow> ('w \<Rightarrow> 'b) \<Rightarrow> bool" where
  "list_keeps os g \<longleftrightarrow>
     (\<forall>p fl m w. g (snd (lkl_sys_open os p fl m w)) = g w)
   \<and> (\<forall>fd n w. g (snd (snd (lkl_sys_getdents os fd n w))) = g w)
   \<and> (\<forall>p w. g (snd (snd (lkl_sys_newlstat os p w))) = g w)
   \<and> (\<forall>w. g (snd (apr_time_now os w)) = g w)"

lemma list_keepsD:
  assumes "list_keeps os g"
  shows "lkl_sys_open os p fl m w = (fd, w') \<Longrightarrow> g w' = g w"
    and "lkl_sys_getdents os fd n w = (r, ds, w') \<Longrightarrow> g w' = g w"
    and "lkl_sys_newlstat os p w = (rc, info, w') \<Longrightarrow> g w' = g w"
    and "apr_time_now os w = (t, w') \<Longrightarrow> g w' = g w"
  using assms unfolding list_keeps_def by (metis fst_conv snd_conv)+

lemma readdir_keeps:
  assumes "list_keeps os g"
  shows "wp (\<lambda>_. True) (\<lambda>(e, d', w'). g w' = g w) (lkl_readdir os d w)"
  by (auto simp: lkl_readdir_def Let_def dest: list_keepsD(2) [OF assms] split: prod.splits
      intro!: wp_any [where m = "dirent_at a b" for a b])

lemma stat_link_keeps:
  assumes "list_keeps os g" and "lkl_stat os fi p (APR_FINFO_LINK OR wanted) w = (rc, fi', w')"
  shows "g w' = g w"
proof -
  have "(APR_FINFO_LINK OR wanted) AND APR_FINFO_LINK \<noteq> 0"
    by (simp add: and.commute [of _ APR_FINFO_LINK] finfo_defs)
  then show ?thesis
    using assms(2) by (auto simp: lkl_stat_def Let_def split: prod.splits if_splits dest: list_keepsD(3) [OF assms(1)])
qed

lemma dir_read_keeps:
  assumes "list_keeps os g"
  shows "wp (\<lambda>_. True) (\<lambda>(rc, fi', d', w'). g w' = g w) (lkl_dir_read os fi wanted d w)"
  unfolding lkl_dir_read_def wp_bnd
  by (rule wp_mono [OF readdir_keeps [OF assms]])
    (auto simp: Let_def split: prod.splits option.splits dest: stat_link_keeps [OF assms]
      intro!: wp_any [where m = "entry_fspec a b" for a b])

lemma list_entry_keeps:
  assumes "list_keeps os g"
  shows "wp (\<lambda>_. True) (\<lambda>(line, w'). g w' = g w) (list_entry os fl fi w)"
  by (auto simp: list_entry_def Let_def split: prod.splits option.splits dest: list_keepsD(4) [OF assms])

lemma list_dir_keeps:
  assumes "list_keeps os g" and "control_keeps os c g" and "env_doc os"
  shows "wp (\<lambda>_. True) (\<lambda>(rc, files, w'). g w' = g w) (list_dir os p fl w)"
proof -
  have loop: "wp (\<lambda>_. True) (\<lambda>(dest, d', w'). g w' = g w) (run_loop (list_step os fl) (dest, fi, d, v))"
    if "g v = g w" for dest fi d v
  proof (rule wp_run_loop [where I = "\<lambda>(dest, fi, d, v). g v = g w"], goal_cases)
    case (3 x)
    obtain t a e u where x: "x = (t, a, e, u)" by (cases x) auto
    with 3 have u: "g u = g w" by simp
    show ?case
      unfolding x list_step_def prod.case wp_bnd
      by (rule wp_mono [OF dir_read_keeps [OF assms(1)]])
        (use u in \<open>auto intro!: wp_mono [OF list_entry_keeps [OF assms(1)]]\<close>)
  qed (use that in simp_all)
  have close: "wp (\<lambda>_. True) (\<lambda>(rc, w'). g w' = g v) (lkl_dir_close os d v)" for d v
    using assms(3) by (auto simp: lkl_dir_close_def env_doc_def dir_cleanup_def control_keepsD(6) [OF assms(2)]
        split: prod.splits)
  show ?thesis
    by (auto simp: list_dir_def lkl_dir_open_def split: prod.splits option.splits
        dest!: list_keepsD(1) [OF assms(1)] intro!: wp_mono [OF loop] wp_mono [OF close]
        simp: control_keepsD(7) [OF assms(2)])
qed

section \<open>What 226 means after LIST\<close>

lemma list_path_flags:
  assumes "wf_sess st" and "list_path st = (Some path, fl)"
  shows "fl AND LIST_FLAG_L \<noteq> 0" and "path \<noteq> []"
  using assms abs_path_NUL [OF assms(1), of "ftp_arg_str st"]
  by (auto simp: list_path_def wf_sess_def wf_cwd_def LIST_FLAG_L_def LIST_FLAG_A_def
      split: option.splits if_splits)

lemma list_sent:
  assumes "wf_sess st" and "pasv_listen_fd st \<noteq> None \<or> p_port_sockaddr st \<noteq> None" and "list_path st = (Some path, fl)"
    and "list_dir os (Some path) fl (world st) = Inr (APR_SUCCESS, files, w)" and "sent w = sent (world st)"
    and "control_keeps os (comm_sock st) sent" and "printf_doc (apr_pvsprintf os)" and "env_doc os"
    and "\<forall>sk. sk \<noteq> comm_sock st \<longrightarrow> socket_sends os sk sent" and "resolver_doc os"
  shows "wp (\<lambda>_. False) (\<lambda>(rc, st').
      (reply_code (last (replies st')) = 226 \<longrightarrow> sent (world st') = sent (world st) @ files)
    \<and> (smooth_network os \<longrightarrow> rc = APR_SUCCESS \<and> reply_code (last (replies st')) = 226)) (handle_list os st)"
proof -
  have idle: "data_sock (data_conn (st\<lparr>world := w\<rparr>)) = None" "exclusive (st\<lparr>world := w\<rparr>)"
    using assms(1) by (simp_all add: sess_defs)
  show ?thesis
    unfolding handle_list_def assms(3) prod.case if_not_P [OF option.distinct(2)] assms(4) bnd_Inr Let_def
      if_not_P [OF not_not [THEN iffD2, OF refl]]
  proof (subst wp_bnd, rule wp_data_fd [where g = sent], goal_cases)
    case (9 w' t)
    then show ?case by auto
  next
    case (10 sk w')
    obtain rc n w2 where send: "apr_socket_send os sk files w' = (rc, n, w2)"
      by (cases "apr_socket_send os sk files w'") auto
    with 10 assms(5,9) have w2: "sent w2 = sent (world st) @ take n files"
      unfolding socket_sends_def by simp
    have smooth: "rc = APR_SUCCESS \<and> n = length files" if "smooth_network os"
      by (rule smooth_networkD(2) [OF that send])
    show ?case
      using assms(6,7) w2 smooth
      by (auto simp: send ftp_codes quiet_reply_def lfd_dispose_transfer_fd_def Let_def
          control_keepsD(4,5) [OF assms(6)] intro!: wp_write_smooth [where g = sent])
  qed (use assms idle in \<open>simp_all add: env_doc_def\<close>)
qed

text \<open>
  C19. LIST after PORT or PASV, of a directory that can be opened, that the kernel reads to its end without an
  error and of which every entry can be looked up: the handler returns, and when its last reply is 226 the
  client has been sent the listing of the directory and nothing else, one line in the kernel's order for each
  entry that is not hidden, or for each entry when the hidden ones are asked for. When the network does not
  fail, the last reply is 226 and the session goes on.
\<close>
theorem list_226_means_listed:
  assumes "wf_sess st" and "pasv_listen_fd st \<noteq> None \<or> p_port_sockaddr st \<noteq> None" and "list_path st = (Some path, list_flags)"
    and "listable os path info now todo" and "kernel_lists os fd todo"
    and "lkl_sys_open os (Some path) (O_RDONLY OR O_DIRECTORY OR O_LARGEFILE) 0 (world st) = (fd, w1)"
    and "0 \<le> fd" and "todo (apr_pool_cleanup_register os fd w1) = es"
    and "control_keeps os (comm_sock st) sent" and "list_keeps os sent"
    and "printf_doc (apr_pvsprintf os)" and "env_doc os"
    and "\<forall>sk. sk \<noteq> comm_sock st \<longrightarrow> socket_sends os sk sent" and "resolver_doc os"
  shows "\<exists>rc st'. handle_list os st = Inr (rc, st')
    \<and> (reply_code (last (replies st')) = 226 \<longrightarrow>
         sent (world st') = sent (world st) @ listing os now info list_flags es)
    \<and> (smooth_network os \<longrightarrow> rc = APR_SUCCESS \<and> reply_code (last (replies st')) = 226)"
proof -
  obtain w where dir: "list_dir os (Some path) list_flags (world st)
      = Inr (APR_SUCCESS, listing os now info list_flags es, w)"
    using list_shows_directory [OF assms(11,12) list_path_flags [OF assms(1,3)] assms(4-8)] by blast
  have "sent w = sent (world st)"
    using list_dir_keeps [OF assms(10,9,12), where p = "Some path" and fl = list_flags and w = "world st"] by (simp add: dir)
  from wp_returns [OF list_sent [OF assms(1-3) dir this assms(9,11-14)]] show ?thesis by auto
qed

end
