(* ===== verification/Polite.thy ===== *)
theory Polite
  imports Sessions ListDelivery
begin

text \<open>
  Which clients and which environments keep the server clear of undefined behaviour.
\<close>

section \<open>The environment and the clients\<close>

text \<open>
  What the documentation of the calls promises about their results, and what the configuration should
  hold: a call does not report more bytes than it was given room for, a directory buffer holds whole
  records, an IPv4 address is a dotted quad, and the banner has no percent sign.
\<close>

definition dotted_quad :: "string \<Rightarrow> bool" where
  "dotted_quad s \<longleftrightarrow> (\<exists>a \<le> 255. \<exists>b \<le> 255. \<exists>c \<le> 255. \<exists>d \<le> 255. s = join (CHR ''.'') (map dec_nat [a, b, c, d]))"

definition decent :: "('w, 'z) server_scheme \<Rightarrow> bool" where
  "decent os \<longleftrightarrow> printf_doc (apr_pvsprintf os) \<and> strtok_doc (apr_strtok os) \<and> strtoff_doc (apr_strtoff os)
   \<and> env_doc os \<and> resolver_doc os
   \<and> (\<forall>fd n w rc bytes w'. lkl_sys_read os fd n w = (rc, bytes, w') \<longrightarrow>
        rc \<le> int n \<and> length bytes = nat rc)
   \<and> (\<forall>fd n w r ds w'. lkl_sys_getdents os fd n w = (r, ds, w') \<longrightarrow> 0 < r \<longrightarrow>
        r = int (sum_list (map d_reclen ds)) \<and> (\<forall>d \<in> set ds. 0 < d_reclen d))
   \<and> (\<forall>sk n w. length (fst (snd (apr_socket_recv os sk n w))) \<le> n)
   \<and> (\<forall>sk b w. fst (snd (apr_socket_send os sk b w)) \<le> length b)
   \<and> (\<forall>a. fst (apr_sockaddr_ip_get os a) = APR_SUCCESS \<longrightarrow> dotted_quad (snd (apr_sockaddr_ip_get os a)))
   \<and> max_pasv_port (config os) \<noteq> 0 \<and> CHR ''%'' \<notin> set (lfd_config_banner_string (config os))"

text \<open>
  A host that has room: no write to the disk fails, though it may be short or interrupted, memory pools do
  not run out, and an entry of a directory can be looked up, as LIST does right after it has read it.
  Without these \<open>lkl_file_write_full\<close> does not survive an error (theory FileProps), the failure to
  create a session is logged in an undefined way, and LIST prints what it has not set.
\<close>

definition roomy :: "('w, 'z) apr_scheme \<Rightarrow> bool" where
  "roomy os \<longleftrightarrow> (\<forall>fd b w rc w'. lkl_sys_write os fd b w = (rc, w') \<longrightarrow>
     rc = - EINTR \<or> 0 \<le> rc \<and> nat rc \<le> length b)
   \<and> (\<forall>w. fst (apr_pool_create os w) = APR_SUCCESS)
   \<and> (\<forall>path w. fst (lkl_sys_newlstat os path w) = 0)"

text \<open>
  A line that the server can take: shorter than the buffer, without a percent sign, and PORT and SITE
  with an argument. A polite client never sends anything else; \<open>cmd_input_buffer_len\<close> is what the
  server asks for on a control connection only.
\<close>

definition polite_line :: "('w, 'z) server_scheme \<Rightarrow> string \<Rightarrow> bool" where
  "polite_line os line \<longleftrightarrow> length line < cmd_input_buffer_len \<and> CHR ''%'' \<notin> set line
   \<and> (\<forall>rc cmd arg. parse_command os (line @ replicate (cmd_input_buffer_len - length line) NUL)
          = Inr (rc, Some cmd, arg) \<longrightarrow>
        apr_strnatcasecmp os cmd ''PORT'' = 0 \<or> apr_strnatcasecmp os cmd ''SITE'' = 0 \<longrightarrow> arg \<noteq> None)"

definition polite_clients :: "('w, 'z) server_scheme \<Rightarrow> bool" where
  "polite_clients os \<longleftrightarrow>
     (\<forall>sk w. polite_line os (fst (snd (apr_socket_recv os sk cmd_input_buffer_len w))))"

lemma decentD:
  assumes "decent os"
  shows "printf_doc (apr_pvsprintf os)" and "strtok_doc (apr_strtok os)" and "strtoff_doc (apr_strtoff os)"
    and "env_doc os" and "resolver_doc os"
    and "lkl_sys_read os fd n w = (rc, bytes, w') \<Longrightarrow> rc \<le> int n \<and> length bytes = nat rc"
    and "lkl_sys_getdents os fd n w = (r, ds, w') \<Longrightarrow> 0 < r \<Longrightarrow>
      r = int (sum_list (map d_reclen ds)) \<and> (\<forall>d \<in> set ds. 0 < d_reclen d)"
    and "apr_socket_recv os sk n w = (rc, bytes, w') \<Longrightarrow> length bytes \<le> n"
    and "apr_socket_send os sk b w = (rc, k, w') \<Longrightarrow> k \<le> length b"
    and "apr_sockaddr_ip_get os a = (APR_SUCCESS, addr) \<Longrightarrow> dotted_quad addr"
    and "max_pasv_port (config os) \<noteq> 0" and "CHR ''%'' \<notin> set (lfd_config_banner_string (config os))"
  using assms unfolding decent_def by (blast | metis fst_conv snd_conv)+

section \<open>Harmless ends\<close>

text \<open>The two ways not to return that remain: not to terminate, and LIST without a connection.\<close>

definition fine :: "fault \<Rightarrow> bool" where
  "fine e \<longleftrightarrow> e = Diverge \<or> e = no_connection"

definition harmless :: "'a res \<Rightarrow> bool" where
  "harmless m \<longleftrightarrow> wp fine (\<lambda>_. True) m"

lemma fine_simps [simp]: "fine Diverge" "fine no_connection"
  by (simp_all add: fine_def)

lemma harmless_wp: "harmless m \<Longrightarrow> wp (\<lambda>_. True) Q m \<Longrightarrow> wp fine Q m"
  by (cases m) (auto simp: harmless_def)

lemma harmlessI: "wp fine Q m \<Longrightarrow> harmless m"
  unfolding harmless_def by (erule wp_mono) simp_all

lemma harmless_Inr [simp]: "harmless (Inr a)"
  by (simp add: harmless_def)

lemma harmless_bnd: "harmless m \<Longrightarrow> (\<And>a. harmless (k a)) \<Longrightarrow> harmless (bnd m k)"
  by (cases m) (auto simp: harmless_def)

lemma reply_head: "\<exists>h. reply_format cmd msg = h @ msg @ CRLF \<and> CHR ''%'' \<notin> set h"
proof -
  have d: "char_of (48 + nat (x smod 10)) \<noteq> CHR ''%''" for x :: int
  proof -
    have "x smod 10 < 10" using smod_int_range [of 10 x] by simp
    then show ?thesis using digit_not_percent [of "nat (x smod 10)"] by (simp add: digit_def)
  qed
  show ?thesis
    by (rule exI [of _ "take 4 (reply_format cmd msg)"])
      (auto simp: reply_format_def cmd_to_str_def Let_def d [symmetric])
qed

text \<open>A format whose conversions have their arguments.\<close>

fun conversion :: "farg \<Rightarrow> char" where
  "conversion (Str s) = CHR ''s''"
| "conversion (Dec i) = CHR ''d''"
| "conversion (Uns n) = CHR ''u''"
| "conversion (Chr c) = CHR ''c''"

fun fits :: "string \<Rightarrow> farg list \<Rightarrow> bool" where
  "fits [] args = True"
| "fits [c] args = (c \<noteq> CHR ''%'')"
| "fits (c # k # f) args =
     (if c \<noteq> CHR ''%'' then fits (k # f) args
      else case args of [] \<Rightarrow> False | a # as \<Rightarrow> k = conversion a \<and> fits f as)"

lemma fits_plain: "CHR ''%'' \<notin> set f \<Longrightarrow> fits f args"
  by (induction f args rule: fits.induct) auto

lemma fits_prints:
  assumes "printf_doc p" and "fits f args" and "CHR ''%'' \<notin> set g"
  shows "p (f @ g) args \<noteq> None"
  using assms(2)
proof (induction f args rule: fits.induct)
  case (1 args)
  show ?case using printf_plain [OF assms(1,3)] by simp
next
  case (2 c args)
  then show ?case using printf_plain [OF assms(1,3)] by (simp add: printf_docD(2) [OF assms(1)])
next
  case (3 c k f args)
  show ?case
  proof (cases "c = CHR ''%''")
    case False
    with 3 show ?thesis by (simp add: printf_docD(2) [OF assms(1)])
  next
    case True
    with 3 obtain a as where a: "args = a # as" "k = conversion a" "fits f as" by (cases args) auto
    with 3(2) True show ?thesis
      by (cases a) (simp_all add: printf_docD(3,4,5,7) [OF assms(1)])
  qed
qed

lemma fine_write:
  assumes "printf_doc (apr_pvsprintf os)" and "fits msg args"
    and "\<And>rc w'. Q (rc, st\<lparr>world := w', replies := replies st @ [Reply cmd msg args]\<rparr>)"
  shows "wp fine Q (lfd_cmdio_write os cmd msg args st)"
proof -
  obtain h where h: "reply_format cmd msg = h @ msg @ CRLF" "CHR ''%'' \<notin> set h"
    using reply_head by blast
  have "CHR ''%'' \<notin> set CRLF" by (simp add: CR_def LF_def)
  from fits_prints [OF assms(1,2) this]
  have "apr_pvsprintf os (reply_format cmd msg) args \<noteq> None"
    using printf_append_plain [OF assms(1) h(2), of "msg @ CRLF" args] h(1) by simp
  with assms(3) show ?thesis
    by (auto simp: lfd_cmdio_write_def split: option.splits prod.splits)
qed

section \<open>Handlers without a data connection\<close>

text \<open>
  A session in which no percent sign is left over: the directory and the argument of the command are
  free of it.
\<close>

definition clean :: "'w st \<Rightarrow> bool" where
  "clean st \<longleftrightarrow> wf_sess st \<and> CHR ''%'' \<notin> set (cwd_path st)
   \<and> (\<forall>a. ftp_arg_str st = Some a \<longrightarrow> CHR ''%'' \<notin> set a)"

definition clear_cwd :: "int \<times> 'w st \<Rightarrow> bool" where
  "clear_cwd = (\<lambda>(rc, st). CHR ''%'' \<notin> set (cwd_path st))"

lemma clear_cwd_simp [simp]: "clear_cwd (rc, st) \<longleftrightarrow> CHR ''%'' \<notin> set (cwd_path st)"
  by (simp add: clear_cwd_def)

definition calm_next :: "('w loop_vars, int \<times> 'w st) ctl \<Rightarrow> bool" where
  "calm_next c = (case c of Again s \<Rightarrow> CHR ''%'' \<notin> set (cwd_path (snd (snd s))) | Done r \<Rightarrow> True)"

text \<open>The contract: such a session is not harmed, and its directory stays clear.\<close>

locale polite_op =
  fixes opr :: "'w st \<Rightarrow> (int \<times> 'w st) res" and D :: "'w st \<Rightarrow> bool"
  assumes opr_polite: "clean st \<Longrightarrow> D st \<Longrightarrow> wp fine clear_cwd (opr st)"
begin

lemma run_polite: "clean st \<Longrightarrow> D st \<Longrightarrow> wp fine calm_next (bnd (opr st) (loop_test b temp))"
  unfolding wp_bnd by (rule wp_mono [OF opr_polite]) (auto simp: loop_test_def calm_next_def)

end

lemma clean_path:
  assumes "clean st" and "get_abs_path (ftp_arg_str st) st = Some p"
  shows "CHR ''%'' \<notin> set p"
  using assms by (auto simp: clean_def get_abs_path_def split: option.splits list.splits if_splits)

lemmas polite_defs = NO_ARG_def CWD_MSG_def Let_def clean_def

lemma conversion_cstr [simp]: "conversion (cstr_arg s) = CHR ''s''"
  by (simp add: cstr_arg_def)

lemma polite_talk:
  assumes "clean st" and "decent os"
  shows "wp fine clear_cwd (handle_user os st)" and "wp fine clear_cwd (handle_pass os st)"
    and "wp fine clear_cwd (handle_syst os st)" and "wp fine clear_cwd (handle_type os st)"
    and "wp fine clear_cwd (handle_feat os st)" and "wp fine clear_cwd (handle_bad_rnto os st)"
    and "wp fine clear_cwd (lfd_cmdio_write os cmd ''ALLO command ignored.'' [] st)"
  using assms by (auto simp: handle_user_def handle_pass_def handle_syst_def handle_type_def handle_feat_def
      handle_bad_rnto_def clean_def decentD(1) intro!: fine_write)

lemma polite_session:
  assumes "clean st" and "decent os"
  shows "wp fine clear_cwd (handle_quit os st)" and "wp fine clear_cwd (handle_abort os st)"
    and "ftp_arg_str st \<noteq> None \<Longrightarrow> wp fine clear_cwd (handle_site os st)"
  using assms by (auto simp: handle_quit_def handle_abort_def handle_site_def clean_def sess_defs decentD(1)
      split: option.splits intro!: fine_write)

lemma polite_pwd: "clean st \<Longrightarrow> decent os \<Longrightarrow> wp fine clear_cwd (handle_pwd os st)"
  by (auto simp: handle_pwd_def clean_def decentD(1) intro!: fine_write fits_plain)

lemma polite_dir_remove: "clean st \<Longrightarrow> decent os \<Longrightarrow> wp fine clear_cwd (handle_dir_remove os st)"
  by (auto simp: handle_dir_remove_def polite_defs decentD(1) split: option.splits prod.splits
      intro!: fine_write)

lemma polite_dir_create: "clean st \<Longrightarrow> decent os \<Longrightarrow> wp fine clear_cwd (handle_dir_create os st)"
  by (auto simp: handle_dir_create_def polite_defs decentD(1) split: option.splits prod.splits
      intro!: fine_write)

lemma polite_dele: "clean st \<Longrightarrow> decent os \<Longrightarrow> wp fine clear_cwd (handle_dele os st)"
  by (auto simp: handle_dele_def polite_defs decentD(1) split: option.splits prod.splits
      intro!: fine_write)

lemma polite_rnto: "clean st \<Longrightarrow> decent os \<Longrightarrow> wp fine clear_cwd (handle_rnto os old st)"
  by (auto simp: handle_rnto_def polite_defs decentD(1) split: option.splits prod.splits
      intro!: fine_write)

lemma polite_rnfr:
  "clean st \<Longrightarrow> decent os \<Longrightarrow> wp fine (\<lambda>(rc, old, st'). clear_cwd (rc, st')) (handle_rnfr os st)"
  by (auto simp: handle_rnfr_def polite_defs decentD(1) split: option.splits prod.splits
      intro!: fine_write)

lemma polite_cdup: "clean st \<Longrightarrow> decent os \<Longrightarrow> wp fine clear_cwd (handle_cdup os st)"
  by (auto simp: handle_cdup_def polite_defs sess_defs wf_cwd_def decentD(1) dest: in_set_takeD
      intro!: fine_write)

lemma polite_cwd:
  assumes "clean st" and "decent os"
  shows "wp fine clear_cwd (handle_cwd os st)"
proof (cases "ftp_arg_str st")
  case None
  with assms show ?thesis by (auto simp: handle_cwd_def polite_defs decentD(1) intro!: fine_write)
next
  case (Some arg)
  consider "arg = ''.''" | "arg = ''..''" | "arg \<noteq> ''.''" "arg \<noteq> ''..''" by blast
  then show ?thesis
  proof cases
    case 1
    with Some assms show ?thesis by (auto simp: handle_cwd_def polite_defs decentD(1) intro!: fine_write)
  next
    case 2
    with Some polite_cdup [OF assms] show ?thesis by (simp add: handle_cwd_def)
  next
    case 3
    show ?thesis
    proof (cases "get_abs_path (Some arg) st")
      case None
      with Some 3 assms show ?thesis
        by (auto simp: handle_cwd_def polite_defs decentD(1) intro!: fine_write)
    next
      case p: (Some p)
      define q where "q = (if last p \<noteq> CHR ''/'' then p @ ''/'' else p)"
      have "CHR ''%'' \<notin> set q" using clean_path [OF assms(1)] p Some by (simp add: q_def)
      with Some 3 assms p show ?thesis
        by (auto simp: handle_cwd_def q_def [symmetric] polite_defs decentD(1) split: prod.splits
            intro!: fine_write)
    qed
  qed
qed

section \<open>Agreeing on a data connection\<close>

lemma resolved: "decent os \<Longrightarrow> apr_sockaddr_info_get os h p w \<noteq> (APR_SUCCESS, [], w')"
  using decentD(5) [of os] unfolding resolver_doc_def by (metis fst_conv snd_conv)

lemma fine_bind_attempt:
  assumes "decent os"
  shows "wp fine (\<lambda>_. True) (bind_attempt os w)"
  using decentD(11) [OF assms]
  by (auto simp: bind_attempt_def Let_def resolved [OF assms] split: prod.splits list.splits)

lemma fine_bind_port:
  assumes "decent os"
    and "\<And>w'. Q (APR_ENOSOCKET, None, st\<lparr>world := w'\<rparr>)"
    and "\<And>x w' fd. Q (APR_SUCCESS, Some x, st\<lparr>world := w', pasv_listen_fd := Some fd\<rparr>)"
  shows "wp fine Q (bind_to_random_passive_port os st)"
proof -
  have "wp fine (\<lambda>_. True) (run_loop (bind_step os) s)" for s
  proof (rule wp_run_loop [where I = "\<lambda>_. True"], goal_cases)
    case (3 t)
    show ?case
      by (cases t) (auto simp: bind_step_def Let_def intro!: wp_mono [OF fine_bind_attempt [OF assms(1)]]
        split: option.splits)
  qed simp_all
  then show ?thesis
    unfolding bind_to_random_passive_port_def wp_bnd
    by (rule wp_mono) (use assms(2,3) in \<open>auto split: option.splits\<close>)
qed

lemma quad_parsed:
  assumes "decent os" and "dotted_quad addr"
  shows "\<exists>vals. lfd_str_parse_uchar_string_sep os (Some addr) (CHR ''.'') 4 = Inr (True, vals) \<and> length vals = 4"
proof -
  obtain a b c d where q: "a \<le> 255" "b \<le> 255" "c \<le> 255" "d \<le> 255"
    "addr = join (CHR ''.'') (map dec_nat [a, b, c, d])"
    using assms(2) unfolding dotted_quad_def by blast
  have "\<not> is_digit (CHR ''.'')" by (simp add: is_digit_def)
  from parse_string_join [OF decentD(2,3) [OF assms(1)] this, of "[a, b, c, d]" 4] q show ?thesis by auto
qed

lemma polite_pasv:
  assumes "clean st" and "decent os"
  shows "wp fine clear_cwd (handle_pasv os st)"
  unfolding handle_pasv_def Let_def wp_bnd
proof (rule wp_cleanup, rule fine_bind_port [OF assms(2)], goal_cases)
  case (1 w w')
  show ?case using assms(1) by (simp add: clean_def)
next
  case (2 w x w' fd)
  obtain saddr port where x: "x = (saddr, port)" by (cases x)
  obtain rc addr where a: "apr_sockaddr_ip_get os saddr = (rc, addr)" by (cases "apr_sockaddr_ip_get os saddr")
  show ?case
  proof (cases "rc = APR_SUCCESS")
    case False
    with assms(1) show ?thesis by (auto simp: x a clean_def split: prod.splits)
  next
    case True
    with a decentD(10) [OF assms(2)] obtain vals where
      v: "lfd_str_parse_uchar_string_sep os (Some addr) (CHR ''.'') 4 = Inr (True, vals)" "length vals = 4"
      using quad_parsed [OF assms(2), of addr] by blast
    then obtain i j k l where "vals = [i, j, k, l]"
      by (auto simp: numeral_eq_Suc length_Suc_conv)
    with True v assms show ?thesis
      by (auto simp: x a clean_def PASV_MSG_def decentD(1) split: prod.splits intro!: fine_write)
  qed
qed

lemma polite_port:
  assumes "clean st" and "decent os" and "ftp_arg_str st \<noteq> None"
  shows "wp fine clear_cwd (handle_port os st)"
  unfolding handle_port_def Let_def wp_bnd
proof (rule wp_cleanup, rule wp_parse_uchars, goal_cases)
  case (1 w)
  with assms(3) show ?case by simp
next
  case (2 w ok xs)
  show ?case
  proof (cases ok)
    case False
    with assms show ?thesis by (auto simp: clean_def decentD(1) intro!: fine_write)
  next
    case True
    with 2 obtain a b c d xs' where "xs = a # b # c # d # xs'"
      by (auto simp: numeral_eq_Suc length_Suc_conv)
    with True assms show ?thesis
      by (auto simp: clean_def printf_docD(1,2,4) [OF decentD(1)] decentD(1) split: prod.splits list.splits
          intro!: fine_write)
  qed
qed

section \<open>Opening it\<close>

lemma fine_bound:
  assumes "decent os"
  shows "wp fine (\<lambda>_. True) (get_bound_and_connected_ftp_port_sock os (Some remote) w)"
  by (auto simp: get_bound_and_connected_ftp_port_sock_def resolved [OF assms] split: prod.splits list.splits)

lemma fine_transfer_fd:
  assumes "decent os" and "wf_sess st" and "CHR ''%'' \<notin> set msg"
    and "\<And>fd st'. opened st fd st' \<Longrightarrow> Q (fd, st')"
  shows "wp fine Q (lfd_get_remote_transfer_fd os msg st)"
proof -
  let ?st = "st\<lparr>data_conn := (data_conn st)\<lparr>abor_received := 0\<rparr>\<rparr>"
  have st: "idle (data_conn st)" "exclusive st" "exclusive ?st" "data_sock (data_conn ?st) = None"
    using assms(2) by (simp_all add: sess_defs)
  have acc: "accept_doc os" using decentD(4) [OF assms(1)] by (simp add: env_doc_def)
  have acc': "apr_socket_accept os l w \<noteq> (APR_SUCCESS, None, w')" for l w w'
    using acc unfolding accept_doc_def by blast
  have pasv: "harmless (lfd_ftpdataio_get_pasv_fd os ?st)" if "pasv_listen_fd st = Some l" for l
    using that acc' st(4) decentD(1) [OF assms(1)]
    by (auto simp: harmless_def lfd_ftpdataio_get_pasv_fd_def Let_def split: prod.splits
        intro!: fine_write wp_init_data_sock)
  have port: "harmless (ftpdataio_get_port_fd os ?st)" if "p_port_sockaddr st = Some remote" for remote
  proof -
    have "wp fine (\<lambda>(rc, fd, w'). rc = APR_SUCCESS \<longleftrightarrow> fd \<noteq> None)
        (get_bound_and_connected_ftp_port_sock os (Some remote) (world st))"
      by (rule harmless_wp [OF harmlessI [OF fine_bound [OF assms(1)]]])
        (rule wp_mono [OF wp_get_bound], simp_all)
    then have "wp fine (\<lambda>(rc, fd, w'). rc = APR_SUCCESS \<longleftrightarrow> fd \<noteq> None)
        (get_bound_and_connected_ftp_port_sock os (p_port_sockaddr ?st) (world ?st))"
      by (simp add: that)
    then have "wp fine (\<lambda>_. True) (ftpdataio_get_port_fd os ?st)"
      unfolding ftpdataio_get_port_fd_def wp_bnd
      by (rule wp_mono)
        (use st(4) decentD(1) [OF assms(1)] in \<open>auto simp: Let_def intro!: fine_write wp_init_data_sock\<close>)
    then show ?thesis by (simp add: harmless_def)
  qed
  have act: "port_active st = Inr (p_port_sockaddr st \<noteq> None)"
    "pasv_active st = Inr (pasv_listen_fd st \<noteq> None)" "pasv_active ?st = Inr (pasv_listen_fd st \<noteq> None)"
    using active_one [of st] active_one [of ?st] st(2,3) by (simp_all add: exclusive_def)
  have "harmless (lfd_get_remote_transfer_fd os msg st)"
  proof (cases "p_port_sockaddr st = None \<and> pasv_listen_fd st = None")
    case True
    then show ?thesis
      by (simp add: harmless_def lfd_get_remote_transfer_fd_def act bug_def no_connection_def [symmetric])
  next
    case False
    have m: "harmless (if pasv_listen_fd st \<noteq> None then lfd_ftpdataio_get_pasv_fd os ?st
        else ftpdataio_get_port_fd os ?st)"
      using False pasv port by auto
    have rest: "harmless (case fd of None \<Rightarrow> Inr (None, st2)
         | Some fd \<Rightarrow> bnd (lfd_cmdio_write os FTP_DATACONN msg [] st2) (\<lambda>(_, st). Inr (Some fd, st)))" for fd st2
      using assms(3) decentD(1) [OF assms(1)]
      by (auto simp: harmless_def split: option.splits intro!: fine_write fits_plain)
    have "lfd_get_remote_transfer_fd os msg st = bnd (if pasv_listen_fd st \<noteq> None then lfd_ftpdataio_get_pasv_fd os ?st
        else ftpdataio_get_port_fd os ?st) (\<lambda>(_, fd, st2). case fd of None \<Rightarrow> Inr (None, st2)
         | Some fd \<Rightarrow> bnd (lfd_cmdio_write os FTP_DATACONN msg [] st2) (\<lambda>(_, st). Inr (Some fd, st)))"
      using False by (auto simp: lfd_get_remote_transfer_fd_def act Let_def)
    then show ?thesis
      by (simp only:) (rule harmless_bnd [OF m], simp only: split_paired_all prod.case, rule rest)
  qed
  then show ?thesis
    by (rule harmless_wp) (rule wp_mono [OF wp_get_remote [OF st(1,2) acc]], use assms(4) in auto)
qed

section \<open>The loops of a transfer\<close>

text \<open>The handle of a transfer is not buffered, and no character is pushed back on it.\<close>

definition direct :: "lkl_file \<Rightarrow> bool" where
  "direct f \<longleftrightarrow> \<not> buffered f \<and> ungetchar f = - 1"

lemma harmless_eintr: "harmless (eintr_loop call prj w)"
  unfolding harmless_def by (rule wp_eintr_loop [where J = "\<lambda>_. True"]) auto

lemma harmless_wait: "harmless (lkl_wait_for_io_or_timeout os f r w)"
  by (auto simp: lkl_wait_for_io_or_timeout_def Let_def intro!: harmless_bnd harmless_eintr)

lemma fine_eintr_read:
  assumes "decent os"
  shows "wp fine (\<lambda>(rc, bytes, w'). rc \<le> int n \<and> length bytes = nat rc)
    (eintr_loop (lkl_sys_read os fd n) snd w)"
  by (rule wp_eintr_loop [where J = "\<lambda>_. True"]) (auto dest: decentD(6) [OF assms])

lemma fine_read_or_wait:
  assumes "decent os"
  shows "wp fine (\<lambda>(r, w'). \<forall>rc bytes. r = Inr (rc, bytes) \<longrightarrow> rc \<le> int n \<and> length bytes = nat rc)
    (read_or_wait os f n w)"
proof -
  have wait: "wp fine (\<lambda>_. True) (lkl_wait_for_io_or_timeout os f r v)" for r v
    using harmless_wait by (simp add: harmless_def)
  show ?thesis
    unfolding read_or_wait_def Let_def wp_bnd
    by (rule wp_mono [OF fine_eintr_read [OF assms]])
      (auto intro!: wp_mono [OF wait] wp_mono [OF fine_eintr_read [OF assms]])
qed

lemma fine_read:
  assumes "decent os" and "direct f"
  shows "wp fine (\<lambda>(rc, k, bytes, f', w'). k \<le> n \<and> length bytes = k \<and> direct f') (lkl_file_read os f n w)"
proof -
  have "unget_char f = []" "f\<lparr>ungetchar := - 1\<rparr> = f" "\<not> buffered f"
    using assms(2) by (simp_all add: direct_def unget_char_def)
  then show ?thesis
    using assms(2)
    by (auto simp: lkl_file_read_def direct_def Let_def intro!: wp_mono [OF fine_read_or_wait [OF assms(1)]]
        split: sum.splits) (simp add: nat_le_iff)
qed

lemma fine_socket_full:
  assumes "decent os" and "unat n \<le> length mem" and "length mem < 2 ^ 31"
  shows "wp fine (\<lambda>_. True) (lfd_socket_write_full os fd mem n w)"
  unfolding lfd_socket_write_full_def
proof (rule wp_run_loop [where I = "\<lambda>(p, m, u). unat p + unat m \<le> length mem"], goal_cases)
  case (3 x)
  obtain p m u where x: "x = (p, m, u)" by (cases x) auto
  with 3 have I: "unat p + unat m \<le> length mem" by simp
  let ?bytes = "take (unat m) (drop (unat p) mem)"
  obtain rc k u' where s: "apr_socket_send os fd ?bytes u = (rc, k, u')"
    by (cases "apr_socket_send os fd ?bytes u") auto
  have k: "k \<le> unat m" using decentD(9) [OF assms(1) s] by simp
  then have "unat (of_nat k :: apr_size_t) = k"
    using I assms(3) by (simp add: unat_of_nat)
  with k I assms(3) have "unat (p + of_nat k) + unat (m - of_nat k) \<le> length mem"
    by (auto simp: unat_add_lem [THEN iffD1] unat_sub word_le_nat_alt)
  with I show ?case
    by (auto simp: x socket_write_step_def socket_send_def s Let_def)
qed (use assms(2) in simp_all)

lemma fine_send_loop:
  assumes "decent os" and "direct f" and "data_sock (data_conn st) = Some fd"
  shows "wp fine (\<lambda>(ret, f', st'). direct f' \<and> (\<exists>w. st' = st\<lparr>world := w\<rparr>)) (do_file_send_rwloop os f False st)"
proof -
  have loop: "wp fine (\<lambda>(ret, f', w'). direct f') (run_loop (send_step os False (Some fd)) (replicate VSFTP_DATA_BUFSIZE NUL, q, k, f, w))"
    for q k w
  proof (rule wp_run_loop [where I = "\<lambda>(buf, q, k, f, w). length buf = VSFTP_DATA_BUFSIZE \<and> direct f"], goal_cases)
    case (3 x)
    obtain buf q k g v where x: "x = (buf, q, k, g, v)" by (cases x) auto
    with 3 have I: "length buf = VSFTP_DATA_BUFSIZE" "direct g" by simp_all
    have full: "wp fine (\<lambda>_. True) (lfd_socket_write_full os fd (bytes @ drop (length bytes) buf) (word_of_nat n) u)"
      if "n \<le> 4096" "length bytes = n" for bytes n u
      by (rule fine_socket_full [OF assms(1)])
        (use that I in \<open>auto simp: VSFTP_DATA_BUFSIZE_def unat_of_nat\<close>)
    show ?case
      unfolding x send_step_def prod.case wp_bnd
      by (rule wp_mono [OF fine_read [OF assms(1) I(2)]])
        (use I in \<open>auto simp: convert_chunk_def Let_def VSFTP_DATA_BUFSIZE_def intro!: wp_mono [OF full]\<close>)
  qed (use assms(2) in simp_all)
  show ?thesis
    unfolding do_file_send_rwloop_def assms(3) if_False wp_bnd by (rule wp_mono [OF loop]) auto
qed

lemma fine_sys_write:
  assumes "roomy os" and "unat off + unat n \<le> length mem" and "length mem < 2 ^ 31"
  shows "wp fine (\<lambda>(k, w'). unat k \<le> unat n) (sys_write os f mem off n w)"
proof -
  let ?bytes = "take (unat n) (drop (unat off) mem)"
  have len: "length ?bytes = unat n" using assms(2) by simp
  have conv: "unat (word_of_int r :: apr_size_t) \<le> unat n" if "0 \<le> r" "nat r \<le> unat n" for r
  proof -
    from nonneg_int_cases [OF that(1)] obtain k where k: "r = int k" by blast
    with that assms(2,3) show ?thesis by (simp add: unat_of_nat)
  qed
  have "wp fine (\<lambda>(rc, w'). 0 \<le> rc \<and> nat rc \<le> unat n)
    (eintr_loop (lkl_sys_write os (filedes f) ?bytes) id w)"
  proof (rule wp_eintr_loop [where J = "\<lambda>_. True"], goal_cases)
    case (4 v rc v')
    with assms(1) len show ?case unfolding roomy_def by (metis (no_types, lifting) prod.case)
  qed simp_all
  then show ?thesis
    using assms(2) by (auto simp: sys_write_def elim!: wp_mono intro!: conv)
qed

lemma fine_write_full:
  assumes "roomy os" and "direct f" and "unat off + unat n \<le> length mem" and "length mem < 2 ^ 31"
  shows "wp fine (\<lambda>(rc, k, f', w'). direct f' \<and> rc = APR_SUCCESS \<and> k = n) (lkl_file_write_full os mem off n (f, w))"
  unfolding lkl_file_write_full_def
proof (rule wp_run_loop [where I = "\<lambda>(p, m, t, f, w). direct f \<and> unat p + unat m \<le> length mem \<and> t + m = n"], goal_cases)
  case (3 x)
  obtain p m t g v where x: "x = (p, m, t, g, v)" by (cases x) auto
  with 3 have I: "direct g" "unat p + unat m \<le> length mem" "t + m = n" by auto
  have sys: "wp fine (\<lambda>(k, w'). unat k \<le> unat m \<and> k \<noteq> word_of_int (- EAGAIN)) (sys_write os g mem p m v)"
  proof (rule wp_mono [OF fine_sys_write [OF assms(1) I(2) assms(4)]], goal_cases)
    case (2 a)
    then have "unat (fst a) < 2 ^ 31" using I(2) assms(4) by auto
    from not_eagain [OF this] 2 show ?case by auto
  qed
  have wr: "wp fine (\<lambda>(rc, k, f', w'). rc = APR_SUCCESS \<and> unat k \<le> unat m \<and> direct f') (lkl_file_write os mem p m (g, v))"
    using I(1) sys by (auto simp: lkl_file_write_def direct_def elim!: wp_mono)
  show ?case
    unfolding x write_full_step_def prod.case wp_bnd
  proof (rule wp_mono [OF wr], goal_cases)
    case (2 a)
    obtain rc k g' v' where a: "a = (rc, k, g', v')" by (cases a)
    have "length mem < 2 ^ 64" using assms(4) by simp
    with 2 I have "unat (p + k) + unat (m - k) \<le> length mem"
      by (auto simp: a unat_add_lem [THEN iffD1] unat_sub word_le_nat_alt)
    moreover have "k = m" if "\<not> 0 < m - k" using that word_gt_0 [of "m - k"] by simp
    ultimately show ?case using 2 I(3) by (auto simp: a Let_def)
  qed
qed (use assms in simp_all)

lemma fine_recv_loop:
  assumes "decent os" and "roomy os" and "direct f" and "data_sock (data_conn st) = Some sk"
  shows "wp fine (\<lambda>(ret, f', st'). direct f' \<and> (\<exists>w. st' = st\<lparr>world := w\<rparr>)) (do_file_recv os f False st)"
proof -
  have loop: "wp fine (\<lambda>(ret, f', w'). direct f') (run_loop (recv_step os False sk) (replicate (VSFTP_DATA_BUFSIZE + 1) NUL, c, k, f, w))"
    for c k w
  proof (rule wp_run_loop [where I = "\<lambda>(buf, c, k, f, w). length buf = VSFTP_DATA_BUFSIZE + 1 \<and> direct f"], goal_cases)
    case (3 x)
    obtain buf c k g v where x: "x = (buf, c, k, g, v)" by (cases x) auto
    with 3 have I: "length buf = VSFTP_DATA_BUFSIZE + 1" "direct g" by simp_all
    obtain rc bytes v' where r: "apr_socket_recv os sk VSFTP_DATA_BUFSIZE v = (rc, bytes, v')"
      by (cases "apr_socket_recv os sk VSFTP_DATA_BUFSIZE v") auto
    have n: "length bytes \<le> VSFTP_DATA_BUFSIZE" by (rule decentD(8) [OF assms(1) r])
    define buf' where "buf' = take 1 buf @ bytes @ drop (1 + length bytes) buf"
    have buf: "length buf' = VSFTP_DATA_BUFSIZE + 1"
      using n I(1) by (simp add: VSFTP_DATA_BUFSIZE_def buf'_def)
    have full: "wp fine (\<lambda>(rc, k, f', w'). direct f' \<and> rc = APR_SUCCESS \<and> k = m)
        (lkl_file_write_full os buf' 1 m (g, v'))" if "m = of_nat (length bytes)" for m
      by (rule fine_write_full [OF assms(2) I(2)])
        (use n buf that in \<open>simp_all add: VSFTP_DATA_BUFSIZE_def unat_of_nat\<close>)
    show ?case
      using buf I unfolding x recv_step_def prod.case r Let_def buf'_def [symmetric]
      by (auto intro!: wp_mono [OF full])
  qed (use assms(3) in simp_all)
  show ?thesis
    unfolding do_file_recv_def assms(4) option.case wp_bnd by (rule wp_mono [OF loop]) auto
qed

section \<open>Transfers\<close>

lemma fine_close:
  assumes "decent os" and "direct f" and "\<And>r. Q r"
  shows "wp fine Q (lkl_file_close os f w)"
  using assms decentD(4) [OF assms(1)]
  by (auto simp: lkl_file_close_def env_doc_def lkl_unix_file_cleanup_def direct_def split: prod.splits)

lemma fine_after_loop:
  assumes "decent os" and "direct f" and "data_sock (data_conn st) \<noteq> None"
    and "CHR ''%'' \<notin> set a" and "CHR ''%'' \<notin> set b" and "CHR ''%'' \<notin> set c" and "CHR ''%'' \<notin> set (cwd_path st)"
  shows "wp fine clear_cwd (bnd (lfd_dispose_transfer_fd os st) (\<lambda>st.
     bnd (transfer_reply os a b c ret (st\<lparr>data_conn := g (data_conn st)\<rparr>)) (\<lambda>(_, st).
       finish_transfer os f st)))"
proof -
  have finish: "wp fine clear_cwd (finish_transfer os f st')" if "CHR ''%'' \<notin> set (cwd_path st')" for st'
  proof -
    have cl: "CHR ''%'' \<notin> set (cwd_path (lfd_communication_cleanup os u))"
      if "cwd_path u = cwd_path st'" for u :: "'a st"
      by (rule wp_cleanup) (simp add: that \<open>CHR ''%'' \<notin> set (cwd_path st')\<close>)
    show ?thesis
      using decentD(1) [OF assms(1)]
      by (auto simp: finish_transfer_def check_abor_def Let_def cl split: prod.splits
          intro!: fine_write fine_close [OF assms(1,2)])
  qed
  show ?thesis
    unfolding wp_bnd
    by (rule wp_dispose [OF assms(3)])
      (use assms(4-7) decentD(1) [OF assms(1)] in
        \<open>auto simp: transfer_reply_def intro!: fine_write fits_plain finish\<close>)
qed

lemma polite_upload_opened:
  assumes "clean st" and "decent os" and "roomy os" and "direct f"
    and "\<And>p. filename = Some p \<Longrightarrow> CHR ''%'' \<notin> set p"
  shows "wp fine clear_cwd (upload_opened os filename is_unique f st)"
proof -
  have main: "wp fine clear_cwd
      (bnd (lfd_get_remote_transfer_fd os msg st0) (\<lambda>(remote_fd, st).
        if remote_fd = None then Inr (APR_EINVAL, st)
        else
          bnd (do_file_recv os f (is_ascii st \<noteq> 0) st) (\<lambda>(ret, file, st).
          bnd (lfd_dispose_transfer_fd os st) (\<lambda>st.
            let st = st\<lparr>data_conn := (data_conn st)\<lparr>transfer_size := transferred ret\<rparr>\<rparr> in
            bnd (transfer_reply os ''Failure writing to local file.'' ''Failure reading network stream.''
              ''File receive OK.'' ret st) (\<lambda>(_, st). finish_transfer os file st)))))"
    if st0: "wf_sess st0" "CHR ''%'' \<notin> set (cwd_path st0)" "CHR ''%'' \<notin> set msg" for st0 msg
  proof (subst wp_bnd, rule fine_transfer_fd [OF assms(2) st0(1,3)], goal_cases)
    case (1 fd st1)
    have st1: "is_ascii st1 = 0" "cwd_path st1 = cwd_path st0" "data_sock (data_conn st1) = fd"
      using 1 st0(1) by (simp_all add: sess_defs opened_def)
    show ?case
    proof (cases fd)
      case None
      with st1 st0 show ?thesis by simp
    next
      case (Some d)
      show ?thesis
        unfolding Some Let_def prod.case if_not_P [OF option.distinct(2)] st1(1)
      proof (subst wp_bnd, simp only: simp_thms, rule wp_mono [OF fine_recv_loop [OF assms(2-4)]], goal_cases)
        case (3 a)
        obtain ret f' st2 w' where a: "a = (ret, f', st2)" by (cases a) auto
        with 3 st1 Some st0(2) show ?case
          by (auto simp del: wp_bnd intro!: fine_after_loop [OF assms(2),
            where g = "transfer_size_update (\<lambda>_. transferred ret)"])
      qed (use st1(3) Some in simp_all)
    qed
  qed
  show ?thesis
  proof (cases is_unique)
    case False
    then show ?thesis using main [of st "''Ok to send data.''"] assms(1)
      by (simp add: upload_opened_def clean_def del: wp_bnd)
  next
    case True
    let ?msg = "''FILE: '' @ (case filename of None \<Rightarrow> [] | Some f \<Rightarrow> f)"
    have msg: "CHR ''%'' \<notin> set ?msg" using assms(5) by (auto split: option.splits)
    show ?thesis
      unfolding upload_opened_def Let_def if_P [OF True] wp_bnd [of _ _ "lfd_cmdio_write _ _ _ _ _"]
    proof (rule fine_write [OF decentD(1) [OF assms(2)] fits_plain [OF msg]], goal_cases)
      case (1 rc w')
      let ?st = "st\<lparr>world := w', replies := replies st @ [Reply FTP_DATACONN ?msg []]\<rparr>"
      have "wf_sess ?st" "CHR ''%'' \<notin> set (cwd_path ?st)"
        using assms(1) by (simp_all add: clean_def sess_defs)
      with main [unfolded Let_def, OF _ _ msg, of ?st] show ?case
        by (cases "rc = APR_SUCCESS") (simp_all del: wp_bnd append.simps)
    qed
  qed
qed

lemma fine_data_checks:
  assumes "decent os" and "wf_sess st" and "Q (True, st)"
    and "\<And>w'. Q (False, st\<lparr>world := w', replies := replies st
      @ [Reply FTP_BADSENDCONN ''Use PORT or PASV first.'' []]\<rparr>)"
  shows "wp fine Q (data_transfer_checks_ok os st)"
proof -
  have "p_port_sockaddr st = None \<or> pasv_listen_fd st = None" using assms(2) by (simp add: sess_defs)
  with assms(3,4) decentD(1) [OF assms(1)] show ?thesis
    by (auto simp: data_transfer_checks_ok_def active_one intro!: fine_write)
qed

lemma open_direct:
  assumes "lkl_file_open os p flag perm w = (rc, Some f, w')" and "flag AND APR_BUFFERED = 0"
  shows "direct f"
  using assms by (auto simp: lkl_file_open_def Let_def direct_def split: option.splits prod.splits if_splits)

lemma fine_unique:
  assumes "decent os" and "\<And>p. base = Some p \<Longrightarrow> CHR ''%'' \<notin> set p"
  shows "wp fine (\<lambda>(name, w'). \<forall>p. name = Some p \<longrightarrow> CHR ''%'' \<notin> set p) (get_unique_filename os base w)"
proof -
  define b where "b = (case base of None \<Rightarrow> ''(null)'' | Some t \<Rightarrow> t)"
  have "CHR ''%'' \<notin> set b" using assms(2) by (auto simp: b_def split: option.splits)
  moreover note dec_nat_plain
  moreover have "apr_pvsprintf os ''%s.%u'' [cstr_arg base, Uns n] = Some (b @ ''.'' @ dec_nat n)" for n
    by (simp add: cstr_arg_def b_def [symmetric] printf_docD(1,2,3,5) [OF decentD(1) [OF assms(1)]])
  ultimately have "wp fine (\<lambda>(name, w'). \<forall>p. name = Some p \<longrightarrow> CHR ''%'' \<notin> set p)
      (run_loop (unique_step os base) s)" for s
    by (intro wp_run_loop [where I = "\<lambda>_. True"]) (auto simp: unique_step_def split: prod.splits)
  with assms(2) show ?thesis
    by (auto simp: get_unique_filename_def split: prod.splits)
qed

lemma polite_upload:
  assumes "clean st" and "decent os" and "roomy os"
  shows "wp fine clear_cwd (handle_upload_common os is_append is_unique st)"
proof (cases "ftp_arg_str st = None")
  case True
  with assms show ?thesis
    by (auto simp: handle_upload_common_def polite_defs decentD(1) intro!: fine_write)
next
  case False
  let ?path = "get_abs_path (ftp_arg_str st) st"
  have wf: "wf_sess st" "CHR ''%'' \<notin> set (cwd_path st)" using assms(1) by (simp_all add: clean_def)
  have off: "restart_pos st = 0" "st\<lparr>restart_pos := 0\<rparr> = st" using wf by (simp_all add: sess_defs)
  have name: "wp fine (\<lambda>(name, w'). \<forall>p. name = Some p \<longrightarrow> CHR ''%'' \<notin> set p)
      (if is_unique then get_unique_filename os ?path (world st) else Inr (?path, world st))"
    using fine_unique [OF assms(2), of ?path "world st"] clean_path [OF assms(1)] by auto
  show ?thesis
    unfolding handle_upload_common_def Let_def off if_not_P [OF False]
  proof (subst wp_bnd, rule fine_data_checks [OF assms(2) wf(1)], goal_cases)
    case 1
    show ?case
      unfolding prod.case if_not_P [OF not_not [THEN iffD2, OF TrueI]]
    proof (subst wp_bnd, rule wp_mono [OF name], assumption, goal_cases)
      case (1 a)
      obtain fn w where a: "a = (fn, w)" by (cases a)
      with 1 have fn: "\<And>p. fn = Some p \<Longrightarrow> CHR ''%'' \<notin> set p" by simp
      define flags where "flags = (if \<not> is_append \<and> (0 :: int) = 0 then UPLOAD_FLAGS OR APR_TRUNCATE else UPLOAD_FLAGS)"
      have flags: "flags AND APR_BUFFERED = 0" by (simp add: flags_def UPLOAD_FLAGS_def apr_open_defs)
      obtain rc fo w' where o: "lkl_file_open os fn flags APR_OS_DEFAULT w = (rc, fo, w')"
        by (cases "lkl_file_open os fn flags APR_OS_DEFAULT w") auto
      have cl: "clean (st\<lparr>world := w'\<rparr>)" using assms(1) by (simp add: clean_def sess_defs)
      show ?case
      proof (cases fo)
        case None
        show ?thesis
          unfolding a prod.case flags_def [symmetric] o None option.case
          using wf decentD(1) [OF assms(2)] by (auto intro!: fine_write)
      next
        case (Some f)
        show ?thesis
          unfolding a prod.case flags_def [symmetric] o Some option.case
          using polite_upload_opened [OF cl assms(2,3) open_direct [OF o [unfolded Some] flags] fn]
          by (simp del: wp_bnd)
      qed
    qed
  qed (use wf in simp_all)
qed

lemma polite_reply_close:
  assumes "decent os" and "direct f" and "CHR ''%'' \<notin> set msg" and "CHR ''%'' \<notin> set (cwd_path st)"
  shows "wp fine clear_cwd (bnd (lfd_cmdio_write os cmd msg [] st) (\<lambda>(_, st).
       bnd (lkl_file_close os f (world st)) (\<lambda>(_, w). Inr (rc, st\<lparr>world := w\<rparr>))))"
  using assms decentD(1) [OF assms(1)]
  by (auto intro!: fine_write fits_plain fine_close [OF assms(1,2)] split: prod.splits)

lemma polite_retr_opened:
  assumes "clean st" and "decent os" and "direct f" and "\<And>p. path = Some p \<Longrightarrow> CHR ''%'' \<notin> set p"
  shows "wp fine clear_cwd (retr_opened os path 0 f st)"
proof -
  have main: "wp fine clear_cwd
      (bnd (lfd_get_remote_transfer_fd os msg st0) (\<lambda>(remote_fd, st).
        if remote_fd = None then
          bnd (lkl_file_close os f (world (lfd_communication_cleanup os st))) (\<lambda>(_, w).
            Inr (APR_EINVAL, lfd_communication_cleanup os st\<lparr>world := w\<rparr>))
        else
          bnd (do_file_send_rwloop os f (is_ascii st \<noteq> 0) st) (\<lambda>(ret, file, st).
          bnd (lfd_dispose_transfer_fd os st) (\<lambda>st.
            bnd (transfer_reply os ''Failure reading local file.'' ''Failure writing network stream.''
              ''File send OK.'' ret st) (\<lambda>(_, st). finish_transfer os file st)))))"
    if st0: "wf_sess st0" "CHR ''%'' \<notin> set (cwd_path st0)" "CHR ''%'' \<notin> set msg" for st0 msg
  proof (subst wp_bnd, rule fine_transfer_fd [OF assms(2) st0(1,3)], goal_cases)
    case (1 fd st1)
    have st1: "is_ascii st1 = 0" "cwd_path st1 = cwd_path st0" "data_sock (data_conn st1) = fd"
      using 1 st0(1) by (simp_all add: sess_defs opened_def)
    show ?case
    proof (cases fd)
      case None
      have "CHR ''%'' \<notin> set (cwd_path (lfd_communication_cleanup os st1))"
        by (rule wp_cleanup) (use st1 st0 in simp)
      with None show ?thesis
        by (auto intro!: fine_close [OF assms(2,3)] split: prod.splits)
    next
      case (Some d)
      show ?thesis
        unfolding Some prod.case if_not_P [OF option.distinct(2)] st1(1)
      proof (subst wp_bnd, simp only: simp_thms, rule wp_mono [OF fine_send_loop [OF assms(2,3)]], goal_cases)
        case (3 a)
        obtain ret f' st2 w' where a: "a = (ret, f', st2)" by (cases a) auto
        with 3 have f': "direct f'" by simp
        have "wp fine clear_cwd (bnd (lfd_dispose_transfer_fd os st2) (\<lambda>st.
            bnd (transfer_reply os ''Failure reading local file.'' ''Failure writing network stream.''
              ''File send OK.'' ret (st\<lparr>data_conn := id (data_conn st)\<rparr>)) (\<lambda>(_, st). finish_transfer os f' st)))"
          by (rule fine_after_loop [OF assms(2) f']) (use a 3 st1 Some st0(2) in auto)
        then show ?case by (simp add: a del: wp_bnd)
      qed (use st1(3) Some in simp_all)
    qed
  qed
  obtain rc fi w where s: "lkl_stat os (stack_finfo os) path (APR_FINFO_TYPE OR APR_FINFO_SIZE) (world st)
      = (rc, fi, w)"
    by (cases "lkl_stat os (stack_finfo os) path (APR_FINFO_TYPE OR APR_FINFO_SIZE) (world st)") auto
  let ?st = "st\<lparr>world := w\<rparr>"
  have wf: "wf_sess ?st" "CHR ''%'' \<notin> set (cwd_path ?st)" using assms(1) by (simp_all add: clean_def sess_defs)
  show ?thesis
  proof (cases "rc \<noteq> APR_SUCCESS \<or> fi_filetype fi \<noteq> APR_REG")
    case True
    show ?thesis
      unfolding retr_opened_def Let_def s prod.case if_P [OF True]
      by (rule polite_reply_close [OF assms(2,3)]) (use wf in simp_all)
  next
    case False
    define n where "n = nat (fi_size fi mod 2 ^ 32)"
    define p where "p = (case path of None \<Rightarrow> ''(null)'' | Some t \<Rightarrow> t)"
    have p: "CHR ''%'' \<notin> set p" using assms(4) by (auto simp: p_def split: option.splits)
    obtain msg where msg: "apr_pvsprintf os ''Opening %s %s %s %s %u %s''
        [Str (if is_ascii ?st \<noteq> 0 then ''ASCII'' else ''BINARY''), Str '' mode data connection for '',
         cstr_arg path, Str '' ( '', Uns n, Str '' bytes).''] = Some msg" "CHR ''%'' \<notin> set msg"
    proof
      show "apr_pvsprintf os ''Opening %s %s %s %s %u %s''
        [Str (if is_ascii ?st \<noteq> 0 then ''ASCII'' else ''BINARY''), Str '' mode data connection for '',
         cstr_arg path, Str '' ( '', Uns n, Str '' bytes).'']
        = Some (''Opening '' @ (if is_ascii ?st \<noteq> 0 then ''ASCII'' else ''BINARY'') @ '' ''
            @ '' mode data connection for '' @ '' '' @ p @ '' '' @ '' ( '' @ '' '' @ dec_nat n @ '' '' @ '' bytes).'')"
        by (simp add: cstr_arg_def p_def [symmetric] printf_docD(1,2,3,5) [OF decentD(1) [OF assms(2)]])
    qed (use p dec_nat_plain in simp)
    show ?thesis
      unfolding retr_opened_def Let_def s prod.case if_not_P [OF False] n_def [symmetric] msg(1) option.case
        if_not_P [OF not_not [THEN iffD2, OF refl]] bnd_Inr
      using main [OF wf msg(2)] msg(1) by (simp del: wp_bnd)
  qed
qed

lemma polite_retr:
  assumes "clean st" and "decent os"
  shows "wp fine clear_cwd (handle_retr os st)"
proof (cases "ftp_arg_str st = None")
  case True
  with assms show ?thesis by (auto simp: handle_retr_def polite_defs decentD(1) intro!: fine_write)
next
  case False
  have wf: "wf_sess st" "CHR ''%'' \<notin> set (cwd_path st)" using assms(1) by (simp_all add: clean_def)
  have off: "restart_pos st = 0" "st\<lparr>restart_pos := 0\<rparr> = st" "is_ascii st = 0"
    using wf by (simp_all add: sess_defs)
  show ?thesis
    unfolding handle_retr_def Let_def off if_not_P [OF False]
  proof (subst wp_bnd, rule fine_data_checks [OF assms(2) wf(1)], goal_cases)
    case 1
    let ?path = "get_abs_path (ftp_arg_str st) st"
    obtain rc fo w where o: "lkl_file_open os ?path RETR_FLAGS 0 (world st) = (rc, fo, w)"
      by (cases "lkl_file_open os ?path RETR_FLAGS 0 (world st)") auto
    have flags: "RETR_FLAGS AND APR_BUFFERED = 0" by (simp add: RETR_FLAGS_def apr_open_defs)
    have cl: "clean (st\<lparr>world := w\<rparr>)" using assms(1) by (simp add: clean_def sess_defs)
    show ?case
    proof (cases fo)
      case None
      with wf decentD(1) [OF assms(2)] show ?thesis by (auto simp: o off intro!: fine_write)
    next
      case (Some f)
      with polite_retr_opened [OF cl assms(2) open_direct [OF o [unfolded Some] flags]
          clean_path [OF assms(1)]] show ?thesis
        by (simp add: o off del: wp_bnd)
    qed
  qed (use wf in simp_all)
qed

section \<open>Listing\<close>

lemma fine_readdir:
  assumes "decent os" and "dir_ok d" and "dirname d = Some (c # p)"
  shows "wp fine (\<lambda>(e, d', w'). dir_ok d' \<and> dirname d' = Some (c # p)) (lkl_readdir os d w)"
proof -
  obtain pre suf where d: "dir_data d = pre @ suf" "dir_offset d = sum_list (map d_reclen pre)"
    "dir_size d = sum_list (map d_reclen (dir_data d))" "\<forall>e\<in>set (dir_data d). 0 < d_reclen e"
    using assms(2) by (auto simp: dir_ok_def)
  show ?thesis
  proof (cases suf)
    case (Cons e ds)
    then have "dir_offset d < dir_size d" using d by simp
    with advance_ok(1,2) [of d pre e ds] d Cons assms(3) show ?thesis by (simp add: lkl_readdir_def)
  next
    case Nil
    then have buf: "dir_offset d \<ge> dir_size d" using d by simp
    obtain r ds w' where get: "lkl_sys_getdents os (dir_fd d) BUF_SIZE w = (r, ds, w')"
      by (cases "lkl_sys_getdents os (dir_fd d) BUF_SIZE w") auto
    show ?thesis
    proof (cases "0 < r")
      case False
      with get buf assms(2,3) show ?thesis by (simp add: lkl_readdir_def)
    next
      case True
      with decentD(7) [OF assms(1) get] have k: "r = int (sum_list (map d_reclen ds))"
        "\<forall>e\<in>set ds. 0 < d_reclen e" by simp_all
      with True obtain e es where ds: "ds = e # es" by (cases ds) auto
      let ?d = "d\<lparr>dir_data := ds, dir_size := nat r, dir_offset := 0\<rparr>"
      have "dir_data ?d = [] @ e # es" "dir_offset ?d = sum_list (map d_reclen [])"
        "dir_size ?d = sum_list (map d_reclen (dir_data ?d))" "\<forall>e\<in>set (dir_data ?d). 0 < d_reclen e"
        using ds k by simp_all
      from advance_ok(1,2) [OF this] get buf True assms(3) show ?thesis by (simp add: lkl_readdir_def)
    qed
  qed
qed

lemma fine_list_dir:
  assumes "decent os" and "roomy os" and "p \<noteq> []" and "fl AND LIST_FLAG_L \<noteq> 0"
  shows "wp fine (\<lambda>_. True) (list_dir os (Some p) fl w)"
proof -
  obtain c q where p: "p = c # q" using assms(3) by (cases p) auto
  have spec: "\<exists>f. entry_fspec (Some (c # q)) name = Inr f" for name
    by (simp add: entry_fspec_def Let_def APR_PATH_MAX_def)
  have read: "wp fine (\<lambda>(rc, fi', d', w'). dir_ok d' \<and> dirname d' = Some (c # q)
      \<and> (rc = APR_SUCCESS \<or> rc = APR_INCOMPLETE \<longrightarrow> fi_name fi' \<noteq> None \<and> fi_set fi'))
    (lkl_dir_read os fi LIST_WANTED d v)" if "dir_ok d" "dirname d = Some (c # q)" for fi d v
  proof (cases "lkl_readdir os d v")
    case (Inl e)
    with fine_readdir [OF assms(1) that, of v] show ?thesis by (simp add: lkl_dir_read_def)
  next
    case (Inr a)
    obtain e d' v' where a: "a = (e, d', v')" by (cases a)
    with fine_readdir [OF assms(1) that, of v] Inr have d': "dir_ok d'" "dirname d' = Some (c # q)" by auto
    show ?thesis
    proof (cases e)
      case None
      with Inr a d' show ?thesis by (simp add: lkl_dir_read_def Let_def APR_ENOENT_def APR_INCOMPLETE_def)
    next
      case (Some x)
      obtain f where f: "entry_fspec (Some (c # q)) (d_name x) = Inr f" using spec by blast
      obtain info v2 where st: "lkl_sys_newlstat os (Some f) v' = (0, info, v2)"
        using assms(2) unfolding roomy_def by (metis prod.collapse)
      with Inr a Some f d' show ?thesis
        using dir_read_eq [of os d v x d' v' f fi]
        by (simp add: entry_info_def fill_out_finfo_def Let_def APR_INCOMPLETE_def)
    qed
  qed
  have entry: "wp fine (\<lambda>_. True) (list_entry os fl fi v)" if name: "fi_name fi = Some n" "fi_set fi" for fi n v
  proof -
    have out: "apr_pvsprintf os LIST_FORMAT (list_args fi t n) \<noteq> None" for t
      by (simp add: list_args_def perm_char_def list_format_out [OF decentD(1) [OF assms(1)]])
    show ?thesis
      using assms(4) by (auto simp: list_entry_def name Let_def out split: prod.splits option.splits)
  qed
  have loop: "wp fine (\<lambda>_. True) (run_loop (list_step os fl) (t, fi, d, v))"
    if "dir_ok d" "dirname d = Some (c # q)" for t fi d v
  proof (rule wp_run_loop [where I = "\<lambda>(t, fi, d, v). dir_ok d \<and> dirname d = Some (c # q)"], goal_cases)
    case (3 x)
    obtain t g e u where x: "x = (t, g, e, u)" by (cases x) auto
    with 3 have I: "dir_ok e" "dirname e = Some (c # q)" by simp_all
    show ?case
      unfolding x list_step_def prod.case wp_bnd
      by (rule wp_mono [OF read [OF I]]) (auto intro!: wp_mono [OF entry])
  qed (use that in simp_all)
  have close: "wp fine (\<lambda>_. True) (lkl_dir_close os d v)" for d v
    using decentD(4) [OF assms(1)] by (simp add: lkl_dir_close_def env_doc_def dir_cleanup_def)
  show ?thesis
    unfolding p
    by (auto simp: list_dir_def lkl_dir_open_def dir_ok_def split: prod.splits option.splits
        intro!: wp_mono [OF loop] wp_mono [OF close])
qed

lemma polite_list:
  assumes "clean st" and "decent os" and "roomy os"
  shows "wp fine clear_cwd (handle_list os st)"
proof -
  have wf: "wf_sess st" "CHR ''%'' \<notin> set (cwd_path st)" using assms(1) by (simp_all add: clean_def)
  obtain path fl where p: "list_path st = (path, fl)" by (cases "list_path st")
  show ?thesis
  proof (cases path)
    case None
    with wf decentD(1) [OF assms(2)] p show ?thesis
      by (auto simp: handle_list_def intro!: fine_write)
  next
    case (Some q)
    note flags = list_path_flags [OF wf(1) p [unfolded Some]]
    show ?thesis
      unfolding handle_list_def p prod.case Some if_not_P [OF option.distinct(2)]
    proof (subst wp_bnd, rule wp_mono [OF fine_list_dir [OF assms(2,3) flags(2,1)]], assumption, goal_cases)
      case (1 a)
      obtain rc files w where a: "a = (rc, files, w)" by (cases a) auto
      have w: "wf_sess (st\<lparr>world := w\<rparr>)" using wf(1) by (simp add: sess_defs)
      show ?case
      proof (cases "rc = APR_SUCCESS")
        case False
        with wf decentD(1) [OF assms(2)] show ?thesis by (auto simp: a intro!: fine_write)
      next
        case True
        show ?thesis
          unfolding a prod.case Let_def True if_not_P [OF not_not [THEN iffD2, OF refl]]
        proof (subst wp_bnd, rule fine_transfer_fd [OF assms(2) w], simp, goal_cases)
          case (1 fd st1)
          have st1: "cwd_path st1 = cwd_path st" "data_sock (data_conn st1) = fd"
            using 1 by (simp_all add: opened_def kept_def)
          with wf(2) decentD(1) [OF assms(2)] show ?case
            by (auto split: option.splits prod.splits intro!: fine_write wp_dispose)
        qed
      qed
    qed
  qed
qed

section \<open>The operations of a session\<close>

interpretation calm_user: polite_op "handle_user os" "\<lambda>_. decent os" for os by unfold_locales (rule polite_talk)
interpretation calm_pass: polite_op "handle_pass os" "\<lambda>_. decent os" for os by unfold_locales (rule polite_talk)
interpretation calm_syst: polite_op "handle_syst os" "\<lambda>_. decent os" for os by unfold_locales (rule polite_talk)
interpretation calm_type: polite_op "handle_type os" "\<lambda>_. decent os" for os by unfold_locales (rule polite_talk)
interpretation calm_feat: polite_op "handle_feat os" "\<lambda>_. decent os" for os by unfold_locales (rule polite_talk)
interpretation calm_bad_rnto: polite_op "handle_bad_rnto os" "\<lambda>_. decent os" for os
  by unfold_locales (rule polite_talk)
interpretation calm_abor: polite_op "handle_abort os" "\<lambda>_. decent os" for os by unfold_locales (rule polite_session)
interpretation calm_site: polite_op "handle_site os" "\<lambda>st. decent os \<and> ftp_arg_str st \<noteq> None" for os
  by unfold_locales (rule polite_session, simp_all)
interpretation calm_pwd: polite_op "handle_pwd os" "\<lambda>_. decent os" for os by unfold_locales (rule polite_pwd)
interpretation calm_rmd: polite_op "handle_dir_remove os" "\<lambda>_. decent os" for os
  by unfold_locales (rule polite_dir_remove)
interpretation calm_mkd: polite_op "handle_dir_create os" "\<lambda>_. decent os" for os
  by unfold_locales (rule polite_dir_create)
interpretation calm_dele: polite_op "handle_dele os" "\<lambda>_. decent os" for os by unfold_locales (rule polite_dele)
interpretation calm_rnto: polite_op "handle_rnto os old" "\<lambda>_. decent os" for os old
  by unfold_locales (rule polite_rnto)
interpretation calm_cdup: polite_op "handle_cdup os" "\<lambda>_. decent os" for os by unfold_locales (rule polite_cdup)
interpretation calm_cwd: polite_op "handle_cwd os" "\<lambda>_. decent os" for os by unfold_locales (rule polite_cwd)
interpretation calm_pasv: polite_op "handle_pasv os" "\<lambda>_. decent os" for os by unfold_locales (rule polite_pasv)
interpretation calm_port: polite_op "handle_port os" "\<lambda>st. decent os \<and> ftp_arg_str st \<noteq> None" for os
  by unfold_locales (rule polite_port, simp_all)
interpretation calm_retr: polite_op "handle_retr os" "\<lambda>_. decent os" for os by unfold_locales (rule polite_retr)
interpretation calm_stor: polite_op "handle_stor os" "\<lambda>_. decent os \<and> roomy os" for os
  by unfold_locales (auto simp: handle_stor_def intro: polite_upload)
interpretation calm_appe: polite_op "handle_appe os" "\<lambda>_. decent os \<and> roomy os" for os
  by unfold_locales (auto simp: handle_appe_def intro: polite_upload)
interpretation calm_stou: polite_op "handle_stou os" "\<lambda>_. decent os \<and> roomy os" for os
  by unfold_locales (auto simp: handle_stou_def intro: polite_upload)
interpretation calm_list: polite_op "handle_list os" "\<lambda>_. decent os \<and> roomy os" for os
  by unfold_locales (rule polite_list, simp_all)
interpretation calm_say: polite_op "lfd_cmdio_write os code msg []" "\<lambda>_. decent os \<and> CHR ''%'' \<notin> set msg"
  for os code msg
  by unfold_locales (auto simp: clean_def decentD(1) intro!: fine_write fits_plain)

lemmas calm_runs = calm_user.run_polite calm_pass.run_polite calm_syst.run_polite calm_type.run_polite
  calm_feat.run_polite calm_abor.run_polite calm_pwd.run_polite calm_rmd.run_polite calm_mkd.run_polite
  calm_dele.run_polite calm_cdup.run_polite calm_cwd.run_polite calm_pasv.run_polite calm_retr.run_polite
  calm_bad_rnto.run_polite calm_rnto.run_polite
lemmas roomy_runs = calm_stor.run_polite calm_appe.run_polite calm_stou.run_polite calm_list.run_polite
lemmas argument_runs = calm_port.run_polite calm_site.run_polite

lemma polite_dispatch:
  assumes "clean st" and "decent os" and "roomy os"
    and "lfd_cmdio_cmd_equals os st ''PORT'' \<or> lfd_cmdio_cmd_equals os st ''SITE'' \<Longrightarrow> ftp_arg_str st \<noteq> None"
  shows "wp fine calm_next (dispatch os temp st)"
proof -
  have quit: "wp fine calm_next (bnd (handle_quit os st) (\<lambda>r. Inr (Done r)))"
    unfolding wp_bnd by (rule wp_mono [OF polite_session(1) [OF assms(1,2)]]) (simp_all add: calm_next_def)
  have rnfr: "wp fine calm_next (bnd (handle_rnfr os st) (\<lambda>(rc, temp, st').
      loop_test (rc = APR_SUCCESS \<and> temp \<noteq> None) temp (rc, st')))"
    unfolding wp_bnd
    by (rule wp_mono [OF polite_rnfr [OF assms(1,2)]]) (auto simp: loop_test_def calm_next_def)
  have default: "wp fine calm_next (bnd (lfd_cmdio_write os FTP_COMMANDNOTIMPL ''Command not implemented.'' [] st)
      (\<lambda>(_, st'). Inr (Again (False, temp, st'))))"
    using assms(1) by (auto simp: calm_next_def clean_def decentD(1) [OF assms(2)] intro!: fine_write)
  show ?thesis
    unfolding dispatch_def Let_def
    by ((rule wp_ifI, (rule calm_runs [OF assms(1,2)] | rule quit | rule rnfr
          | (rule argument_runs [OF assms(1)], use assms(2,4) in blast)
          | (rule roomy_runs [OF assms(1)], use assms(2,3) in blast)
          | (rule calm_say.run_polite [OF assms(1)], use assms(2) in simp)))+, rule default)
qed

section \<open>An iteration\<close>

lemma parse_polite:
  assumes "strtok_doc (apr_strtok os)" and "NUL \<in> set buffer" and "CHR ''%'' \<notin> set buffer"
  shows "\<exists>rc cmd arg. parse_command os buffer = Inr (rc, cmd, arg) \<and> (rc = APR_SUCCESS \<longrightarrow> cmd \<noteq> None)
    \<and> (\<forall>a. arg = Some a \<longrightarrow> CHR ''%'' \<notin> set a)"
proof -
  let ?line = "takeWhile (\<lambda>c. c \<noteq> NUL) buffer"
  have line: "CHR ''%'' \<notin> set ?line" using assms(3) by (auto dest: set_takeWhileD)
  show ?thesis
    using assms(2) line
    by (auto simp: parse_command_def c_string_def APR_INCOMPLETE_def split: option.splits
        dest!: strtok_arg [OF assms(1)])
qed

lemma polite_get_cmd:
  assumes "decent os" and "polite_clients os" and "wf_sess st" and "CHR ''%'' \<notin> set (cwd_path st)"
  shows "wp fine (\<lambda>(rc, st'). rc = APR_SUCCESS \<longrightarrow> clean st' \<and>
      (lfd_cmdio_cmd_equals os st' ''PORT'' \<or> lfd_cmdio_cmd_equals os st' ''SITE'' \<longrightarrow> ftp_arg_str st' \<noteq> None))
    (lfd_cmdio_get_cmd_and_arg os st)"
proof -
  obtain rc bytes w where r: "apr_socket_recv os (comm_sock st) cmd_input_buffer_len (world st) = (rc, bytes, w)"
    by (cases "apr_socket_recv os (comm_sock st) cmd_input_buffer_len (world st)") auto
  have line: "polite_line os bytes" using assms(2) r unfolding polite_clients_def by (metis fst_conv snd_conv)
  define buffer where "buffer = bytes @ replicate (cmd_input_buffer_len - length bytes) NUL"
  have "NUL \<in> set buffer" "CHR ''%'' \<notin> set buffer"
    using line by (auto simp: buffer_def polite_line_def NUL_def)
  from parse_polite [OF decentD(2) [OF assms(1)] this] obtain rc' cmd arg where
    p: "parse_command os buffer = Inr (rc', cmd, arg)" "rc' = APR_SUCCESS \<longrightarrow> cmd \<noteq> None"
      "\<forall>a. arg = Some a \<longrightarrow> CHR ''%'' \<notin> set a" by blast
  have "wp (\<lambda>_. True) (\<lambda>(rc, st'). served st st') (lfd_cmdio_get_cmd_and_arg os st)"
    by (rule wp_mono [OF wp_get_cmd [OF decentD(2) [OF assms(1)] assms(3)]]) simp_all
  with p line assms(4) show ?thesis
    by (auto simp: lfd_cmdio_get_cmd_and_arg_def r buffer_def [symmetric] Let_def clean_def served_def
        lfd_cmdio_cmd_equals_def polite_line_def split: option.splits)
qed

lemma polite_step:
  assumes "decent os" and "roomy os" and "polite_clients os" and "wf_sess st" and "CHR ''%'' \<notin> set (cwd_path st)"
  shows "wp fine calm_next (protocol_step os (rnfrto, temp, st))"
  unfolding protocol_step_def prod.case wp_bnd
proof (rule wp_mono [OF polite_get_cmd [OF assms(1,3)]], goal_cases)
  case 1
  show ?case using assms(4) by (simp add: sess_defs)
next
  case 2
  show ?case using assms(5) by simp
next
  case (4 r)
  obtain rc st1 where r: "r = (rc, st1)" by (cases r)
  show ?case
  proof (cases "rc = APR_SUCCESS")
    case True
    with 4 r have st1: "clean st1" and arg: "lfd_cmdio_cmd_equals os st1 ''PORT'' \<or>
        lfd_cmdio_cmd_equals os st1 ''SITE'' \<Longrightarrow> ftp_arg_str st1 \<noteq> None" by auto
    note runs = calm_rnto.run_polite [OF st1 assms(1)] calm_bad_rnto.run_polite [OF st1 assms(1)]
      polite_dispatch [OF st1 assms(1,2) arg]
    show ?thesis using runs by (simp add: r True del: wp_bnd)
  qed (simp add: r calm_next_def)
qed

text \<open>
  One session with a polite client: it ends, or goes on for ever, but for the LIST without a connection.
\<close>
theorem polite_session_survives:
  assumes "decent os" and "roomy os" and "polite_clients os" and "wf_sess st" and "CHR ''%'' \<notin> set (cwd_path st)"
  shows "wp (\<lambda>e. e = Diverge \<or> e = no_connection) (\<lambda>(rc, st'). served st st') (ftp_protocol_loop os st)"
proof -
  have "harmless (ftp_protocol_loop os st)"
    unfolding harmless_def ftp_protocol_loop_def
  proof (rule wp_run_loop [where I = "\<lambda>(b, temp, st'). wf_sess st' \<and> CHR ''%'' \<notin> set (cwd_path st')"], goal_cases)
    case (3 t)
    obtain b temp st' where t: "t = (b, temp, st')" by (cases t)
    with 3 have st': "wf_sess st'" "CHR ''%'' \<notin> set (cwd_path st')" by simp_all
    have "wp (\<lambda>_. True) (step_ok st') (protocol_step os (b, temp, st'))"
      by (rule wp_mono [OF wp_step [OF decentD(4,2) [OF assms(1)] st'(1)]]) simp_all
    with polite_step [OF assms(1-3) st', of b temp] show ?case
      by (cases "protocol_step os (b, temp, st')")
        (auto simp: t step_ok_def calm_next_def served_def split: ctl.splits)
  qed (use assms(4,5) in simp_all)
  moreover have "wp (\<lambda>_. True) (\<lambda>(rc, st'). served st st') (ftp_protocol_loop os st)"
    by (rule wp_mono [OF session_loop [OF decentD(4,2) [OF assms(1)] assms(4)]]) simp_all
  ultimately show ?thesis unfolding fine_def [abs_def, symmetric] by (rule harmless_wp)
qed

section \<open>All sessions\<close>

definition server_calm :: "'w process \<Rightarrow> bool" where
  "server_calm p = (case p of
       Running w T \<Rightarrow> \<forall>s \<in> ran T. wf_sess (snd (snd s)) \<and> CHR ''%'' \<notin> set (cwd_path (snd (snd s)))
     | Crashed e \<Rightarrow> e = no_connection)"

lemma greeting_cwd: "wp (\<lambda>_. True) (\<lambda>(rc, st'). cwd_path st' = cwd_path st) (emit_greeting os st)"
  by (auto simp: emit_greeting_def intro!: wp_write)

lemma server_calm_step:
  assumes "decent os" and "roomy os" and "polite_clients os" and "server_step os p q"
    and "server_sound p" and "server_calm p"
  shows "server_calm q"
  using assms(4-6)
proof induction
  case (connect T i sk w rc st w1 st1)
  have "sound (False, None, st1)"
    by (rule greeted_sound [OF create_greeted]) (rule connect.hyps)+
  then have "wf_sess st1" by (simp add: sound_def)
  moreover have "cwd_path st1 = ''/''"
    using greeting_cwd [of st os] connect.hyps
    by (auto simp: lfd_sess_create_def split: prod.splits if_splits)
  ultimately show ?case
    using connect.prems(2) connect.hyps(1) by (simp add: server_calm_def ran_map_upd)
next
  case (turn_away T i sk w rc w1)
  have "fst (apr_pool_create os w) = APR_SUCCESS" using assms(2) by (simp add: roomy_def)
  with turn_away.hyps(2) show ?case by (simp add: lfd_sess_create_def split: prod.splits)
next
  case (bad_banner T i sk w rc st w1 e)
  have "harmless (emit_greeting os st)"
    using decentD(12) [OF assms(1)] decentD(1) [OF assms(1)]
    by (auto simp: harmless_def emit_greeting_def intro!: fine_write fits_plain)
  moreover have "wp (\<lambda>e. e = Bad_Format) (\<lambda>_. True) (emit_greeting os st)"
    by (auto simp: emit_greeting_def intro!: wp_write)
  ultimately show ?case using bad_banner(3) by (simp add: harmless_def fine_def no_connection_def)
next
  case (command T i s w s')
  obtain b temp st where s: "s = (b, temp, st)" by (cases s)
  have "sound s" using command by (auto simp: server_sound_def intro: ranI)
  from sound_step [OF decentD(4,2) [OF assms(1)] this, of w] command
  have "wf_sess (snd (snd s'))" by (simp add: sound_def del: split_paired_All)
  moreover have st: "wf_sess (st\<lparr>world := w\<rparr>)" "CHR ''%'' \<notin> set (cwd_path (st\<lparr>world := w\<rparr>))"
    using command(1,4) by (auto simp: s server_calm_def sess_defs intro: ranI dest!: bspec)
  from polite_step [OF assms(1-3) this, of b temp] command(2)
  have "CHR ''%'' \<notin> set (cwd_path (snd (snd s')))" by (simp add: s resume_def calm_next_def)
  ultimately show ?case
    using command.prems(2) by (auto simp: server_calm_def ran_def simp del: split_paired_All split_paired_Ex)
next
  case (crash T i s w e)
  obtain b temp st where s: "s = (b, temp, st)" by (cases s)
  have st: "wf_sess (st\<lparr>world := w\<rparr>)" "CHR ''%'' \<notin> set (cwd_path (st\<lparr>world := w\<rparr>))"
    using crash.hyps(1) crash.prems(2) by (auto simp: s server_calm_def sess_defs intro: ranI dest!: bspec)
  from polite_step [OF assms(1-3) this, of b temp] crash.hyps show ?case
    by (simp add: s resume_def server_calm_def fine_def)
next
  case (finish T i s w rc st')
  then show ?case by (auto simp: server_calm_def ran_def)
qed (auto simp: server_calm_def)

lemma runs_calm:
  assumes "decent os" and "roomy os" and "polite_clients os" and "server_runs os p"
  shows "server_calm p"
  using assms(4)
proof (induction rule: server_runs_induct)
  case (step p q)
  have "server_sound p" by (rule runs_sound [OF decentD(4,2) [OF assms(1)] step.hyps(1)])
  with step show ?case using server_calm_step [OF assms(1-3)] by blast
qed (simp add: server_calm_def)

text \<open>
  C9. Clients that send short lines, keep percent signs out of them and give PORT and SITE their argument
  cannot make the server run into undefined behaviour, however their threads interleave and whatever
  the network answers, on a host that has room: as long as no write to the disk fails, memory pools do not run
  out and the entries of a directory that is listed can be looked up. The one way in which they can
  still end the process is LIST without a data connection.
\<close>
theorem polite_clients_are_safe:
  assumes "decent os" and "roomy os" and "polite_clients os" and "server_runs os (Crashed e)"
  shows "e = no_connection"
  using runs_calm [OF assms] by (simp add: server_calm_def)

end
