(* ===== verification/Logging.thy ===== *)
theory Logging
  imports Sess
begin

text \<open>
  The terminal log of utils.c: what a call of \<open>lfd_log\<close> or of one of the two error macros prints. The
  operations of the program print and go on, so that their models leave the calls out; this theory has
  the two functions themselves, and the calls that do not print what they should.
\<close>

section \<open>Printing\<close>

definition TAB :: char where "TAB = char_of (9 :: nat)"

text \<open>
  The parameter \<open>p\<close> is the conversion of printf, as \<open>apr_pvsprintf\<close> is one: \<open>None\<close> when the format and the
  arguments do not fit, which is undefined. The result is the text that appears. The program takes the
  string result of glibc's \<open>strerror_r\<close>; a null format, which the C standard leaves undefined, prints nothing
  with glibc's \<open>vprintf\<close>, which refuses it with \<open>EINVAL\<close>.
\<close>

type_synonym conversion = "string \<Rightarrow> farg list \<Rightarrow> string option"

datatype err_levels = LFD_ERROR | LFD_WARN | LFD_DBG

fun level_value :: "err_levels \<Rightarrow> int" where
  "level_value LFD_ERROR = 0"
| "level_value LFD_WARN = 1"
| "level_value LFD_DBG = 2"

text \<open>
  A level where a pointer is expected: the constant 0 is a null pointer, another number is none, so that
  reading through it is a fault.
\<close>

definition level_pointer :: "err_levels \<Rightarrow> cstr res" where
  "level_pointer lvl = (if level_value lvl = 0 then Inr None else Inl Out_Of_Bounds)"

definition vprintf :: "conversion \<Rightarrow> cstr \<Rightarrow> farg list \<Rightarrow> string res" where
  "vprintf p fmt args =
     (case fmt of
        None \<Rightarrow> Inr []
      | Some f \<Rightarrow> (case p f args of None \<Rightarrow> Inl Bad_Format | Some t \<Rightarrow> Inr t))"

definition lfd_log :: "conversion \<Rightarrow> err_levels \<Rightarrow> cstr \<Rightarrow> farg list \<Rightarrow> string res" where
  "lfd_log p lvl fmt args =
     bnd (vprintf p fmt args) (\<lambda>t.
     bnd (vprintf p (Some [LF]) []) (\<lambda>nl. Inr (t @ nl)))"

text \<open>
  The two functions that find the message for an error number, the library's and the C library's; the
  second is given a Linux number, without its sign.
\<close>

record messages =
  apr_strerror :: "int \<Rightarrow> string"
  strerror_r :: "int \<Rightarrow> string"

definition lfd_log_err_impl ::
    "conversion \<Rightarrow> messages \<Rightarrow> err_source_t \<Rightarrow> string \<Rightarrow> int \<Rightarrow> string \<Rightarrow> int \<Rightarrow> cstr \<Rightarrow> farg list \<Rightarrow> string res" where
  "lfd_log_err_impl p ms errsrc file line func rc fmt args =
     bnd (vprintf p (Some ''[ERROR][%s] %s:%d %s() -- '')
       [Str (err_source_str errsrc), Str file, Dec line, Str func]) (\<lambda>place.
     bnd (vprintf p fmt args) (\<lambda>what.
     bnd (vprintf p (Some [LF]) []) (\<lambda>nl.
     bnd (vprintf p (Some (TAB # '' rc = %d, strerr = [%s]'' @ [LF]))
       [Dec rc, Str (err_source_strerror (apr_strerror ms) (strerror_r ms) errsrc rc)]) (\<lambda>why.
       Inr (place @ what @ nl @ why)))))"

definition lfd_log_apr_err ::
    "conversion \<Rightarrow> messages \<Rightarrow> string \<Rightarrow> int \<Rightarrow> string \<Rightarrow> int \<Rightarrow> cstr \<Rightarrow> farg list \<Rightarrow> string res" where
  "lfd_log_apr_err p ms file line func rc fmt args =
     lfd_log_err_impl p ms ERR_SOURCE_APR file line func rc fmt args"

definition lfd_log_linux_err ::
    "conversion \<Rightarrow> messages \<Rightarrow> string \<Rightarrow> int \<Rightarrow> string \<Rightarrow> int \<Rightarrow> cstr \<Rightarrow> farg list \<Rightarrow> string res" where
  "lfd_log_linux_err p ms file line func rc fmt args =
     lfd_log_err_impl p ms ERR_SOURCE_LINUX file line func rc fmt args"

section \<open>The report of an error\<close>

definition report_text :: "string \<Rightarrow> string \<Rightarrow> int \<Rightarrow> string \<Rightarrow> string \<Rightarrow> int \<Rightarrow> string \<Rightarrow> string" where
  "report_text src file line func what rc msg =
     ''[ERROR]['' @ src @ ''] '' @ file @ '':'' @ dec_int line @ '' '' @ func @ ''() -- '' @ what @ [LF]
     @ TAB # '' rc = '' @ dec_int rc @ '', strerr = ['' @ msg @ '']'' @ [LF]"

lemma special_chars: "CHR ''%'' \<noteq> TAB" "CHR ''%'' \<noteq> LF"
  by (simp_all add: TAB_def LF_def char_of_def bit_0)

lemma report_place:
  assumes "printf_doc p"
  shows "p ''[ERROR][%s] %s:%d %s() -- '' [Str src, Str file, Dec line, Str func]
    = Some (''[ERROR]['' @ src @ ''] '' @ file @ '':'' @ dec_int line @ '' '' @ func @ ''() -- '')"
  by (simp add: printf_docD [OF assms])

lemma report_reason:
  assumes "printf_doc p"
  shows "p (TAB # '' rc = %d, strerr = [%s]'' @ [LF]) [Dec rc, Str msg]
    = Some (TAB # '' rc = '' @ dec_int rc @ '', strerr = ['' @ msg @ '']'' @ [LF])"
  by (simp add: printf_docD [OF assms] special_chars [symmetric])

lemma report:
  assumes "printf_doc p" and "vprintf p fmt args = Inr what"
  shows "lfd_log_err_impl p ms src file line func rc fmt args
    = Inr (report_text (err_source_str src) file line func what rc
        (err_source_strerror (apr_strerror ms) (strerror_r ms) src rc))"
  unfolding lfd_log_err_impl_def assms(2)
  by (simp add: vprintf_def report_place [OF assms(1)] report_reason [OF assms(1), simplified]
      printf_plain [OF assms(1)] special_chars report_text_def)

text \<open>
  The report of an error says where it was noticed, what failed and why: for APR the message of
  the status, for the kernel, which returns negative numbers, the one of the number without its sign.
\<close>
theorem report_says_where_what_why:
  assumes "printf_doc p" and "p f args = Some what"
  shows "lfd_log_apr_err p ms file line func rc (Some f) args
      = Inr (report_text ''APR'' file line func what rc (apr_strerror ms rc))
    \<and> lfd_log_linux_err p ms file line func (- n) (Some f) args
      = Inr (report_text ''LINUX'' file line func what (- n) (strerror_r ms n))"
  using assms report [OF assms(1), of "Some f" args what]
  by (simp_all add: lfd_log_apr_err_def lfd_log_linux_err_def vprintf_def)

section \<open>Three calls\<close>

text \<open>
  \<open>main\<close> when the disk cannot be mounted: the level \<open>LFD_ERROR\<close> stands where the macro has the format, and
  its value 0 makes that a null pointer. \<open>lfd_connect\<close> when the connection fails: the level stands where the
  macro has the status. The thread of a session that cannot be created: a conversion has no argument.
\<close>

definition report_mount_failure :: "conversion \<Rightarrow> messages \<Rightarrow> int \<Rightarrow> string res" where
  "report_mount_failure p ms rc =
     bnd (level_pointer LFD_ERROR) (\<lambda>fmt.
       lfd_log_linux_err p ms ''main.c'' 210 ''main'' rc fmt [Str ''failed to mount disk''])"

definition report_connect_failure :: "conversion \<Rightarrow> messages \<Rightarrow> int \<Rightarrow> string res" where
  "report_connect_failure p ms rc =
     lfd_log_apr_err p ms ''listen.c'' 191 ''lfd_connect'' (level_value LFD_ERROR)
       (Some ''apr_socket_connect failed'') []"

definition report_create_failure :: "conversion \<Rightarrow> messages \<Rightarrow> int \<Rightarrow> string res" where
  "report_create_failure p ms rc =
     lfd_log_apr_err p ms ''worker.c'' 196 ''lfd_worker_protocol_main_impl'' rc
       (Some ''lfd_sess_create failed with errorcode %d'') []"

text \<open>
  C38. Three reports go wrong: the one of a disk that cannot be mounted has no message, the one of a
  connection that fails always gives the status 0, that is success, and the one of a session that cannot be
  created is undefined.
\<close>
theorem reports_that_go_wrong:
  assumes "printf_doc p"
  shows "report_mount_failure p ms (- n) = Inr (report_text ''LINUX'' ''main.c'' 210 ''main'' [] (- n) (strerror_r ms n))
    \<and> report_connect_failure p ms rc = Inr (report_text ''APR'' ''listen.c'' 191 ''lfd_connect''
        ''apr_socket_connect failed'' 0 (apr_strerror ms 0))
    \<and> report_create_failure p ms rc = Inl Bad_Format"
proof -
  have "p (''lfd_sess_create failed with errorcode '' @ ''%d'') [] = None"
    using printf_missing_arg [OF assms, of "''lfd_sess_create failed with errorcode ''" "CHR ''d''" "[]"] by simp
  then have "p ''lfd_sess_create failed with errorcode %d'' [] = None" by simp
  then have "report_create_failure p ms rc = Inl Bad_Format"
    by (simp add: report_create_failure_def lfd_log_apr_err_def lfd_log_err_impl_def vprintf_def
        report_place [OF assms])
  moreover have "vprintf p (Some ''apr_socket_connect failed'') [] = Inr ''apr_socket_connect failed''"
    by (simp add: vprintf_def printf_plain [OF assms])
  ultimately show ?thesis
    by (simp add: report_mount_failure_def level_pointer_def report_connect_failure_def lfd_log_linux_err_def lfd_log_apr_err_def
        report [OF assms] vprintf_def)
qed

end
