(* ===== verification/ProtocolWitnesses.thy ===== *)
theory ProtocolWitnesses
  imports SessionWitnesses RoundTrip Polite Logging
begin

text \<open>
  The theorems about whole conversations at concrete inputs.
\<close>

section \<open>A client, a file and two connections\<close>

text \<open>
  The world of the round trip: the lines the client will send, what it will upload, the content of the
  file, what is unread of it, and what the client has received.
\<close>

type_synonym scene = "string list \<times> string \<times> string \<times> string \<times> string"

definition scene_os :: "scene server" where
  "scene_os = quiet_os\<lparr>
     lkl_sys_open := \<lambda>p fl m (t, i, c, r, s).
       (3, if fl = O_RDONLY OR O_LARGEFILE then (t, i, c, c, s) else (t, i, [], r, s)),
     lkl_sys_read := \<lambda>fd n (t, i, c, r, s). (int (min n (length r)), take n r, (t, i, c, drop n r, s)),
     lkl_sys_write := \<lambda>fd b (t, i, c, r, s). (int (length b), (t, i, c @ b, r, s)),
     lkl_sys_newstat := \<lambda>p w. (0, sample_stat 0x81A4 6, w),
     apr_socket_send := \<lambda>sk b (t, i, c, r, s). (0, length b, (t, i, c, r, if sk = 4 then s else s @ b)),
     apr_socket_recv := \<lambda>sk n (t, i, c, r, s).
       if sk = 4 then (case t of [] \<Rightarrow> (APR_EOF, [], (t, i, c, r, s)) | l # ls \<Rightarrow> (0, take n l, (ls, i, c, r, s)))
       else if i = [] then (APR_EOF, [], (t, i, c, r, s))
       else (0, take n i, (t, drop n i, c, r, s))\<rparr>"

definition scene_script :: "string list" where
  "scene_script = [''PASV'' @ CRLF, ''STOR '' @ ''f'' @ CRLF, ''PASV'' @ CRLF, ''RETR '' @ ''f'' @ CRLF, ''QUIT'' @ CRLF]"

abbreviation (input) "s_todo \<equiv> \<lambda>(t, i, c, r, s). t :: string list"
abbreviation (input) "s_incoming \<equiv> \<lambda>(t, i, c, r, s). i :: string"
abbreviation (input) "s_content \<equiv> \<lambda>(t, i, c, r, s). c :: string"
abbreviation (input) "s_rest \<equiv> \<lambda>(t, i, c, r, s). r :: string"
abbreviation (input) "s_sent \<equiv> \<lambda>(t, i, c, r, s). s :: string"

lemma scene_docs [simp]:
  "env_doc scene_os" "strtok_doc (apr_strtok scene_os)" "strtoff_doc (apr_strtoff scene_os)"
  "printf_doc (apr_pvsprintf scene_os)"
  by (simp_all add: scene_os_def quiet_os_def env_doc_def accept_doc_def c_printf_doc c_strtok_doc c_strtoff_doc)

lemma scene_smooth [simp]: "smooth_network scene_os" "smooth_reads scene_os path"
  by (auto simp: smooth_network_def smooth_reads_def scene_os_def quiet_os_def split: list.splits)

lemma scene_client [simp]: "client_lines scene_os 4 s_todo"
  by (auto simp: client_lines_def scene_os_def quiet_os_def split: list.splits)

lemma scene_commands [simp]: "commands_keep scene_os 4 (\<lambda>w. (s_content w, s_incoming w, s_sent w))"
  by (auto simp: commands_keep_def scene_os_def quiet_os_def split: list.splits)

lemma scene_disk [simp]:
  "disk_file_works scene_os p s_content s_rest (\<lambda>w. (s_incoming w, s_sent w, s_todo w))"
proof -
  have "kernel_writes scene_os fd s_content (\<lambda>_. 0)" "kernel_reads scene_os fd s_rest (\<lambda>_. 0)" for fd
    by (auto simp: kernel_writes_def kernel_reads_def mutex_keeps_def scene_os_def quiet_os_def EINTR_def min_def split: if_splits)
  then have k: "\<exists>\<mu>. kernel_writes scene_os fd s_content \<mu>" "\<exists>\<mu>. kernel_reads scene_os fd s_rest \<mu>" for fd
    by blast+
  have "O_WRONLY OR O_CREAT OR O_APPEND OR O_TRUNC OR O_LARGEFILE \<noteq> O_RDONLY OR O_LARGEFILE"
    by (simp add: linux_open_defs)
  then show ?thesis
    using k by (auto simp: disk_file_works_def scene_os_def)
qed

lemma scene_data [simp]: "data_works scene_os 4 s_todo s_incoming s_content s_rest s_sent"
  by (auto simp: data_works_def socket_recvs_def socket_sends_def recvs_keep_def writes_keep_def reads_keep_def
      sends_keep_def upload_keeps_def download_keeps_def control_keeps_def scene_os_def quiet_os_def APR_EOF_def
      split: list.splits if_splits)

lemma scene_passive [simp]: "passive_works scene_os (\<lambda>w. (s_todo w, s_content w, s_incoming w, s_sent w))"
proof -
  have "join (CHR ''.'') (map dec_nat [127, 0, 0, 1]) = ''127.0.0.1''" by (simp add: dec_nat.simps)
  then have "apr_sockaddr_ip_get scene_os a = (0, join (CHR ''.'') (map dec_nat [127, 0, 0, 1]))" for a
    by (simp add: scene_os_def quiet_os_def)
  then have "\<exists>x y z u. x \<le> 255 \<and> y \<le> 255 \<and> z \<le> 255 \<and> u \<le> 255
      \<and> apr_sockaddr_ip_get scene_os a = (0, join (CHR ''.'') (map dec_nat [x, y, z, u]))" for a
    by (intro exI [of _ 127] exI [of _ 0] exI [of _ 1]) auto
  then show ?thesis
    by (auto simp: passive_works_def scene_os_def quiet_os_def lfd_config_default_def max_pasv_port_def)
qed

theorem uploaded_file_comes_back_witness:
  "\<exists>st'. ftp_protocol_loop scene_os (sample_st (scene_script, ''a file'', [], [], [])) = Inr (0, st')
    \<and> s_sent (world st') = ''a file'' \<and> map reply_code (replies st') = [227, 150, 226, 227, 150, 226, 221]"
proof -
  let ?st = "sample_st (scene_script, ''a file'', [], [], [])"
  have "plain_arg ''f''" by (simp add: plain_arg_def CR_def LF_def NUL_def)
  moreover have "get_abs_path (Some ''f'') ?st = Some ''/f''" by (simp add: get_abs_path_def)
  moreover have "natcasecmp_doc (apr_strnatcasecmp scene_os)"
    using natcasecmp_sample by (simp add: scene_os_def quiet_os_def)
  ultimately show ?thesis
    using uploaded_file_comes_back [of ?st scene_os s_todo "''f''" "''/f''" s_content s_incoming s_sent s_rest]
    by (simp add: scene_script_def)
qed


section \<open>The language of the replies\<close>

theorem answered_by_grammar_witness:
  "\<exists>st'. protocol_step script_os (False, None, sample_st [''QUIT'' @ CRLF]) = Inr (Done (0, st'))
    \<and> map reply_code (replies st') = [221]"
proof -
  let ?st = "sample_st [''QUIT'' @ CRLF]"
  have "short_word ''QUIT''" by (simp add: short_word_def)
  with receives_word [of script_os ?st "\<lambda>w. w" "''QUIT''" "[]"] obtain st1 where
    r: "receives script_os ?st (''QUIT'' @ CRLF) None st1" by auto
  obtain st' where st': "protocol_step script_os (False, None, ?st) = Inr (Done (0, st'))"
    using quit_iteration [of script_os ?st "\<lambda>w. w" "[]" None] by auto
  have "speaks (only {221}) ?st st'"
    using answered_by_grammar [OF _ _ _ _ r _ _ _ st', of "''QUIT''"]
    by (simp add: farewell_def reply_table_def)
  with st' show ?thesis by (auto simp: speaks_def codes_def only_def)
qed

theorem session_speaks_ftp_witness:
  "\<exists>st css. reachable script_os (sample_st rename_script) (True, Some ''/a'', st)
    \<and> map reply_code (replies st) = concat css \<and> (\<forall>cs \<in> set css. cs = [] \<or> completes cs)"
proof -
  obtain st where st: "reachable script_os (sample_st rename_script) (True, Some ''/a'', st)"
    using rnfr_reached by blast
  with session_speaks_ftp [of script_os "sample_st rename_script", OF _ _ _ st] show ?thesis
    by (auto simp: codes_def)
qed

section \<open>Several clients\<close>

text \<open>An environment that differs from the quiet one in what its clients send.\<close>

abbreviation (input) "talk_os f \<equiv> quiet_os\<lparr>apr_socket_recv := f\<rparr>"

lemma talk_docs:
  "env_doc (talk_os f)" "strtok_doc (apr_strtok (talk_os f))" "printf_doc (apr_pvsprintf (talk_os f))"
  "natcasecmp_doc (apr_strnatcasecmp (talk_os f))"
  using natcasecmp_sample
  by (simp_all add: quiet_os_def env_doc_def accept_doc_def c_strtok_doc c_printf_doc)

lemma talk_connects:
  fixes f :: "sock \<Rightarrow> nat \<Rightarrow> 'w \<Rightarrow> int \<times> string \<times> 'w"
  assumes "T i = None"
  shows "\<exists>st. server_step (talk_os f) (Running w T) (Running w (T(i \<mapsto> (False, None, st))))
    \<and> cwd_path st = ''/'' \<and> pasv_listen_fd st = None \<and> p_port_sockaddr st = None \<and> comm_sock st = 4"
proof -
  let ?b = "''Welcome to LklFtp Server.'' @ [CR]"
  have "lfd_sess_create (talk_os f) 4 w = (0, Some (sample_st w), w)"
    by (simp add: lfd_sess_create_def quiet_os_def sample_st_def)
  moreover have "CHR ''%'' \<notin> set ?b" by (simp add: CR_def)
  with write_plain [OF talk_docs(3), of 220 ?b f "[]" "sample_st w"]
  have "lfd_cmdio_write (talk_os f) 220 ?b [] (sample_st w)
      = Inr (0, (sample_st w)\<lparr>world := w, replies := [Reply 220 ?b []]\<rparr>)" by simp
  then have "emit_greeting (talk_os f) (sample_st w)
      = Inr (0, (sample_st w)\<lparr>world := w, replies := [Reply 220 ?b []]\<rparr>)"
    by (simp add: emit_greeting_def FTP_GREET_def lfd_config_default_def)
  ultimately show ?thesis
    using server_step.connect [of T i "talk_os f" 4 w 0 "sample_st w" w
        "(sample_st w)\<lparr>world := w, replies := [Reply 220 ?b []]\<rparr>"] assms
    by (intro exI [of _ "(sample_st w)\<lparr>world := w, replies := [Reply 220 ?b []]\<rparr>"]) simp
qed

lemma talk_list_fatal:
  fixes f :: "sock \<Rightarrow> nat \<Rightarrow> 'w \<Rightarrow> int \<times> string \<times> 'w"
  assumes "client_lines (talk_os f) 4 todo" and "todo w = [''LIST'' @ CRLF]"
    and "cwd_path st = ''/''" and "pasv_listen_fd st = None" and "p_port_sockaddr st = None" and "comm_sock st = 4"
  shows "protocol_step (talk_os f) (False, None, st\<lparr>world := w\<rparr>) = Inl no_connection"
proof -
  let ?st = "st\<lparr>world := w\<rparr>"
  have word: "short_word ''LIST''" by (simp add: short_word_def upper_word_def)
  obtain st1 where r: "receives (talk_os f) ?st (''LIST'' @ CRLF) None st1"
    and st1: "st1 = ?st\<lparr>world := world st1, cmd_input_buffer := cmd_input_buffer st1,
        ftp_cmd_str := Some (''LIST'' @ CRLF), ftp_arg_str := None\<rparr>"
    using receives_word [of "talk_os f" ?st todo "''LIST''" "[]", OF _ talk_docs(2) _ word] assms by auto
  have f: "cwd_path st1 = ''/''" "pasv_listen_fd st1 = None" "p_port_sockaddr st1 = None"
    "ftp_arg_str st1 = None" "ftp_cmd_str st1 = Some (''LIST'' @ CRLF)"
    by (subst st1, simp add: assms)+
  have eq: "lfd_cmdio_cmd_equals (talk_os f) st1 x \<longleftrightarrow> ''LIST'' = x" if "upper_word x" for x
    by (rule cmd_equals_word [OF talk_docs(4) _ _ that]) (simp_all add: f upper_word_def)
  have "list_dir (talk_os f) (Some ''/'') LIST_FLAG_L v = Inr (0, [], v)" for v
    by (simp add: list_dir_def lkl_dir_open_def lkl_dir_close_def dir_cleanup_def run_loop_Done list_step_def
        lkl_dir_read_def lkl_readdir_def quiet_os_def APR_ENOENT_def APR_INCOMPLETE_def Let_def)
  then have "handle_list (talk_os f) st1 = Inl no_connection"
    by (intro list_no_connection [OF f(3,2)]) (simp_all add: list_path_def f)
  then show ?thesis
    unfolding step_receives [OF r] by (simp add: eq upper_words dispatch_def)
qed

lemmas script_connects = talk_connects [where f = "\<lambda>s n w. case w of [] \<Rightarrow> (APR_EOF, [], w) | l # ls \<Rightarrow> (0, l, ls)",
    folded script_os_def]

lemma script_threads:
  "\<exists>T st st'. server_runs script_os (Running w T) \<and> T 0 = Some (False, None, st) \<and> T 1 = Some (False, None, st')
    \<and> cwd_path st' = ''/'' \<and> pasv_listen_fd st' = None \<and> p_port_sockaddr st' = None \<and> comm_sock st' = 4"
proof -
  obtain st where s: "server_step script_os (Running w Map.empty) (Running w [0 \<mapsto> (False, None, st)])"
    using script_connects [of Map.empty 0 w] by auto
  obtain st' where s': "server_step script_os (Running w [0 \<mapsto> (False, None, st)])
      (Running w [0 \<mapsto> (False, None, st), 1 \<mapsto> (False, None, st')])"
    "cwd_path st' = ''/''" "pasv_listen_fd st' = None" "p_port_sockaddr st' = None" "comm_sock st' = 4"
    using script_connects [of "[0 \<mapsto> (False, None, st)]" 1 w] by auto
  have "server_runs script_os (Running w [0 \<mapsto> (False, None, st), 1 \<mapsto> (False, None, st')])"
    unfolding server_runs_def using s s'(1) by (blast intro: rtranclp.intros)
  with s' show ?thesis by fastforce
qed

theorem sessions_stay_sound_witness:
  "\<exists>T st. server_runs script_os (Running [] T) \<and> T 1 = Some (False, None, st) \<and> wf_sess st"
proof -
  obtain T st where "server_runs script_os (Running [] T)" "T 1 = Some (False, None, st)"
    using script_threads [of "[]"] by blast
  with sessions_stay_sound [OF script_docs(5,2) this] show ?thesis by blast
qed

lemmas script_list_fatal = talk_list_fatal [where f = "\<lambda>s n w. case w of [] \<Rightarrow> (APR_EOF, [], w) | l # ls \<Rightarrow> (0, l, ls)",
    folded script_os_def]

theorem only_list_stops_the_server_witness:
  "server_runs script_os (Crashed no_connection) \<and> no_connection \<notin> {Null_Deref, Out_Of_Bounds, Bad_Format}"
proof -
  obtain T st where T: "server_runs script_os (Running [] T)" "T 1 = Some (False, None, st)"
    and st: "cwd_path st = ''/''" "pasv_listen_fd st = None" "p_port_sockaddr st = None" "comm_sock st = 4"
    using script_threads [of "[]"] by blast
  have "server_step script_os (Running [] T) (Running [''LIST'' @ CRLF] T)" by (rule server_step.outside)
  moreover have "server_step script_os (Running [''LIST'' @ CRLF] T) (Crashed no_connection)"
    by (rule server_step.crash [where T = T and i = 1 and s = "(False, None, st)"])
      (use T(2) script_list_fatal [of "\<lambda>w. w", OF _ _ st] in \<open>simp_all add: resume_def no_connection_def\<close>)
  ultimately have "server_runs script_os (Crashed no_connection)"
    using T(1) unfolding server_runs_def by (blast intro: rtranclp.rtrancl_into_rtrancl)
  with only_list_stops_the_server [OF script_docs(5,2) this] show ?thesis
    by (simp add: no_connection_def)
qed

section \<open>Polite clients\<close>

text \<open>Clients that send LIST, as often as the world says.\<close>

definition list_os :: "nat server" where
  "list_os = quiet_os\<lparr>apr_socket_recv := \<lambda>sk k n.
     if n = 0 then (APR_EOF, [], 0) else (0, take k (''LIST'' @ CRLF), n - 1)\<rparr>"

lemma list_polite: "decent list_os" "roomy list_os" "polite_clients list_os"
proof -
  have "dotted_quad ''127.0.0.1''"
    unfolding dotted_quad_def
    by (intro exI [of _ 127] exI [of _ 0] exI [of _ 1] conjI) (simp_all add: dec_nat.simps)
  then show "decent list_os"
    by (auto simp: decent_def list_os_def quiet_os_def env_doc_def accept_doc_def resolver_doc_def
        c_printf_doc c_strtok_doc c_strtoff_doc lfd_config_default_def max_pasv_port_def CR_def)
  show "roomy list_os" by (auto simp: roomy_def list_os_def quiet_os_def)
  let ?l = "''LIST'' @ CRLF"
  have calls: "apr_strnatcasecmp list_os = c_natcasecmp" "apr_strtok list_os = c_strtok"
    by (simp_all add: list_os_def quiet_os_def)
  have "c_natcasecmp ?l b = 0 \<longleftrightarrow> ''LIST'' = b" if "upper_word b" for b
    using natcasecmp_sample that upper_words unfolding natcasecmp_doc_def by blast
  from this [of "''PORT''"] this [of "''SITE''"] have words: "c_natcasecmp ?l ''PORT'' \<noteq> 0" "c_natcasecmp ?l ''SITE'' \<noteq> 0"
    using upper_words by auto
  have pad: "?l @ replicate 94 NUL = ?l @ NUL # replicate 93 NUL" "replicate 100 NUL = [] @ NUL # replicate 99 NUL"
    by (simp_all add: numeral_eq_Suc)
  have "NUL \<notin> set ?l" by (simp add: CR_def LF_def NUL_def)
  from c_string_append [OF this] have line: "c_string (?l @ replicate 94 NUL) = Inr ?l" unfolding pad by blast
  have none: "c_string (replicate 100 NUL) = Inr []" unfolding pad by (rule c_string_append) simp
  have tok: "c_strtok '' '' ?l = Some ([], ?l, [])" "c_strtok CRLF [] = None" "c_strtok '' '' [] = None"
    by (simp_all add: c_strtok_def CR_def LF_def)
  have "polite_line list_os []"
    by (simp add: polite_line_def parse_command_def none tok cmd_input_buffer_len_def calls)
  moreover have "polite_line list_os ?l"
  proof -
    have "100 - length ?l = 94" "length ?l < 100" "CHR ''%'' \<notin> set ?l" by (simp_all add: CR_def LF_def)
    then show ?thesis
      unfolding polite_line_def cmd_input_buffer_len_def
      using words by (simp only: parse_command_def line tok calls FTP_ENDCOMMAND_SEQUENCE_def bnd_Inr option.case prod.case) auto
  qed
  ultimately show "polite_clients list_os"
    by (auto simp: polite_clients_def list_os_def cmd_input_buffer_len_def)
qed

lemma list_lines: "client_lines list_os 4 (\<lambda>n. replicate n (''LIST'' @ CRLF))"
  by (auto simp: client_lines_def list_os_def gr0_conv_Suc simp: quiet_os_def)

lemmas list_connects = talk_connects [where f = "\<lambda>sk k (n :: nat). if n = 0 then (APR_EOF, [], 0) else (0, take k (''LIST'' @ CRLF), n - 1)",
    folded list_os_def]
lemmas list_fatal = talk_list_fatal [where f = "\<lambda>sk k (n :: nat). if n = 0 then (APR_EOF, [], 0) else (0, take k (''LIST'' @ CRLF), n - 1)",
    folded list_os_def]

theorem polite_clients_are_safe_witness:
  "\<exists>e. server_runs list_os (Crashed e) \<and> e = no_connection \<and> e \<noteq> Null_Deref"
proof -
  obtain st where st: "server_step list_os (Running 1 Map.empty) (Running 1 [0 \<mapsto> (False, None, st)])"
    "cwd_path st = ''/''" "pasv_listen_fd st = None" "p_port_sockaddr st = None" "comm_sock st = 4"
    using list_connects [of Map.empty 0 1] by blast
  have "protocol_step list_os (False, None, st\<lparr>world := 1\<rparr>) = Inl no_connection"
    by (rule list_fatal [OF list_lines _ st(2-5)]) simp
  then have "server_step list_os (Running 1 [0 \<mapsto> (False, None, st)]) (Crashed no_connection)"
    by (intro server_step.crash [where i = 0 and s = "(False, None, st)"]) (simp_all add: resume_def no_connection_def)
  with st(1) have run: "server_runs list_os (Crashed no_connection)"
    unfolding server_runs_def by (blast intro: rtranclp.intros)
  from polite_clients_are_safe [OF list_polite run] run show ?thesis by (auto simp: no_connection_def)
qed

section \<open>The log\<close>

definition sample_messages :: messages where
  "sample_messages = \<lparr>apr_strerror = \<lambda>n. ''an APR error'', strerror_r = \<lambda>n. ''a Linux error''\<rparr>"

theorem report_says_where_what_why_witness:
  "lfd_log_linux_err c_printf sample_messages ''main.c'' 1 ''main'' (- 2) (Some ''failed'') []
    = Inr (report_text ''LINUX'' ''main.c'' 1 ''main'' ''failed'' (- 2) ''a Linux error'')"
  using report_says_where_what_why [OF c_printf_doc, of "''failed''" "[]" "''failed''" sample_messages "''main.c''" 1
      "''main''" 0 2]
  by (simp add: sample_messages_def)

theorem reports_that_go_wrong_witness:
  "report_create_failure c_printf sample_messages 1 = Inl Bad_Format"
  using reports_that_go_wrong [OF c_printf_doc, of sample_messages 5 1] by simp

section \<open>More transfers\<close>

theorem appe_226_means_appended_witness:
  "\<exists>rc st'. handle_appe delivery_os ((passive_st ''a file'')\<lparr>world := (''a file'', ''old, '')\<rparr>) = Inr (rc, st')
    \<and> reply_code (last (replies st')) = 226 \<and> snd (world st') = ''old, a file''"
proof -
  let ?st = "(passive_st ''a file'')\<lparr>world := (''a file'', ''old, '')\<rparr>"
  have "wf_sess ?st" "get_abs_path (Some ''f'') ?st = Some ''/f''"
    by (simp_all add: passive_st_def sess_defs wf_arg_def fresh_data_sess_def get_abs_path_def NUL_def)
  from appe_226_means_appended [OF this(1) _ _ this(2), of delivery_os 3 "(''a file'', ''old, '')"
      snd "''old, ''" fst "\<lambda>_. 0"] show ?thesis by auto
qed

text \<open>A directory with a file named \<open>f\<close>, in a kernel that sends and stores streams.\<close>

definition stou_os :: "(string \<times> string) server" where
  "stou_os = delivery_os\<lparr>
     lkl_sys_newstat := \<lambda>p w. (if p = Some ''/f'' then 0 else - 2, sample_stat 0x81A4 6, w),
     lkl_sys_open := \<lambda>p fl m (a, b). (3, (a, []))\<rparr>"

lemma stou_calls [simp]:
  "lkl_sys_open stou_os p fl m w = (3, (fst w, []))" "apr_pvsprintf stou_os = c_printf"
  "names_known stou_os {''/f''}"
  by (cases w; simp add: stou_os_def delivery_os_def stream_os_def quiet_os_def names_known_def)+

lemma stou_docs [simp]:
  "resolver_doc stou_os" "env_doc stou_os" "kernel_writes stou_os 3 snd (\<lambda>_. 0)" "socket_recvs stou_os sk fst"
  "recvs_keep stou_os snd" "writes_keep stou_os fst" "smooth_network stou_os"
  using delivery_docs(1,5,7,9,12,13) delivery_smooth(1)
  by (simp_all add: stou_os_def resolver_doc_def env_doc_def accept_doc_def kernel_writes_def
      socket_recvs_def recvs_keep_def writes_keep_def smooth_network_def)

lemma stou_control [simp]: "control_keeps stou_os 4 (\<lambda>w. (snd w, fst w))"
  using delivery_docs(3) by (simp add: stou_os_def control_keeps_def)

theorem stou_226_means_stored_witness:
  "\<exists>rc st'. handle_stou stou_os (passive_st ''a file'') = Inr (rc, st') \<and> reply_code (last (replies st')) = 226
    \<and> snd (world st') = ''a file''"
proof -
  have "first_free {''/f''} ''/f'' (numbered ''/f'' 1)"
    by (auto simp: first_free_def numbered_def intro!: exI [of _ 1])
  then show ?thesis
    using stou_226_means_stored [of "passive_st ''a file''" "''f''" "''/f''" stou_os "{''/f''}" "numbered ''/f'' 1"
        3 snd fst "\<lambda>_. 0"]
    by (auto simp: c_printf_doc)
qed

text \<open>A directory of as many entries as the first part of the world says, and what the client has received.\<close>

definition listed_os :: "(nat \<times> string) server" where
  "listed_os = quiet_os\<lparr>
     lkl_sys_getdents := \<lambda>fd n (k, s). (24 * int k, replicate k sample_entry, (0, s)),
     apr_socket_send := \<lambda>sk b (k, s). (0, length b, (k, if sk = 4 then s else s @ b))\<rparr>"

definition listed_st :: "(nat \<times> string) st" where
  "listed_st = (sample_st (2, []))\<lparr>pasv_listen_fd := Some 9\<rparr>"

lemma listed_docs [simp]:
  "printf_doc (apr_pvsprintf listed_os)" "env_doc listed_os"
  "kernel_lists listed_os fd (\<lambda>w. replicate (fst w) sample_entry)"
  "listable listed_os path (\<lambda>_. sample_stat 0x81A4 5) 0 (\<lambda>w. replicate (fst w) sample_entry)"
  "control_keeps listed_os 4 snd" "list_keeps listed_os snd" "sk \<noteq> 4 \<Longrightarrow> socket_sends listed_os sk snd"
  "smooth_network listed_os" "resolver_doc listed_os"
  by (auto simp: listed_os_def env_doc_def accept_doc_def quiet_os_def c_printf_doc kernel_lists_def
      listable_def sample_entry_def sum_list_replicate control_keeps_def list_keeps_def socket_sends_def
      smooth_network_def resolver_doc_def)

lemma listed_st_fields [simp]:
  "wf_sess listed_st" "pasv_listen_fd listed_st = Some 9" "comm_sock listed_st = 4" "world listed_st = (2, [])"
  "list_path listed_st = (Some ''/'', LIST_FLAG_L)"
  by (simp_all add: listed_st_def sess_defs wf_arg_def fresh_data_sess_def list_path_def)

theorem list_226_means_listed_witness:
  "\<exists>rc st'. handle_list listed_os listed_st = Inr (rc, st') \<and> reply_code (last (replies st')) = 226
    \<and> snd (world st') = listing listed_os 0 (\<lambda>_. sample_stat 0x81A4 5) LIST_FLAG_L [sample_entry, sample_entry]"
proof -
  have "lkl_sys_open listed_os p fl m w = (3, w)" "apr_pool_cleanup_register listed_os fd w = w" for p fl m w fd
    by (simp_all add: listed_os_def quiet_os_def)
  then show ?thesis
    using list_226_means_listed [of listed_st "''/''" LIST_FLAG_L listed_os "\<lambda>_. sample_stat 0x81A4 5" 0
        "\<lambda>w. replicate (fst w) sample_entry" 3 "(2, [])" "[sample_entry, sample_entry]" snd]
    by (auto simp: numeral_2_eq_2)
qed

end
