(* ===== verification/Process.thy ===== *)
theory Process
  imports Polite MainProg
begin

text \<open>
  The whole process: the thread that runs \<open>main\<close>, the threads that its accept loop starts, and the signals
  that may arrive at any time.
\<close>

section \<open>The thread of main\<close>

text \<open>
  Where \<open>main\<close> is after it has started up: about to open the listening socket, in the first or the second
  half of an iteration of the accept loop, or at one of the three calls that end the process.
\<close>

datatype main_at =
    Listening
  | Polling sock bool
  | Accepting sock
  | Unmounting
  | Halting
  | Closing

text \<open>
  One step of \<open>main\<close>: where it is next, or the status that it returns, and the socket for which it has started
  a thread, if it has.
\<close>

fun main_turn ::
    "('w, 'z) host_scheme \<Rightarrow> host_file \<Rightarrow> main_at \<Rightarrow> 'w \<Rightarrow> ((main_at + int) \<times> sock option option \<times> 'w) res" where
  "main_turn os disk_file Listening w =
     (case open_listener os w of
        (None, w) \<Rightarrow> Inr (Inl Unmounting, None, w)
      | (Some sk, w) \<Rightarrow> Inr (Inl (Polling sk False), None, w))"
| "main_turn os disk_file (Polling sk thd_pool) w =
     (case await_client os sk (thd_pool, w) of
        Shut w \<Rightarrow> Inr (Inl Unmounting, None, w)
      | Idle thd_pool w \<Rightarrow> Inr (Inl (Polling sk thd_pool), None, w)
      | Ready w \<Rightarrow> Inr (Inl (Accepting sk), None, w))"
| "main_turn os disk_file (Accepting sk) w =
     bnd (accept_client os sk w) (\<lambda>(started, thd_pool, w).
       Inr (Inl (Polling sk thd_pool), started, w))"
| "main_turn os disk_file Unmounting w =
     Inr (Inl Halting, None, snd (lkl_sys_umount os ''/'' 0 w))"
| "main_turn os disk_file Halting w = Inr (Inl Closing, None, lkl_sys_halt os w)"
| "main_turn os disk_file Closing w = Inr (Inr 0, None, snd (apr_file_close os disk_file w))"

definition main_thread :: "('w, 'z) host_scheme \<Rightarrow> host_file \<Rightarrow> main_at \<times> 'w \<Rightarrow> (int \<times> 'w) res" where
  "main_thread os disk_file =
     run_loop (\<lambda>(m, w). bnd (main_turn os disk_file m w) (\<lambda>(next, started, w).
       Inr (case next of Inl m \<Rightarrow> Again (m, w) | Inr status \<Rightarrow> Done (status, w))))"

section \<open>A thread of a session\<close>

text \<open>
  A thread that has been started has only the socket of its client; after the greeting it has the variables
  of its command loop.
\<close>

datatype 'w thread = Started "sock option" | In_Loop "'w loop_vars"

text \<open>
  One step of a thread: it creates its session and greets, or runs one iteration of its loop. What is
  left of it is \<open>None\<close> when it has ended.
\<close>

fun thread_turn :: "('w, 'z) server_scheme \<Rightarrow> 'w thread \<Rightarrow> 'w \<Rightarrow> ('w thread option \<times> 'w) res" where
  "thread_turn os (Started None) w = Inl Null_Deref"
| "thread_turn os (Started (Some sk)) w =
     (case lfd_sess_create os sk w of
        (rc, None, w) \<Rightarrow> let w = snd (apr_socket_close os sk w) in Inl Bad_Format
      | (rc, Some st, w) \<Rightarrow>
          bnd (emit_greeting os st) (\<lambda>(rc, st).
            Inr (if rc = APR_SUCCESS then (Some (In_Loop (False, None, st)), world st)
                 else (None, lfd_sess_destroy os st))))"
| "thread_turn os (In_Loop s) w =
     bnd (protocol_step os (resume w s)) (\<lambda>c.
       Inr (case c of
              Again s \<Rightarrow> (Some (In_Loop s), world_of s)
            | Done (rc, st) \<Rightarrow> (None, lfd_sess_destroy os st)))"

text \<open>A thread that nothing disturbs takes its steps one after another.\<close>

definition thread_alone :: "('w, 'z) server_scheme \<Rightarrow> 'w thread \<times> 'w \<Rightarrow> 'w res" where
  "thread_alone os = run_loop (\<lambda>(t, w). bnd (thread_turn os t w) (\<lambda>(next, w).
     Inr (case next of Some t \<Rightarrow> Again (t, w) | None \<Rightarrow> Done w)))"

section \<open>The process\<close>

text \<open>
  The process lives with its threads, has ended with the status that \<open>main\<close> returns, or has ended by a fault of
  one of them. The stops of the program itself, \<open>bug\<close> and \<open>exit\<close>, are such faults that give a status, 1 for
  \<open>bug\<close>; what the others do to the process is undefined. A signal runs \<open>sig_func\<close> between any two steps; whatever else changes the world does so as well.
\<close>

datatype 'w program =
    Live main_at 'w "nat \<rightharpoonup> 'w thread"
  | Exited int 'w
  | Killed fault

fun exit_status :: "fault \<Rightarrow> int option" where
  "exit_status (Bug msg) = Some 1"
| "exit_status (Process_Exit status) = Some status"
| "exit_status e = None"

inductive program_step :: "('w, 'z) host_scheme \<Rightarrow> host_file \<Rightarrow> 'w program \<Rightarrow> 'w program \<Rightarrow> bool"
  for os disk_file where
  main_goes: "main_turn os disk_file m w = Inr (Inl m', None, w') \<Longrightarrow>
    program_step os disk_file (Live m w T) (Live m' w' T)"
| main_starts: "main_turn os disk_file m w = Inr (Inl m', Some sk, w') \<Longrightarrow> T i = None \<Longrightarrow>
    program_step os disk_file (Live m w T) (Live m' w' (T(i \<mapsto> Started sk)))"
| main_returns: "main_turn os disk_file m w = Inr (Inr status, started, w') \<Longrightarrow>
    program_step os disk_file (Live m w T) (Exited status w')"
| main_fails: "main_turn os disk_file m w = Inl e \<Longrightarrow>
    program_step os disk_file (Live m w T) (Killed e)"
| thread: "T i = Some t \<Longrightarrow> thread_turn os t w = Inr (t', w') \<Longrightarrow>
    program_step os disk_file (Live m w T) (Live m w' (T(i := t')))"
| thread_fails: "T i = Some t \<Longrightarrow> thread_turn os t w = Inl e \<Longrightarrow> e \<noteq> Diverge \<Longrightarrow> e \<noteq> Thread_Exit \<Longrightarrow>
    program_step os disk_file (Live m w T) (Killed e)"
| signal: "program_step os disk_file (Live m w T) (Live m (sig_func os sigid w) T)"
| outside: "program_step os disk_file (Live m w T) (Live m w' T)"

inductive_cases program_stepE: "program_step os disk_file (Live m w T) p"
inductive_simps over_stuck [simp]:
  "program_step os disk_file (Exited c w) p" "program_step os disk_file (Killed e) p"

text \<open>The runs of the process from the call of \<open>main\<close>; \<open>opts\<close> is what its command line says.\<close>

inductive program_runs ::
    "('w, 'z) host_scheme \<Rightarrow> string list \<Rightarrow> options \<Rightarrow> host_file \<Rightarrow> 'w program \<Rightarrow> bool"
  for os argv opts disk_file where
  started: "start_up os argv w = Inr (Inr (opts, disk_file), w') \<Longrightarrow>
    program_runs os argv opts disk_file (Live Listening w' Map.empty)"
| goes_on: "program_runs os argv opts disk_file p \<Longrightarrow>
    program_step (os\<lparr>config := settings opts\<rparr>) disk_file p q \<Longrightarrow>
    program_runs os argv opts disk_file q"

section \<open>The functions, step by step\<close>

text \<open>Two loops of which one goes through the images of the states of the other.\<close>

lemma run_loop_along:
  assumes step: "\<And>s. body' (f s) = bnd (body s) (\<lambda>c. Inr (case c of Again s' \<Rightarrow> Again (f s') | Done a \<Rightarrow> Done (g a)))"
  shows "run_loop body' (f s) = bnd (run_loop body s) (\<lambda>a. Inr (g a))"
proof -
  let ?r = "run_loop body s" and ?r' = "run_loop body' (f s)"
  have "wp (\<lambda>e. e = Diverge \<or> ?r' = Inl e) (\<lambda>a. ?r' = Inr (g a)) ?r"
  proof (rule wp_run_loop [where I = "\<lambda>t. run_loop body' (f t) = ?r'"], goal_cases)
    case (3 t)
    then have "bnd (body' (f t)) (\<lambda>c. case c of Again s' \<Rightarrow> run_loop body' s' | Done a \<Rightarrow> Inr a) = ?r'"
      by (simp add: run_loop_unfold [of body' "f t"])
    then show ?case unfolding step by (cases "body t") (auto split: ctl.splits)
  qed simp_all
  moreover have "wp (\<lambda>e. e = Diverge \<or> ?r = Inl e) (\<lambda>a'. \<exists>a. ?r = Inr a) ?r'"
  proof (rule wp_run_loop [where I = "\<lambda>t'. \<exists>t. t' = f t \<and> run_loop body t = ?r"], goal_cases)
    case (3 t')
    then obtain t where t: "t' = f t" and "run_loop body t = ?r" by blast
    then have "bnd (body t) (\<lambda>c. case c of Again s' \<Rightarrow> run_loop body s' | Done a \<Rightarrow> Inr a) = ?r"
      by (simp add: run_loop_unfold [of body t])
    then show ?case unfolding t step by (cases "body t") (auto split: ctl.splits dest: sym)
  qed auto
  ultimately show ?thesis by (cases ?r; cases ?r') auto
qed

definition shut_down :: "('w, 'z) host_scheme \<Rightarrow> host_file \<Rightarrow> 'w \<Rightarrow> 'w" where
  "shut_down os disk_file w =
     snd (apr_file_close os disk_file (lkl_sys_halt os (snd (lkl_sys_umount os ''/'' 0 w))))"

lemma main_thread_turn:
  "main_thread os disk_file (m, w) = bnd (main_turn os disk_file m w) (\<lambda>(next, started, w).
     case next of Inl m \<Rightarrow> main_thread os disk_file (m, w) | Inr status \<Rightarrow> Inr (status, w))"
  unfolding main_thread_def by (subst run_loop_unfold) (auto simp: bnd_def split: sum.splits option.splits)

lemma main_thread_ends:
  "main_thread os disk_file (Unmounting, w) = Inr (0, shut_down os disk_file w)"
  by (simp add: main_thread_turn shut_down_def)

lemma main_thread_polls:
  "main_thread os disk_file (Polling sk thd_pool, w) =
     (case await_client os sk (thd_pool, w) of
        Shut w \<Rightarrow> Inr (0, shut_down os disk_file w)
      | Idle thd_pool w \<Rightarrow> main_thread os disk_file (Polling sk thd_pool, w)
      | Ready w \<Rightarrow> main_thread os disk_file (Accepting sk, w))"
  by (subst main_thread_turn) (simp add: main_thread_ends split: awaited.split)

lemma main_thread_accepts:
  "main_thread os disk_file (Accepting sk, w) =
     bnd (accept_client os sk w) (\<lambda>(started, thd_pool, w). main_thread os disk_file (Polling sk thd_pool, w))"
  by (subst main_thread_turn) (auto simp: bnd_def split: sum.splits)

lemma accept_client_fault: "accept_client os sk w = Inl e \<Longrightarrow> e = Null_Deref"
  by (auto simp: accept_client_def split: prod.splits if_splits option.splits)

text \<open>Where the accept loop runs for ever, so does \<open>main\<close>.\<close>

lemma main_thread_diverges:
  assumes "run_loop (listen_step os sk) (thd_pool, w) = Inl Diverge"
  shows "main_thread os disk_file (Polling sk thd_pool, w) = Inl Diverge"
  unfolding main_thread_def
proof (rule run_loop_diverges [where I = "\<lambda>(m, v).
    (\<exists>b. m = Polling sk b \<and> run_loop (listen_step os sk) (b, v) = Inl Diverge)
  \<or> (m = Accepting sk \<and> bnd (accept_client os sk v) (\<lambda>(_, b, v). run_loop (listen_step os sk) (b, v)) = Inl Diverge)"],
  goal_cases)
  case (2 t)
  obtain m v where t: "t = (m, v)" by (cases t)
  consider b where "m = Polling sk b" "run_loop (listen_step os sk) (b, v) = Inl Diverge"
    | "m = Accepting sk" "bnd (accept_client os sk v) (\<lambda>(_, b, v). run_loop (listen_step os sk) (b, v)) = Inl Diverge"
    using 2 t by auto
  then show ?case
  proof cases
    case 1
    have "bnd (listen_step os sk (b, v)) (\<lambda>c. case c of Again s' \<Rightarrow> run_loop (listen_step os sk) s' | Done a \<Rightarrow> Inr a)
        = Inl Diverge"
      using 1(2) by (subst (asm) run_loop_unfold)
    with 1(1) show ?thesis
      by (auto simp: t listen_step_def bnd_def split: awaited.splits sum.splits prod.splits)
  next
    case 2
    then show ?thesis
      by (cases "accept_client os sk v") (auto simp: t dest: accept_client_fault)
  qed
qed (use assms in simp)

lemma main_thread_listens:
  "main_thread os disk_file (Polling sk thd_pool, w) =
     bnd (run_loop (listen_step os sk) (thd_pool, w)) (\<lambda>w. Inr (0, shut_down os disk_file w))"
proof -
  let ?main = "main_thread os disk_file (Polling sk thd_pool, w)"
  have "wp (\<lambda>e. e = Diverge \<or> ?main = Inl e) (\<lambda>v. ?main = Inr (0, shut_down os disk_file v))
      (run_loop (listen_step os sk) (thd_pool, w))"
  proof (rule wp_run_loop [where I = "\<lambda>(b, v). main_thread os disk_file (Polling sk b, v) = ?main"], goal_cases)
    case (3 t)
    obtain b v where t: "t = (b, v)" by (cases t)
    with 3 have "main_thread os disk_file (Polling sk b, v) = ?main" by simp
    note eq = main_thread_polls [of os disk_file sk b v, unfolded this]
    show ?case
    proof (cases "await_client os sk t")
      case (Ready u)
      note eq' = main_thread_accepts [of os disk_file sk u]
      from Ready eq eq' show ?thesis
        by (cases "accept_client os sk u") (auto simp: t listen_step_def)
    qed (use eq in \<open>auto simp: t listen_step_def\<close>)
  qed simp_all
  then show ?thesis
    using main_thread_diverges [of os sk thd_pool w disk_file]
    by (cases "run_loop (listen_step os sk) (thd_pool, w)") auto
qed

lemma resume_own_world [simp]: "resume (world_of s) s = s"
  by (cases s) (simp add: resume_def world_of_def)

lemma thread_alone_loops:
  "thread_alone os (In_Loop s, world_of s)
     = bnd (run_loop (protocol_step os) s) (\<lambda>(rc, st). Inr (lfd_sess_destroy os st))"
  unfolding thread_alone_def
  by (subst run_loop_along [where f = "\<lambda>s. (In_Loop s, world_of s)" and g = "\<lambda>(rc, st). lfd_sess_destroy os st"
        and body = "protocol_step os"])
    (auto simp: bnd_def split: sum.splits ctl.splits)

lemma worker_by_turns:
  "lfd_worker_protocol_main_impl os sk w = thread_alone os (Started (Some sk), w)"
proof -
  have "thread_alone os (Started (Some sk), w) = bnd (thread_turn os (Started (Some sk)) w) (\<lambda>(next, w).
      case next of Some t \<Rightarrow> thread_alone os (t, w) | None \<Rightarrow> Inr w)"
    unfolding thread_alone_def by (subst run_loop_unfold) (auto simp: bnd_def split: sum.splits option.splits)
  then show ?thesis
    using thread_alone_loops [of os "(False, None, st)" for st]
    by (auto simp: lfd_worker_protocol_main_impl_def ftp_protocol_loop_def world_of_def bnd_def
        split: sum.splits prod.splits option.splits)
qed

text \<open>
  \<open>main\<close> starts up and then takes its steps one after another, and so does a session's thread: what the
  process model splits into steps is what the functions compute, faults and endless loops included. The
  last steps of \<open>main\<close> unmount the file system, halt the kernel and close the disk, in this order.
\<close>
theorem program_by_turns:
  "main os argv w = bnd (start_up os argv w) (\<lambda>(started, w).
     case started of
       Inl status \<Rightarrow> Inr (status, w)
     | Inr (opts, disk_file) \<Rightarrow> main_thread (os\<lparr>config := settings opts\<rparr>) disk_file (Listening, w))
   \<and> lfd_worker_protocol_main_impl os sk v = thread_alone os (Started (Some sk), v)"
proof
  show "main os argv w = bnd (start_up os argv w) (\<lambda>(started, w).
     case started of
       Inl status \<Rightarrow> Inr (status, w)
     | Inr (opts, disk_file) \<Rightarrow> main_thread (os\<lparr>config := settings opts\<rparr>) disk_file (Listening, w))"
    by (auto simp: main_def lfd_listen_def main_thread_turn [where m = Listening] main_thread_ends
        main_thread_listens shut_down_def Let_def bnd_def split: sum.splits prod.splits option.splits)
qed (rule worker_by_turns)

section \<open>The process and its sessions\<close>

definition sessions_of :: "(nat \<rightharpoonup> 'w thread) \<Rightarrow> nat \<rightharpoonup> 'w loop_vars" where
  "sessions_of T = (\<lambda>i. case T i of Some (In_Loop s) \<Rightarrow> Some s | _ \<Rightarrow> None)"

lemma sessions_of_simps [simp]:
  "sessions_of Map.empty = Map.empty"
  "sessions_of (T(i := None)) = (sessions_of T)(i := None)"
  "sessions_of (T(i \<mapsto> Started sk)) = (sessions_of T)(i := None)"
  "sessions_of (T(i \<mapsto> In_Loop s)) = (sessions_of T)(i \<mapsto> s)"
  "T i = None \<Longrightarrow> sessions_of T i = None"
  "T i = Some (Started sk) \<Longrightarrow> sessions_of T i = None"
  "T i = Some (In_Loop s) \<Longrightarrow> sessions_of T i = Some s"
  by (auto simp: sessions_of_def fun_eq_iff)

text \<open>
  What the process is for its sessions, when every thread has a socket: the process of theory Sessions, or,
  once it has exited, nothing any more.
\<close>

definition as_server :: "'w program \<Rightarrow> 'w process option" where
  "as_server p = (case p of
     Live m w T \<Rightarrow> Some (Running w (sessions_of T)) | Killed e \<Rightarrow> Some (Crashed e) | Exited c w \<Rightarrow> None)"

definition connected :: "'w program \<Rightarrow> bool" where
  "connected p \<longleftrightarrow> (\<forall>m w T i. p = Live m w T \<longrightarrow> T i \<noteq> Some (Started None))"

lemma accept_client_ok:
  assumes "accept_doc os"
  shows "wp (\<lambda>_. False) (\<lambda>(started, _, _). started \<noteq> Some None) (accept_client os sk w)"
proof -
  obtain rc c w1 where a: "apr_socket_accept os sk w = (rc, c, w1)" by (cases "apr_socket_accept os sk w")
  with assms have "rc = APR_SUCCESS \<Longrightarrow> c \<noteq> None" unfolding accept_doc_def by blast
  with a show ?thesis by (auto simp: accept_client_def split: prod.splits option.splits)
qed

lemma main_turn_ok:
  assumes "accept_doc os"
  shows "wp (\<lambda>_. False) (\<lambda>(_, started, _). started \<noteq> Some None) (main_turn os disk_file m w)"
proof (cases m)
  case (Accepting sk)
  then show ?thesis by (auto intro: wp_mono [OF accept_client_ok [OF assms]])
qed (auto split: prod.splits option.splits awaited.splits)

lemma idle_threads [simp]: "sessions_of T i = None \<Longrightarrow> (sessions_of T)(i := None) = sessions_of T"
  by (simp add: fun_upd_idem)

lemma thread_refines:
  assumes "T i = Some t" and "thread_turn os t w = Inr (t', w')"
  shows "server_step os (Running w (sessions_of T)) (Running w' (sessions_of (T(i := t'))))"
proof (cases "(os, t, w)" rule: thread_turn.cases)
  case (2 os' sk v)
  then have t: "t = Started (Some sk)" by simp
  obtain rc st0 w1 where c: "lfd_sess_create os sk w = (rc, st0, w1)" by (cases "lfd_sess_create os sk w")
  show ?thesis
  proof (cases st0)
    case None
    with assms c show ?thesis by (simp add: t)
  next
    case (Some st)
    with assms c obtain rc' st1 where "emit_greeting os st = Inr (rc', st1)"
      "t' = (if rc' = APR_SUCCESS then Some (In_Loop (False, None, st1)) else None)"
      "w' = (if rc' = APR_SUCCESS then world st1 else lfd_sess_destroy os st1)"
      by (auto simp: t bnd_eq_Inr split: if_splits)
    with assms(1) c Some show ?thesis
      by (auto simp: t intro: server_step.connect [of "sessions_of T" i]
          server_step.no_greeting [of "sessions_of T" i])
  qed
next
  case (3 os' s v)
  with assms(2) obtain c where c: "protocol_step os (resume w s) = Inr c"
    "(t', w') = (case c of Again s \<Rightarrow> (Some (In_Loop s), world_of s) | Done (rc, st) \<Rightarrow> (None, lfd_sess_destroy os st))"
    by (auto simp: bnd_eq_Inr)
  have i: "sessions_of T i = Some s" using 3 assms(1) by simp
  from c show ?thesis
    by (cases c) (auto split: prod.splits intro: server_step.command [of "sessions_of T" i s, OF i]
        server_step.finish [of "sessions_of T" i s, OF i])
qed (use assms in simp)

lemma thread_fault_refines:
  assumes "T i = Some t" and "thread_turn os t w = Inl e" and "e \<noteq> Diverge" "e \<noteq> Thread_Exit"
    and "t \<noteq> Started None"
  shows "server_step os (Running w (sessions_of T)) (Crashed e)"
proof (cases "(os, t, w)" rule: thread_turn.cases)
  case (2 os' sk v)
  then show ?thesis
    using assms by (auto simp: bnd_eq_Inl split: prod.splits option.splits intro: server_step.bad_banner [of "sessions_of T" i]
        server_step.turn_away [of "sessions_of T" i])
next
  case (3 os' s v)
  with assms show ?thesis by (auto simp: bnd_eq_Inl intro: server_step.crash [of "sessions_of T" i s])
qed (use assms in auto)

lemma thread_turn_greeted:
  assumes "thread_turn os t w = Inr (t', w')"
  shows "t' \<noteq> Some (Started sk)"
proof (cases "(os, t, w)" rule: thread_turn.cases)
  case (2 os' sk' v)
  with assms show ?thesis by (auto simp: bnd_eq_Inr split: prod.splits option.splits if_splits)
next
  case (3 os' s v)
  with assms obtain c where "protocol_step os (resume w s) = Inr c" and c: "(case c of Again s \<Rightarrow> (Some (In_Loop s), world_of s)
      | Done (rc, st) \<Rightarrow> (None, lfd_sess_destroy os st)) = (t', w')"
    by (auto simp: bnd_eq_Inr)
  show ?thesis using c by (cases c) (auto split: prod.splits)
qed (use assms in simp)

lemma server_runs_step: "server_runs os p \<Longrightarrow> server_step os p q \<Longrightarrow> server_runs os q"
  unfolding server_runs_def by (blast intro: rtranclp.rtrancl_into_rtrancl)

definition simulates :: "('w, 'z) server_scheme \<Rightarrow> 'w program \<Rightarrow> bool" where
  "simulates os p \<longleftrightarrow> connected p \<and> (\<forall>q. as_server p = Some q \<longrightarrow> server_runs os q)"

lemma simulates_step:
  assumes "accept_doc os" and "program_step os disk_file p q" and "simulates os p"
  shows "simulates os q"
  using assms(2,3)
proof induction
  case (main_goes m w m' w' T)
  then show ?case
    using server_runs_step [OF _ server_step.outside]
    by (auto simp: simulates_def connected_def as_server_def)
next
  case (main_starts m w m' sk w' T i)
  have "sk \<noteq> None"
    using main_turn_ok [OF assms(1), of disk_file m w] main_starts(1) by simp
  then show ?case
    using main_starts server_runs_step [OF _ server_step.outside]
    by (auto simp: simulates_def connected_def as_server_def)
next
  case (main_fails m w e T)
  then show ?case using main_turn_ok [OF assms(1), of disk_file m w] by simp
next
  case (thread T i t w t' w' m)
  have "t' \<noteq> Some (Started None)" by (rule thread_turn_greeted [OF thread(2)])
  then show ?case
    using thread server_runs_step [OF _ thread_refines [of T i t, OF thread(1,2)]]
    by (auto simp: simulates_def connected_def as_server_def)
next
  case (thread_fails T i t w e m)
  then have "t \<noteq> Started None" by (auto simp: simulates_def connected_def)
  then show ?case
    using thread_fails server_runs_step [OF _ thread_fault_refines [of T i t, OF thread_fails(1-4)]]
    by (auto simp: simulates_def connected_def as_server_def)
qed (use server_runs_step [OF _ server_step.outside] in \<open>auto simp: simulates_def connected_def as_server_def\<close>)

lemma runs_simulate:
  assumes "accept_doc os" and "program_runs os argv opts disk_file p"
  shows "simulates (os\<lparr>config := settings opts\<rparr>) p"
  using assms(2)
proof induction
  case (started w w')
  show ?case by (auto simp: simulates_def connected_def as_server_def server_runs_def)
next
  case (goes_on p q)
  have "accept_doc (os\<lparr>config := settings opts\<rparr>)" using assms(1) by (simp add: accept_doc_def)
  from simulates_step [OF this goes_on(2,3)] show ?case .
qed

lemma main_turn_status: "main_turn os disk_file m w = Inr (Inr status, started, w') \<Longrightarrow> status = 0"
  by (cases m) (auto simp: bnd_eq_Inr split: prod.splits option.splits awaited.splits)

lemma exit_step:
  "program_step os disk_file p q \<Longrightarrow> q = Exited status w \<Longrightarrow> status = 0"
  by (induction rule: program_step.induct) (auto dest: main_turn_status)

lemma runs_exit_0: "program_runs os argv opts disk_file (Exited status w) \<Longrightarrow> status = 0"
  by (induction "Exited status w" rule: program_runs.induct) (auto dest: exit_step)

text \<open>
  C10. From its start on, the process keeps every session sound: in each thread the invariant holds, a new
  name is only awaited after a 350, and the client has been answered in sentences. It exits with status 0
  or is killed by LIST without a data connection, then with status 1, or by a fault of memory, of a format or
  of arithmetic, but by no other \<open>bug\<close> and no \<open>exit\<close> of the program.
\<close>
theorem process_stays_sound:
  assumes "env_doc os" and "strtok_doc (apr_strtok os)" and "program_runs os argv opts disk_file p"
  shows "case p of
      Live m w T \<Rightarrow> \<forall>i rnfrto temp st. T i = Some (In_Loop (rnfrto, temp, st)) \<longrightarrow>
        wf_sess st \<and> rename_pending (rnfrto, temp, st) \<and> sentences (codes st)
    | Killed e \<Rightarrow> (e \<in> {Null_Deref, Out_Of_Bounds, Bad_Format, Uninitialised, Div_By_Zero} \<or> e = no_connection)
        \<and> exit_status e = (if e = no_connection then Some 1 else None)
    | Exited status w \<Rightarrow> status = 0"
proof -
  let ?os = "os\<lparr>config := settings opts\<rparr>"
  have accept: "accept_doc os" and docs: "env_doc ?os" "strtok_doc (apr_strtok ?os)"
    using assms(1,2) by (simp_all add: env_doc_def accept_doc_def)
  have runs: "server_runs ?os q" if "as_server p = Some q" for q
    using runs_simulate [OF accept assms(3)] that by (simp add: simulates_def)
  note sound = runs_sound [OF docs runs]
  show ?thesis
  proof (cases p)
    case (Live m w T)
    then have "\<forall>s \<in> ran (sessions_of T). sound s"
      using sound [of "Running w (sessions_of T)"] by (simp add: as_server_def server_sound_def)
    then have "sound s" if "T i = Some (In_Loop s)" for i s
      using ranI [of "sessions_of T" i s] that by simp
    then show ?thesis by (auto simp: Live sound_def)
  next
    case (Killed e)
    then show ?thesis
      using sound [of "Crashed e"]
      by (auto simp: as_server_def server_sound_def list_faults_def no_connection_def elim: nobug.elims)
  next
    case (Exited status w)
    with runs_exit_0 [OF assms(3) [unfolded Exited]] show ?thesis by simp
  qed
qed

text \<open>
  With polite clients, and a host that has room for them, only that LIST can kill the process.
\<close>
theorem polite_process_survives:
  assumes "decent (os\<lparr>config := settings opts\<rparr>)" and "roomy (os\<lparr>config := settings opts\<rparr>)"
    and "polite_clients (os\<lparr>config := settings opts\<rparr>)"
    and "program_runs os argv opts disk_file (Killed e)"
  shows "e = no_connection"
proof -
  have "accept_doc os" using decentD(4) [OF assms(1)] by (simp add: env_doc_def accept_doc_def)
  from runs_simulate [OF this assms(4)] have "server_runs (os\<lparr>config := settings opts\<rparr>) (Crashed e)"
    by (simp add: simulates_def as_server_def)
  from runs_calm [OF assms(1-3) this] show ?thesis by (simp add: server_calm_def)
qed

section \<open>Shutting down with clients connected\<close>

definition leaving :: "main_at \<Rightarrow> bool" where
  "leaving m \<longleftrightarrow> m \<in> {Unmounting, Halting, Closing}"

definition left_with :: "nat set \<Rightarrow> 'w program \<Rightarrow> bool" where
  "left_with D p \<longleftrightarrow> (\<forall>m w T. p = Live m w T \<longrightarrow> leaving m \<and> dom T \<subseteq> D)"

lemma left_with_step:
  assumes "program_step os disk_file p q" and "left_with D p"
  shows "left_with D q"
  using assms
proof induction
  case (main_goes m w m' w' T)
  then show ?case by (cases m) (auto simp: left_with_def leaving_def)
next
  case (main_starts m w m' sk w' T i)
  then show ?case by (cases m) (auto simp: left_with_def leaving_def)
next
  case (thread T i t w t' w' m)
  then show ?case by (cases t') (auto simp: left_with_def)
qed (simp_all add: left_with_def)

text \<open>
  Once \<open>main\<close> has left the accept loop no thread is started any more.
\<close>
theorem no_client_after_the_loop:
  assumes "(program_step os disk_file)\<^sup>*\<^sup>* (Live m w T) (Live m' w' T')" and "leaving m"
  shows "leaving m' \<and> dom T' \<subseteq> dom T"
proof -
  have "left_with (dom T) (Live m w T)" using assms(2) by (simp add: left_with_def)
  with assms(1) have "left_with (dom T) (Live m' w' T')"
    by (induction rule: rtranclp_induct) (auto intro: left_with_step)
  then show ?thesis by (simp add: left_with_def)
qed

text \<open>
  C11. The shutdown does not wait for the sessions: when the listener sees the flag, the process can reach the
  point where the file system has been unmounted and the kernel halted, with the thread of every session
  still there; each of them can then still take its next step, on the halted kernel, or be ended by the
  exit of the process in the middle of its transfer.
\<close>
theorem shutdown_abandons_sessions:
  assumes "program_runs os argv opts disk_file (Live (Polling sk thd_pool) w T)"
    and "await_client (os\<lparr>config := settings opts\<rparr>) sk (thd_pool, w) = Shut w1"
  defines "halted \<equiv> lkl_sys_halt os (snd (lkl_sys_umount os ''/'' 0 w1))"
  shows "program_runs os argv opts disk_file (Live Closing halted T)
    \<and> (\<forall>i t t' w2. T i = Some t \<and> thread_turn (os\<lparr>config := settings opts\<rparr>) t halted = Inr (t', w2) \<longrightarrow>
         program_runs os argv opts disk_file (Live Closing w2 (T(i := t'))))
    \<and> program_runs os argv opts disk_file (Exited 0 (snd (apr_file_close os disk_file halted)))"
proof -
  let ?os = "os\<lparr>config := settings opts\<rparr>"
  note goes = program_runs.goes_on [OF _ program_step.main_goes]
  have "program_runs os argv opts disk_file (Live Unmounting w1 T)"
    by (rule goes [OF assms(1)]) (simp add: assms(2))
  then have "program_runs os argv opts disk_file (Live Halting (snd (lkl_sys_umount os ''/'' 0 w1)) T)"
    by (rule goes) simp
  then have halt: "program_runs os argv opts disk_file (Live Closing halted T)"
    by (rule goes) (simp add: halted_def)
  have "program_runs os argv opts disk_file (Live Closing w2 (T(i := t')))"
    if "T i = Some t" "thread_turn ?os t halted = Inr (t', w2)" for i t t' w2
    using that by (rule program_runs.goes_on [OF halt program_step.thread])
  moreover have "program_runs os argv opts disk_file (Exited 0 (snd (apr_file_close os disk_file halted)))"
    by (rule program_runs.goes_on [OF halt program_step.main_returns]) simp
  ultimately show ?thesis using halt by blast
qed

end
