(* ===== verification/ProcessWitnesses.thy ===== *)
theory ProcessWitnesses
  imports ProtocolWitnesses Process
begin

text \<open>
  A run of the whole process, from the command line to the halted kernel, with a client that connects on
  the way.
\<close>

section \<open>A busy host\<close>

text \<open>
  A host on which a client connects with every poll until the signal comes; the world counts the polls that
  are left.
\<close>

definition busy_host :: "nat host" where
  "busy_host = calm_host\<lparr>apr_poll := \<lambda>sk ev t w. (0, APR_POLLIN, w - 1),
     apr_socket_accept := \<lambda>sk w. (0, Some 4, w)\<rparr>"

definition busy_options :: options where
  "busy_options = (default_options lfd_config_default)\<lparr>settings := lfd_config_default
     \<lparr>lfd_config_listen_port := 2121, lfd_config_data_port := 0\<rparr>\<rparr>"

abbreviation busy_os :: "nat host" where
  "busy_os \<equiv> busy_host\<lparr>config := settings busy_options\<rparr>"

lemma busy_starts: "start_up busy_host argv w = Inr (Inr (busy_options, Some 5), w)"
proof -
  have "c_atoi ''2121'' = 2121" using atoi_dec_nat [of 2121] by (simp add: dec_nat.simps)
  then have "parse_command_line busy_host argv (default_options (config busy_host)) = Inr (0, busy_options)"
    by (simp add: parse_command_line_def busy_host_def run_loop_Again run_loop_Done apply_option_def
        busy_options_def default_options_def) (simp add: host_defs)
  moreover have "apr_app_initialize busy_host w = (0, w)" "apr_pool_create busy_host w = (0, w)"
    "snd (apr_atomic_init busy_host w) = w" "apr_atomic_set32 busy_host 0 w = w"
    "install_signals busy_host w = w" "lkl_env_init busy_host n w = (0, w)"
    "mount_disk busy_host busy_options w = (0, Some 5, w)" for w n
    by (simp_all add: busy_host_def host_defs install_signals_def mount_disk_def lkl_add_disk_def)
  ultimately show ?thesis by (simp add: start_up_def lfd_config_load_def Let_def)
qed

lemma busy_docs:
  "env_doc busy_host" "accept_doc busy_host" "strtok_doc (apr_strtok busy_host)" "printf_doc (apr_pvsprintf busy_host)"
  by (simp_all add: busy_host_def host_defs env_doc_def accept_doc_def c_strtok_doc c_printf_doc)

lemma busy_greets:
  "\<exists>st. thread_turn busy_os (Started (Some 4)) w = Inr (Some (In_Loop (False, None, st)), w)"
proof -
  let ?b = "''Welcome to LklFtp Server.'' @ [CR]"
  have banner: "lfd_config_banner_string (config busy_os) = ?b"
    by (simp add: busy_options_def lfd_config_default_def)
  have "lfd_sess_create busy_os 4 w = (0, Some (sample_st w), w)"
    by (simp add: lfd_sess_create_def busy_host_def host_defs sample_st_def)
  moreover have "CHR ''%'' \<notin> set ?b" by (simp add: CR_def)
  with write_plain [of busy_os 220 ?b "[]" "sample_st w"] busy_docs(4)
  have "lfd_cmdio_write busy_os 220 ?b [] (sample_st w)
      = Inr (0, (sample_st w)\<lparr>world := w, replies := [Reply 220 ?b []]\<rparr>)"
    by (simp add: busy_host_def host_defs sample_st_def)
  then have "emit_greeting busy_os (sample_st w)
      = Inr (0, (sample_st w)\<lparr>world := w, replies := [Reply 220 ?b []]\<rparr>)"
    by (simp only: emit_greeting_def banner FTP_GREET_def) simp
  ultimately show ?thesis by simp
qed

lemma busy_awaits:
  "await_client busy_os 9 (False, 2) = Ready 1" "await_client busy_os 9 (b, 1) = Shut 0"
  by (simp_all add: await_client_def create_pollfd_from_socket_def busy_host_def host_defs Let_def APR_STATUS_IS_TIMEUP_def
      APR_STATUS_IS_EINTR_def APR_TIMEUP_def EINTR_def)

lemma busy_run:
  "\<exists>st. program_runs busy_host argv busy_options (Some 5)
     (Live (Polling 9 False) 1 [0 \<mapsto> In_Loop (False, None, st)])"
proof -
  obtain st where greet: "thread_turn busy_os (Started (Some 4)) 1 = Inr (Some (In_Loop (False, None, st)), 1)"
    using busy_greets by blast
  let ?runs = "program_runs busy_host argv busy_options (Some 5)"
  note goes = program_runs.goes_on [OF _ program_step.main_goes]
  have "?runs (Live Listening 2 Map.empty)" by (rule program_runs.started [OF busy_starts])
  then have "?runs (Live (Polling 9 False) 2 Map.empty)"
    by (rule goes) (simp add: open_listener_def create_listen_socket_def busy_host_def host_defs)
  then have "?runs (Live (Accepting 9) 1 Map.empty)"
    by (rule goes) (simp add: busy_awaits)
  then have "?runs (Live (Polling 9 False) 1 [0 \<mapsto> Started (Some 4)])"
    by (rule program_runs.goes_on [OF _ program_step.main_starts])
      (simp_all add: accept_client_def busy_host_def host_defs)
  then have "?runs (Live (Polling 9 False) 1 ([0 \<mapsto> Started (Some 4)](0 \<mapsto> In_Loop (False, None, st))))"
    by (rule program_runs.goes_on [OF _ program_step.thread [of _ 0, OF _ greet]]) simp
  then show ?thesis by auto
qed

section \<open>The theorems on its run\<close>

theorem process_stays_sound_witness:
  "\<exists>st. program_runs busy_host [''lklftpd''] busy_options (Some 5)
      (Live (Polling 9 False) 1 [0 \<mapsto> In_Loop (False, None, st)]) \<and> wf_sess st"
proof -
  obtain st where run: "program_runs busy_host [''lklftpd''] busy_options (Some 5)
      (Live (Polling 9 False) 1 [0 \<mapsto> In_Loop (False, None, st)])" using busy_run by blast
  from process_stays_sound [OF busy_docs(1,3) run, unfolded program.case, rule_format, of 0]
  have "wf_sess st" by fastforce
  with run show ?thesis by blast
qed

theorem shutdown_abandons_sessions_witness:
  "\<exists>st. program_runs busy_host [''lklftpd''] busy_options (Some 5)
      (Live Closing 0 [0 \<mapsto> In_Loop (False, None, st)])"
proof -
  obtain st where run: "program_runs busy_host [''lklftpd''] busy_options (Some 5)
      (Live (Polling 9 False) 1 [0 \<mapsto> In_Loop (False, None, st)])" using busy_run by blast
  have "lkl_sys_halt busy_host (snd (lkl_sys_umount busy_host ''/'' 0 0)) = 0"
    by (simp add: busy_host_def host_defs)
  with shutdown_abandons_sessions [OF run busy_awaits(2)] show ?thesis by auto
qed

end
