(* ===== verification/Spec2Isabelle.thy ===== *)
theory Spec2Isabelle
  imports ProcessWitnesses
begin

text \<open>
  lklftpd: an FTP server whose files live in a Linux kernel linked into the process (LKL).

  \<^bold>\<open>The program.\<close> \<open>main\<close> (main.c) reads the command line, starts the kernel, mounts a disk image and
  calls \<open>lfd_listen\<close> (listen.c), which accepts clients until a signal sets \<open>ftp_must_exit\<close> and starts
  a thread for each. The thread (worker.c) creates a session (sess.c), greets, and runs the command
  loop: \<open>lfd_cmdio_get_cmd_and_arg\<close> (cmdio.c) receives a line, the loop picks the handler
  (cmdhandler.c), and the handler answers with \<open>lfd_cmdio_write\<close>. RETR, STOR, APPE, STOU and LIST open
  a data connection (connection.c) to the address that PORT or PASV has agreed on. Files, directories
  and file information go through fileops.c, dirops.c and filestat.c to the LKL system calls; an ASCII
  transfer converts line ends with utils.c.

  \<^bold>\<open>How it is modelled.\<close> A C function is a HOL function of the same name that takes the state it works
  on and returns it changed. \<open>'w\<close> is the world that system calls, APR and other threads act on; the
  program sees of it only what the calls return. A call of LKL, of APR or of the LKL start-up code is
  a field of a record of functions, the first argument \<open>os\<close> of each definition: \<open>lkl\<close>, extended by
  \<open>apr\<close> (theory Ftp_Env), \<open>server\<close> (Sess, with the configuration), \<open>daemon\<close> (Listen) and \<open>host\<close>
  (MainProg). What a theorem relies on of such a call is a hypothesis with a name: \<open>printf_doc\<close>,
  \<open>strtok_doc\<close>, \<open>strtoff_doc\<close>, \<open>natcasecmp_doc\<close>, \<open>accept_doc\<close>, \<open>resolver_doc\<close>, \<open>env_doc\<close>,
  \<open>decent\<close> for documented behaviour; \<open>roomy\<close> (no write to the disk fails, memory pools do not run out, the
  entries of a directory can be looked up), \<open>smooth_network\<close>, \<open>smooth_reads\<close>, \<open>polite_clients\<close>, \<open>signalled\<close> for
  circumstances, which a theorem that needs them says;
  \<open>kernel_reads\<close>, \<open>kernel_writes\<close>, \<open>kernel_lists\<close>, \<open>socket_sends\<close>, \<open>socket_recvs\<close> for streams;
  \<open>reads_keep\<close>, \<open>control_keeps\<close>, \<open>mutex_keeps\<close> and the like for which call leaves which stream alone;
  \<open>watched\<close> for what an observer of a mutex sees. Theories Samples,
  Witnesses, SessionWitnesses, ProtocolWitnesses and ProcessWitnesses have instances of all of them.

  The result type \<open>'a res\<close> has the ways in which a C function leaves its caller for good: \<open>bug()\<close>,
  \<open>exit\<close>, the end of the thread, and undefined behaviour (null pointer, memory outside an object, a
  printf conversion without argument, an uninitialised variable). A loop is \<open>run_loop\<close> of its body, a
  \<open>partial_function\<close>; not returning is the fault \<open>Diverge\<close>, so that there is no fuel anywhere, and
  termination is proved with \<open>wp_run_loop_total\<close> by a measure. Sizes and offsets that the source keeps
  in \<open>apr_size_t\<close>, \<open>unsigned\<close> or \<open>apr_port_t\<close> are words of 64, 32 and 16 bits; an \<open>int\<close> that is assigned
  from something wider is narrowed by \<open>to_int32\<close>. The sizes of buffers are those of the source.

  \<^bold>\<open>Theories\<close>, each after the ones it uses:
    \<^item> Ftp_Prelude: results, loops, weakest preconditions \<open>wp E Q m\<close>, memory, C strings, decimal numbers.
    \<^item> Ftp_Env: the calls of LKL and APR, their flags and their documented behaviour.
    \<^item> Utils, Logging: utils.c; the two conversions and their specification as insertion and removal of CR,
      \<open>bug\<close>, and the text that the log functions print.
    \<^item> FileStat, FileOps, DirOps: filestat.c, fileops.c, dirops.c. \<open>lkl_file_t\<close> is the record \<open>lkl_file\<close>,
      with its buffer; \<open>lkl_dir_t\<close> is \<open>lkl_dir\<close>.
    \<^item> FileContracts, FileProps: a writer's and a reader's contract as locales, interpreted on
      \<open>lkl_file_write\<close> and \<open>lkl_file_read\<close>, buffered and not; what the \<open>_full\<close> loops, seeking, flushing
      and closing do.
    \<^item> FileLocks: the mutex of a buffered handle, watched while the operations run.
    \<^item> Sess, Cmdio, Connection: sess.c, config.c, cmdio.c, connection.c. \<open>'w st\<close> is a session with the
      world and the replies given so far; \<open>wf_sess\<close> is its invariant between commands; the locales
      \<open>session_op\<close> and \<open>answering_op\<close> are the contract of a command handler.
    \<^item> ConnProps, CmdHandler, CmdProps: rules for the operations on the data connection; the handlers of
      cmdhandler.c that need none; that they keep the contract, and what they do.
    \<^item> Transfers, TransferContracts, TransferProps, TransferOps, Delivery, UniqueName: RETR, STOR, APPE,
      STOU; their loops as clients of the file contracts; the handlers as operations of a session; what
      the client may conclude from the reply 226, in active and passive mode; the name that STOU invents.
    \<^item> Listing, ListProps, ListDelivery: LIST, the text it makes and its delivery.
    \<^item> Worker, WorkerProps, Conversation: worker.c; the invariant of a whole session, the reachable states
      of its loop (\<open>reachable\<close>), the rename protocol, how a session ends, and that a session of status
      commands refines an abstract conversation.
    \<^item> ReplyCodes: the grammar of the replies, one set of sentences for each command, and the locale
      \<open>speaking_op\<close>, interpreted on every handler.
    \<^item> RoundTrip: a whole session that stores a file and gets it back.
    \<^item> Sessions: the threads of several sessions, as a step relation \<open>server_step\<close> whose steps are the
      iterations of their loops.
    \<^item> Polite: the bounds that the documentation puts on the results of the calls (\<open>decent\<close>), clients that
      keep out of the program's traps (\<open>polite_clients\<close>), and the locale \<open>polite_op\<close>, interpreted on every
      handler: no undefined behaviour is left.
    \<^item> Listen, MainProg: listen.c and main.c; starting up and shutting down.
    \<^item> Process: the whole process. \<open>main_turn\<close> is one step of the thread of \<open>main\<close>, \<open>thread_turn\<close> one of a
      session's thread, and the relation \<open>program_step\<close> interleaves them, starts a thread where the accept
      loop does, and lets signals arrive between any two steps. \<open>as_server\<close> maps it to theory Sessions.
    \<^item> Samples, Witnesses, SessionWitnesses, ProtocolWitnesses, ProcessWitnesses: a concrete environment,
      and theorems at concrete inputs.

  \<^bold>\<open>What is shown.\<close> Of the file layer: a transfer delivers exactly its bytes whatever short results and
  interruptions the kernel makes, with the buffer as without; every operation on a buffer takes the mutex
  of its handle and gives it back; the permission bits go back and forth;
  the conversions of an ASCII transfer are the insertion and removal of CR, independent of how the
  network cuts the stream; all this as long as no write fails. Of the session: every handler keeps the invariant and answers, the loop
  keeps it for any input, RNTO is only obeyed after a 350, success means QUIT, the connection is
  closed at the end. Every command is answered by a sentence of its grammar. RETR, STOR, APPE, STOU and
  LIST return, answer 226 only for a complete transfer, and do so when nothing fails, on a kernel that does not
  refuse a write or break off a directory; a file that was stored comes back unchanged. Any number of sessions
  may interleave, and each keeps its invariant. Polite clients cannot reach undefined behaviour on a host that
  is \<open>roomy\<close>. Of the process: its sessions stay sound, and only a LIST without a data connection or undefined
  behaviour can kill it; it shuts down when the signal comes, unless it runs out of memory pools for ever, and
  unmounts before it halts the kernel, but it does not wait for its sessions. That \<open>main\<close> and the function of
  a thread are the sequences of their steps (\<open>program_by_turns\<close>), and that the steps of the process are steps of
  theory Sessions (\<open>runs_simulate\<close>), connects the models with each other and carries over what is proved.

  Where the code does something else than it means to, the theorem says what it does: a failed write, a short
  flush, ASCII downloads, PORT and PASV at once, the port 65535, long commands, percent signs, LIST
  without a connection or of an entry that has vanished, a refused disk, memory pools that run out, reports
  that say nothing.

  \<^bold>\<open>Not modelled.\<close> The debug output, the messages on the terminal and the calls of the log functions inside the
  operations, which change no state; Logging has the functions themselves. Two of these calls are undefined,
  and are the fault \<open>Bad_Format\<close> of the operation: the one for a session that cannot be created (worker.c:196)
  and the one for a failed write in \<open>do_file_recv\<close> (cmdhandler.c:666). A third has a null format, which the
  model takes as glibc's \<open>vprintf\<close> does (main.c:210).
  Memory pools, except for the calls that can fail or be cleared: the program never frees memory it still uses through a pool that
  has been cleared (the loop's pool holds only what one command needs, the session's what outlives it).
  The threads of the sessions interleave by whole iterations of their loops, the thread of \<open>main\<close> by half
  iterations and by the calls that end the process; what others do during an iteration is part of what its calls return, which is left open.
  \<open>atexit(apr_terminate)\<close>. The variants of fileops.h under \<open>#ifndef LKL_FILE_APIS\<close>, which rename APR's
  own functions; the makefile defines \<open>LKL_FILE_APIS\<close>. The build files.
\<close>

end
